(* ===== verification/Infra_Prelude.thy ===== *)
theory Infra_Prelude imports Complex_Main "HOL-Library.Word" "HOL-Library.AList" begin

text \<open>
  Shared vocabulary of the development.

  \<^item> \<^theory_text>\<open>uuid\<close>: a Python \<^verbatim>\<open>UUID\<close> is a 128-bit integer, so it is a 128-bit word;
    \<open>uuid_str\<close> is its canonical text form (\<^verbatim>\<open>str(u)\<close>).
  \<^item> \<^theory_text>\<open>timestamp\<close>: an aware \<^verbatim>\<open>datetime\<close>, as integer microseconds since the epoch
    (the resolution of the Python type), so comparison and subtraction are exact.
  \<^item> \<^theory_text>\<open>seconds\<close>: a Python float that measures time, as an exact real
    (binary rounding is not modelled).
  \<^item> a Python \<^verbatim>\<open>dict\<close> whose order is observable is an association list under
    \<open>AList.update\<close> and \<open>AList.delete\<close>: an update in place keeps the position, a new key
    goes to the end, which is the insertion order Python guarantees.
  \<^item> exceptions are the left summand of a sum type.

  The lemma collections gather what the component theories hand to the simplifier and to the
  invariant proofs.
\<close>

named_theorems inv_defs "definitions of the component invariants"
named_theorems op_defs "definitions of the operations of a component"
named_theorems preserve "an operation keeps the invariant of its component"

type_synonym uuid = "128 word"
type_synonym timestamp = int
type_synonym seconds = real
type_synonym ('k, 'v) py_dict = "('k \<times> 'v) list"

abbreviation usec_per_sec :: int where
  "usec_per_sec \<equiv> 1000000"

section \<open>Floats and JSON values\<close>

datatype pyfloat = NegInf | Finite real | PosInf | NaN

datatype json =
    JNull | JBool bool | JInt int | JFloat pyfloat | JStr string
  | JArr "json list" | JObj "(string \<times> json) list"

text \<open>The value of a key when the JSON value is an object.\<close>

fun json_get :: "json \<Rightarrow> string \<Rightarrow> json option" where
  "json_get (JObj kvs) k = map_of kvs k"
| "json_get _ k = None"

section \<open>Results\<close>

abbreviation Err :: "'e \<Rightarrow> 'e + 'a" where
  "Err \<equiv> Inl"

abbreviation Ok :: "'a \<Rightarrow> 'e + 'a" where
  "Ok \<equiv> Inr"

text \<open>\<open>x or y\<close> on an optional value whose members are all truthy (UUIDs, model objects).\<close>

definition or_else :: "'a option \<Rightarrow> 'a \<Rightarrow> 'a" where
  "or_else x y = (case x of None \<Rightarrow> y | Some v \<Rightarrow> v)"

lemma or_else_simps [simp]: "or_else None y = y" "or_else (Some v) y = v"
  by (simp_all add: or_else_def)

section \<open>Decimal rendering of integers\<close>

definition dec_digit :: "nat \<Rightarrow> char" where
  "dec_digit n = char_of (48 + n)"

fun dec_digits :: "nat \<Rightarrow> string" where
  "dec_digits n = (if n < 10 then [dec_digit n] else dec_digits (n div 10) @ [dec_digit (n mod 10)])"

declare dec_digits.simps [simp del]

lemma dec_digit_eval:
  "dec_digit 0 = CHR ''0''" "dec_digit 1 = CHR ''1''" "dec_digit (Suc 0) = CHR ''1''"
  "dec_digit 2 = CHR ''2''" "dec_digit 3 = CHR ''3''" "dec_digit 4 = CHR ''4''"
  "dec_digit 5 = CHR ''5''" "dec_digit 6 = CHR ''6''" "dec_digit 7 = CHR ''7''"
  "dec_digit 8 = CHR ''8''" "dec_digit 9 = CHR ''9''"
  by code_simp+

text \<open>Conditional equations, with which the simplifier evaluates a numeral.\<close>

lemma dec_digits_eval:
  "n < 10 \<Longrightarrow> dec_digits n = [dec_digit n]"
  "10 \<le> n \<Longrightarrow> dec_digits n = dec_digits (n div 10) @ [dec_digit (n mod 10)]"
  by (subst dec_digits.simps, simp)+

definition is_dec_digit :: "char \<Rightarrow> bool" where
  "is_dec_digit c \<longleftrightarrow> 48 \<le> (of_char c :: nat) \<and> (of_char c :: nat) \<le> 57"

definition dec_value :: "string \<Rightarrow> nat" where
  "dec_value cs = foldl (\<lambda>a c. 10 * a + (of_char c - 48)) 0 cs"

definition string_of_int :: "int \<Rightarrow> string" where
  "string_of_int i = (if i < 0 then ''-'' @ dec_digits (nat (- i)) else dec_digits (nat i))"

lemma of_char_dec_digit: "n < 10 \<Longrightarrow> (of_char (dec_digit n) :: nat) = 48 + n"
  by (simp add: dec_digit_def)

lemma is_dec_digit_dec_digit: "n < 10 \<Longrightarrow> is_dec_digit (dec_digit n)"
  by (simp add: is_dec_digit_def of_char_dec_digit)

lemma dec_digits_nonempty [simp]: "dec_digits n \<noteq> []"
  by (subst dec_digits.simps) simp

lemma dec_digits_digits: "c \<in> set (dec_digits n) \<Longrightarrow> is_dec_digit c"
proof (induction n rule: dec_digits.induct)
  case (1 n)
  show ?case
  proof (cases "n < 10")
    case True
    with "1.prems" show ?thesis
      by (subst (asm) dec_digits.simps) (simp add: is_dec_digit_dec_digit)
  next
    case False
    with "1.prems" have "c \<in> set (dec_digits (n div 10)) \<or> c = dec_digit (n mod 10)"
      by (subst (asm) dec_digits.simps) auto
    with "1.IH" [OF False] show ?thesis by (auto intro: is_dec_digit_dec_digit)
  qed
qed

lemma dec_value_append_one [simp]: "dec_value (cs @ [c]) = 10 * dec_value cs + (of_char c - 48)"
  by (simp add: dec_value_def)

lemma dec_value_dec_digits [simp]: "dec_value (dec_digits n) = n"
proof (induction n rule: dec_digits.induct)
  case (1 n)
  show ?case
  proof (cases "n < 10")
    case True
    then show ?thesis by (subst dec_digits.simps) (simp add: dec_value_def of_char_dec_digit)
  next
    case False
    have "dec_value (dec_digits n) = 10 * dec_value (dec_digits (n div 10)) + n mod 10"
      using False by (subst dec_digits.simps) (simp add: of_char_dec_digit)
    with "1.IH" [OF False] show ?thesis by simp
  qed
qed

lemma dec_digits_inject [simp]: "dec_digits m = dec_digits n \<longleftrightarrow> m = n"
  by (metis dec_value_dec_digits)

lemma minus_not_dec_digit: "\<not> is_dec_digit CHR ''-''"
  by (simp add: is_dec_digit_def)

lemma hd_dec_digits: "dec_digits n = c # cs \<Longrightarrow> c \<noteq> CHR ''-''"
  using dec_digits_digits [of c n] minus_not_dec_digit by auto

lemma string_of_int_inject [simp]: "string_of_int i = string_of_int j \<longleftrightarrow> i = j"
  by (auto simp: string_of_int_def dest: hd_dec_digits hd_dec_digits [OF sym] split: if_splits)

lemma string_of_int_chars: "c \<in> set (string_of_int i) \<Longrightarrow> is_dec_digit c \<or> c = CHR ''-''"
  by (auto simp: string_of_int_def dest: dec_digits_digits split: if_splits)

lemma no_colon_string_of_int [simp]: "CHR '':'' \<notin> set (string_of_int i)"
  using string_of_int_chars [of "CHR '':''" i] by (auto simp: is_dec_digit_def)

section \<open>Text form of UUIDs\<close>

definition hex_digit :: "nat \<Rightarrow> char" where
  "hex_digit n = (if n < 10 then char_of (48 + n) else char_of (87 + n))"

fun hex_digits :: "nat \<Rightarrow> nat \<Rightarrow> string" where
  "hex_digits 0 n = []"
| "hex_digits (Suc w) n = hex_digits w (n div 16) @ [hex_digit (n mod 16)]"

definition uuid_hex :: "uuid \<Rightarrow> string" where
  "uuid_hex u = hex_digits 32 (unat u)"

definition uuid_str :: "uuid \<Rightarrow> string" where
  "uuid_str u = (let h = uuid_hex u in
     take 8 h @ ''-'' @ take 4 (drop 8 h) @ ''-'' @ take 4 (drop 12 h) @ ''-'' @
     take 4 (drop 16 h) @ ''-'' @ drop 20 h)"

lemma length_hex_digits [simp]: "length (hex_digits w n) = w"
  by (induction w arbitrary: n) auto

lemma hex_digit_inj: "m < 16 \<Longrightarrow> n < 16 \<Longrightarrow> hex_digit m = hex_digit n \<Longrightarrow> m = n"
  by (auto simp: hex_digit_def split: if_splits)

lemma hex_digits_inj:
  "m < 16 ^ w \<Longrightarrow> n < 16 ^ w \<Longrightarrow> hex_digits w m = hex_digits w n \<Longrightarrow> m = n"
proof (induction w arbitrary: m n)
  case 0
  then show ?case by simp
next
  case (Suc w)
  have "m div 16 < 16 ^ w" "n div 16 < 16 ^ w"
    using Suc.prems(1,2) by (simp_all add: less_mult_imp_div_less mult.commute)
  moreover have "hex_digits w (m div 16) = hex_digits w (n div 16)"
    and last: "hex_digit (m mod 16) = hex_digit (n mod 16)"
    using Suc.prems(3) by simp_all
  ultimately have "m div 16 = n div 16" using Suc.IH by blast
  moreover have "m mod 16 = n mod 16"
    using hex_digit_inj [OF _ _ last] by simp
  ultimately show ?case by (metis div_mult_mod_eq)
qed

lemma uuid_hex_inject [simp]: "uuid_hex u = uuid_hex v \<longleftrightarrow> u = v"
proof
  assume h: "uuid_hex u = uuid_hex v"
  have b: "unat x < 16 ^ 32" for x :: uuid
    using unsigned_less [of x] by simp
  have "unat u = unat v"
    using hex_digits_inj [OF b b] h by (simp add: uuid_hex_def)
  then show "u = v" by (simp only: unsigned_word_eqI)
qed simp

lemma length_uuid_hex [simp]: "length (uuid_hex u) = 32"
  by (simp add: uuid_hex_def)

lemma length_uuid_str [simp]: "length (uuid_str u) = 36"
  by (simp add: uuid_str_def Let_def)

text \<open>The digits without the dashes are the hexadecimal form, so the text determines the UUID.\<close>

definition undash :: "string \<Rightarrow> string" where
  "undash s = take 8 s @ take 4 (drop 9 s) @ take 4 (drop 14 s) @ take 4 (drop 19 s) @ drop 24 s"

lemma list_split_32:
  assumes "length h = 32"
  shows "h = take 8 h @ take 4 (drop 8 h) @ take 4 (drop 12 h) @ take 4 (drop 16 h) @ drop 20 h"
proof -
  have "h = take 8 h @ drop 8 h" by simp
  also have "drop 8 h = take 4 (drop 8 h) @ drop 12 h"
    using append_take_drop_id [of 4 "drop 8 h"] by simp
  also have "drop 12 h = take 4 (drop 12 h) @ drop 16 h"
    using append_take_drop_id [of 4 "drop 12 h"] by simp
  also have "drop 16 h = take 4 (drop 16 h) @ drop 20 h"
    using append_take_drop_id [of 4 "drop 16 h"] by simp
  finally show ?thesis .
qed

lemma undash_uuid_str: "undash (uuid_str u) = uuid_hex u"
proof -
  let ?h = "uuid_hex u"
  have "undash (uuid_str u) =
      take 8 ?h @ take 4 (drop 8 ?h) @ take 4 (drop 12 ?h) @ take 4 (drop 16 ?h) @ drop 20 ?h"
    by (simp add: undash_def uuid_str_def Let_def)
  then show ?thesis using list_split_32 [of ?h] by simp
qed

lemma uuid_str_inject [simp]: "uuid_str u = uuid_str v \<longleftrightarrow> u = v"
  by (metis undash_uuid_str uuid_hex_inject)

text \<open>Fields of a known width can be read back off a delimited text.\<close>

lemma uuid_str_append_inject [simp]:
  "uuid_str u @ xs = uuid_str v @ ys \<longleftrightarrow> u = v \<and> xs = ys"
  by (auto simp: append_eq_append_conv)

text \<open>A text in front of a delimiter that the rest does not contain can be read back.\<close>

lemma first_delimiter_inject:
  assumes "c \<notin> set xs" "c \<notin> set xs'" "xs @ c # ys = xs' @ c # ys'"
  shows "xs = xs' \<and> ys = ys'"
  using assms
proof (induction xs arbitrary: xs')
  case Nil
  then show ?case by (cases xs') auto
next
  case (Cons x xs)
  then show ?case by (cases xs') auto
qed

lemma last_delimiter_inject:
  assumes "c \<notin> set ys" "c \<notin> set ys'" "xs @ c # ys = xs' @ c # ys'"
  shows "xs = xs' \<and> ys = ys'"
proof -
  have "rev ys @ c # rev xs = rev ys' @ c # rev xs'"
    using arg_cong [OF assms(3), of rev] by simp
  then show ?thesis
    using first_delimiter_inject [of c "rev ys" "rev ys'" "rev xs" "rev xs'"] assms(1,2) by simp
qed

section \<open>Splitting texts\<close>

text \<open>\<open>text.split(sep)\<close> for a one-character separator: never empty, separators dropped.\<close>

fun py_split :: "char \<Rightarrow> string \<Rightarrow> string list" where
  "py_split sep [] = [[]]"
| "py_split sep (c # cs) =
     (if c = sep then [] # py_split sep cs
      else case py_split sep cs of [] \<Rightarrow> [[c]] | f # fs \<Rightarrow> (c # f) # fs)"

lemma py_split_nonempty [simp]: "py_split sep s \<noteq> []"
  by (induction s) (auto split: list.splits)

lemma py_split_plain: "sep \<notin> set s \<Longrightarrow> py_split sep s = [s]"
  by (induction s) auto

lemma py_split_append: "sep \<notin> set s \<Longrightarrow> py_split sep (s @ sep # t) = s # py_split sep t"
  by (induction s) auto

text \<open>\<open>sep.join(fields)\<close>, and its interplay with the split.\<close>

fun join_with :: "char \<Rightarrow> string list \<Rightarrow> string" where
  "join_with sep [] = []"
| "join_with sep [f] = f"
| "join_with sep (f # fs) = f @ sep # join_with sep fs"

lemma py_split_join: "fs \<noteq> [] \<Longrightarrow> \<forall>f \<in> set fs. sep \<notin> set f \<Longrightarrow> py_split sep (join_with sep fs) = fs"
  by (induction sep fs rule: join_with.induct) (auto simp: py_split_plain py_split_append)

lemma join_with_Cons: "fs \<noteq> [] \<Longrightarrow> join_with sep (f # fs) = f @ sep # join_with sep fs"
  by (cases fs) auto

lemma join_with_split: "join_with sep (py_split sep s) = s"
proof (induction s)
  case (Cons c s)
  obtain f fs where split: "py_split sep s = f # fs" by (cases "py_split sep s") auto
  show ?case
  proof (cases "c = sep")
    case True
    then show ?thesis using Cons split by (simp add: join_with_Cons)
  next
    case False
    then show ?thesis using Cons split by (cases fs) auto
  qed
qed simp

lemma py_split_members: "f \<in> set (py_split sep s) \<Longrightarrow> sep \<notin> set f \<and> set f \<subseteq> set s"
proof (induction s arbitrary: f)
  case (Cons c s)
  obtain g gs where split: "py_split sep s = g # gs" by (cases "py_split sep s") auto
  then show ?case using Cons.prems Cons.IH [of f] Cons.IH [of g] by (auto split: if_splits)
qed simp

lemma set_join_with: "set (join_with sep fs) \<subseteq> insert sep (\<Union>f \<in> set fs. set f)"
  by (induction sep fs rule: join_with.induct) auto

lemma join_with_nonempty: "fs \<noteq> [] \<Longrightarrow> \<forall>f \<in> set fs. f \<noteq> [] \<Longrightarrow> join_with sep fs \<noteq> []"
  by (induction sep fs rule: join_with.induct) auto

lemma dec_digits_avoid [simp]: "\<not> is_dec_digit c \<Longrightarrow> c \<notin> set (dec_digits n)"
  using dec_digits_digits by blast

lemma length_dec_digits: "0 < k \<Longrightarrow> n < 10 ^ k \<Longrightarrow> length (dec_digits n) \<le> k"
proof (induction n arbitrary: k rule: dec_digits.induct)
  case (1 n)
  show ?case
  proof (cases "n < 10")
    case True
    then show ?thesis using "1.prems"(1) by (subst dec_digits.simps) simp
  next
    case False
    then have "1 < k" using "1.prems" by (cases "k = 1") auto
    then obtain k' where k: "k = Suc k'" "0 < k'" by (cases k) auto
    have "n div 10 < 10 ^ k'" using "1.prems"(2) k by (simp add: less_mult_imp_div_less mult.commute)
    from "1.IH" [OF False k(2) this] show ?thesis using False k by (subst dec_digits.simps) simp
  qed
qed

lemma hd_dec_digits_zero: "hd (dec_digits n) = CHR ''0'' \<longleftrightarrow> n = 0"
proof (induction n rule: dec_digits.induct)
  case (1 n)
  show ?case
  proof (cases "n < 10")
    case True
    then have "dec_digit n = CHR ''0'' \<longleftrightarrow> n = 0"
      using of_char_dec_digit [of n] arg_cong [of "dec_digit n" "CHR ''0''" "of_char :: char \<Rightarrow> nat"]
      by (auto simp: dec_digit_eval)
    with True show ?thesis by (simp add: dec_digits_eval)
  next
    case False
    with 1 show ?thesis by (simp add: dec_digits_eval)
  qed
qed

text \<open>\<open>sub in text\<close> on strings.\<close>

fun contains_text :: "string \<Rightarrow> string \<Rightarrow> bool" where
  "contains_text sub [] = (sub = [])"
| "contains_text sub (c # cs) = (take (length sub) (c # cs) = sub \<or> contains_text sub cs)"

lemma contains_text_append:
  "contains_text sub s \<Longrightarrow> contains_text sub (p @ s)"
  by (induction p) auto

section \<open>Ordered dictionaries\<close>

abbreviation dict_get :: "('k, 'v) py_dict \<Rightarrow> 'k \<Rightarrow> 'v option" where
  "dict_get \<equiv> map_of"

abbreviation dict_put :: "'k \<Rightarrow> 'v \<Rightarrow> ('k, 'v) py_dict \<Rightarrow> ('k, 'v) py_dict" where
  "dict_put \<equiv> AList.update"

abbreviation dict_del :: "'k \<Rightarrow> ('k, 'v) py_dict \<Rightarrow> ('k, 'v) py_dict" where
  "dict_del \<equiv> AList.delete"

definition wf_dict :: "('k, 'v) py_dict \<Rightarrow> bool" where
  "wf_dict d \<longleftrightarrow> distinct (map fst d)"

lemma wf_dict_Nil [simp]: "wf_dict []"
  by (simp add: wf_dict_def)

lemma wf_dict_put [simp]: "wf_dict d \<Longrightarrow> wf_dict (dict_put k v d)"
  unfolding wf_dict_def by (rule distinct_update)

lemma wf_dict_del [simp]: "wf_dict d \<Longrightarrow> wf_dict (dict_del k d)"
  unfolding wf_dict_def by (rule distinct_delete)

lemma wf_dict_filter [simp]: "wf_dict d \<Longrightarrow> wf_dict (filter P d)"
  unfolding wf_dict_def by (simp add: distinct_map_filter)

lemma dict_get_put: "dict_get (dict_put k v d) k' = (if k' = k then Some v else dict_get d k')"
  by (simp add: update_conv')

lemma dict_get_del: "dict_get (dict_del k d) k' = (if k' = k then None else dict_get d k')"
  by (simp add: delete_conv')

lemma dict_in: "wf_dict d \<Longrightarrow> (k, v) \<in> set d \<longleftrightarrow> dict_get d k = Some v"
  by (simp add: wf_dict_def)

lemma dict_put_fresh: "dict_get d k = None \<Longrightarrow> dict_put k v d = d @ [(k, v)]"
  by (induction d) (auto split: if_splits)

end
