(* ===== verification/Interfaces.thy ===== *)
theory Interfaces imports Infra_Prelude begin

text \<open>
  The contracts several components share, stated once as locales.

  \<^item> \<open>reach\<close> and the locale \<open>invariant_machine\<close>: a component seen as a labelled step
    relation with an invariant; every reachable state satisfies it.
  \<^item> \<open>run_reducer\<close> and the locales \<open>redelivery_safe\<close> and \<open>log_reducer\<close>: the pure
    reducers of the repository (\<^verbatim>\<open>reduce(state, event) -> new_state + intents\<close>) consume an
    at-least-once event log. \<open>redelivery_safe\<close> promises that an event delivered again at once
    does nothing; \<open>log_reducer\<close> promises that a processed event stays recognised forever.
    The clients' lemmas say what a consumer may rely on: stuttering deliveries, and whole replays,
    change neither the state nor the emitted intents.
\<close>

section \<open>Reachable states\<close>

inductive reach :: "('s \<Rightarrow> bool) \<Rightarrow> ('e \<Rightarrow> 's \<Rightarrow> 's \<Rightarrow> bool) \<Rightarrow> 's \<Rightarrow> bool"
  for init :: "'s \<Rightarrow> bool" and step :: "'e \<Rightarrow> 's \<Rightarrow> 's \<Rightarrow> bool" where
  reach_init: "init s \<Longrightarrow> reach init step s"
| reach_step: "reach init step s \<Longrightarrow> step e s t \<Longrightarrow> reach init step t"

locale invariant_machine =
  fixes init :: "'s \<Rightarrow> bool"
    and step :: "'e \<Rightarrow> 's \<Rightarrow> 's \<Rightarrow> bool"
    and inv :: "'s \<Rightarrow> bool"
  assumes inv_init: "init s \<Longrightarrow> inv s"
    and inv_step: "step e s t \<Longrightarrow> inv s \<Longrightarrow> inv t"
begin

lemma reach_inv: "reach init step s \<Longrightarrow> inv s"
  by (induction rule: reach.induct) (auto intro: inv_init inv_step)

end

section \<open>Pure reducers over an event log\<close>

fun run_reducer :: "('s \<Rightarrow> 'e \<Rightarrow> 's \<times> 'i list) \<Rightarrow> 's \<Rightarrow> 'e list \<Rightarrow> 's \<times> 'i list" where
  "run_reducer r s [] = (s, [])"
| "run_reducer r s (e # es) =
     (let (s', is) = r s e; (s'', js) = run_reducer r s' es in (s'', is @ js))"

lemma run_reducer_append:
  "run_reducer r s (xs @ ys) =
     (let (s', is) = run_reducer r s xs; (s'', js) = run_reducer r s' ys in (s'', is @ js))"
  by (induction xs arbitrary: s) (auto simp: Let_def split: prod.splits)

locale redelivery_safe =
  fixes reduce :: "'s \<Rightarrow> 'e \<Rightarrow> 's \<times> 'i list"
  assumes redelivery: "reduce (fst (reduce s e)) e = (fst (reduce s e), [])"
begin

lemma run_twice: "run_reducer reduce s (e # e # es) = run_reducer reduce s (e # es)"
  by (simp add: redelivery split_beta)

lemma run_remdups_adj: "run_reducer reduce s (remdups_adj es) = run_reducer reduce s es"
proof (induction es arbitrary: s rule: remdups_adj.induct)
  case (3 x y xs)
  show ?case
  proof (cases "x = y")
    case True
    then show ?thesis using "3.IH"(1) run_twice by simp
  next
    case False
    then show ?thesis using "3.IH"(2) by (simp add: split_beta)
  qed
qed simp_all

end

locale log_reducer =
  fixes reduce :: "'s \<Rightarrow> 'e \<Rightarrow> 's \<times> 'i list"
    and seen :: "'s \<Rightarrow> 'e \<Rightarrow> bool"
  assumes seen_noop: "seen s e \<Longrightarrow> reduce s e = (s, [])"
    and marks: "seen (fst (reduce s e)) e"
    and remembers: "seen s e \<Longrightarrow> seen (fst (reduce s e')) e"

sublocale log_reducer \<subseteq> redelivery_safe reduce
  by unfold_locales (rule seen_noop [OF marks])

context log_reducer
begin

lemma run_seen_mono: "seen s e \<Longrightarrow> seen (fst (run_reducer reduce s es)) e"
proof (induction es arbitrary: s)
  case (Cons e' es)
  then show ?case using remembers [of s e e'] by (simp add: split_beta)
qed simp

lemma run_marks: "e \<in> set es \<Longrightarrow> seen (fst (run_reducer reduce s es)) e"
proof (induction es arbitrary: s)
  case (Cons e' es)
  show ?case
  proof (cases "e = e'")
    case True
    then show ?thesis using run_seen_mono [OF marks, of s e es] by (simp add: split_beta)
  next
    case False
    then show ?thesis using Cons by (simp add: split_beta)
  qed
qed simp

lemma run_all_seen: "(\<And>e. e \<in> set es \<Longrightarrow> seen s e) \<Longrightarrow> run_reducer reduce s es = (s, [])"
  by (induction es) (simp_all add: seen_noop)

lemma run_replay:
  assumes "set ys \<subseteq> set xs"
  shows "run_reducer reduce s (xs @ ys) = run_reducer reduce s xs"
proof -
  have "run_reducer reduce (fst (run_reducer reduce s xs)) ys = (fst (run_reducer reduce s xs), [])"
    by (rule run_all_seen) (use assms run_marks in blast)
  then show ?thesis by (simp add: run_reducer_append split_beta)
qed

end

end
