(* ===== verification/InfraErrors.thy ===== *)
theory InfraErrors imports Infra_Prelude begin

text \<open>
  The transport enumeration and the exception hierarchy of \<^verbatim>\<open>errors/error_infra.py\<close> as values.
  An exception carries the fields the callers branch on or report (its context, status code,
  retry delay); the wording of human-readable messages is not modelled.
\<close>

datatype transport =
    HTTP | DATABASE | KAFKA | INFISICAL | VALKEY | GRPC | RUNTIME | MCP | FILESYSTEM | INMEMORY
  | QDRANT | GRAPH | LLM | BRIDGE

datatype circuit_state = CLOSED | OPEN | HALF_OPEN

record error_context =
  ctx_transport :: "transport option"
  ctx_operation :: "string option"
  ctx_target :: "string option"
  ctx_correlation :: uuid

text \<open>
  \<open>with_correlation\<close> draws a fresh UUID when the caller has none; the draw is the argument \<open>fresh\<close>.
\<close>

definition with_correlation ::
  "uuid \<Rightarrow> uuid option \<Rightarrow> transport option \<Rightarrow> string option \<Rightarrow> string option \<Rightarrow> error_context" where
  "with_correlation fresh cid tr oper target =
     \<lparr>ctx_transport = tr, ctx_operation = oper, ctx_target = target,
      ctx_correlation = or_else cid fresh\<rparr>"

datatype infra_error =
    RuntimeHostError error_context
  | ProtocolConfigurationError error_context
      (parameter: "string option") (config_status: "int option")
  | InfraConnectionError error_context
  | InfraTimeoutError error_context (timeout_seconds: "seconds option")
  | InfraAuthenticationError error_context (auth_status: "int option")
  | InfraUnavailableError error_context
      (unavailable_circuit: "circuit_state option") (unavailable_retry_after: "int option")
      (unavailable_status: "int option")
  | InfraRateLimitedError error_context (retry_after_seconds: seconds)
  | InfraRequestRejectedError error_context (rejected_status: int)
  | InfraProtocolError error_context (protocol_status: int)
  | ValidationError
  | PyRuntimeError
  | PyValueError
  | PyAttributeError

end
