(* ===== verification/CircuitBreaker.thy ===== *)
theory CircuitBreaker imports Interfaces InfraErrors begin

text \<open>
  The circuit breaker of \<^verbatim>\<open>mixins/mixin_async_circuit_breaker.py\<close>.

  Every method of the mixin runs while the caller holds \<^verbatim>\<open>_circuit_breaker_lock\<close> and does not
  await inside, so a method is one atomic step on the object's state. The wall clock is read at
  most once per step and is the argument \<open>now\<close>. The asyncio tasks of the active-recovery timer
  are the list \<open>cb_tasks\<close> of pending tasks with their wake-up times; a task that is cancelled or
  finished is no longer in the list. Transition callbacks are scheduled in order; \<open>cb_events\<close> is
  the log of the scheduled (new state, previous state) pairs, kept only while a callback is
  registered.
\<close>

section \<open>State and operations\<close>

record cb_config =
  cfg_threshold :: int
  cfg_reset_timeout_seconds :: seconds
  cfg_service_name :: string
  cfg_transport_type :: transport
  cfg_half_open_successes :: int
  cfg_enable_active_recovery :: bool

text \<open>The pydantic field constraints of \<^verbatim>\<open>ModelCircuitBreakerConfig\<close>.\<close>

definition mk_cb_config :: "cb_config \<Rightarrow> infra_error + cb_config" where
  "mk_cb_config c =
     (if 1 \<le> cfg_threshold c \<and> 0 \<le> cfg_reset_timeout_seconds c \<and>
         1 \<le> length (cfg_service_name c) \<and>
         1 \<le> cfg_half_open_successes c \<and> cfg_half_open_successes c \<le> 10
      then Ok c else Err ValidationError)"

record breaker =
  cb_failures :: int
  cb_open :: bool
  cb_open_until :: seconds
  cb_half_open :: bool
  cb_half_open_success_count :: int
  cb_threshold :: int
  cb_reset_timeout :: seconds
  cb_half_open_successes :: int
  cb_service_name :: string
  cb_transport_type :: transport
  cb_enable_active_recovery :: bool
  cb_recovery_task :: "nat option"
  cb_tasks :: "(nat \<times> seconds) list"
  cb_next_task :: nat
  cb_callback :: bool
  cb_events :: "(circuit_state \<times> circuit_state) list"

definition init_circuit_breaker ::
  "uuid \<Rightarrow> int \<Rightarrow> seconds \<Rightarrow> string \<Rightarrow> transport \<Rightarrow> int \<Rightarrow> bool \<Rightarrow> infra_error + breaker" where
  "init_circuit_breaker fresh threshold reset_timeout service_name transport_type
     half_open_successes enable_active_recovery =
     (let context = with_correlation fresh None (Some transport_type)
            (Some ''init_circuit_breaker'') (Some service_name) in
      if threshold < 1 then Err (ProtocolConfigurationError context (Some ''threshold'') None)
      else if reset_timeout < 0 then
        Err (ProtocolConfigurationError context (Some ''reset_timeout'') None)
      else if half_open_successes < 1 then
        Err (ProtocolConfigurationError context (Some ''half_open_successes'') None)
      else Ok \<lparr>
        cb_failures = 0, cb_open = False, cb_open_until = 0, cb_half_open = False,
        cb_half_open_success_count = 0,
        cb_threshold = threshold, cb_reset_timeout = reset_timeout,
        cb_half_open_successes = half_open_successes,
        cb_service_name = service_name, cb_transport_type = transport_type,
        cb_enable_active_recovery = enable_active_recovery,
        cb_recovery_task = None, cb_tasks = [], cb_next_task = 0,
        cb_callback = False, cb_events = []\<rparr>)"

definition init_circuit_breaker_from_config :: "uuid \<Rightarrow> cb_config \<Rightarrow> infra_error + breaker" where
  "init_circuit_breaker_from_config fresh config =
     init_circuit_breaker fresh (cfg_threshold config) (cfg_reset_timeout_seconds config)
       (cfg_service_name config) (cfg_transport_type config) (cfg_half_open_successes config)
       (cfg_enable_active_recovery config)"

definition set_transition_callback :: "breaker \<Rightarrow> breaker" where
  "set_transition_callback b = b\<lparr>cb_callback := True\<rparr>"

definition fire_transition_event :: "circuit_state \<Rightarrow> circuit_state \<Rightarrow> breaker \<Rightarrow> breaker" where
  "fire_transition_event new_state previous_state b =
     (if \<not> cb_callback b then b
      else b\<lparr>cb_events := cb_events b @ [(new_state, previous_state)]\<rparr>)"

text \<open>
  Cancelling a task that is sleeping or waiting for the lock ends it without effect; cancelling a
  finished task does nothing. Either way it is not pending afterwards.
\<close>

definition cancel_active_recovery_timer :: "breaker \<Rightarrow> breaker" where
  "cancel_active_recovery_timer b =
     (case cb_recovery_task b of
        None \<Rightarrow> b
      | Some t \<Rightarrow>
          b\<lparr>cb_tasks := filter (\<lambda>(i, _). i \<noteq> t) (cb_tasks b), cb_recovery_task := None\<rparr>)"

definition start_active_recovery_timer :: "seconds \<Rightarrow> breaker \<Rightarrow> breaker" where
  "start_active_recovery_timer now b =
     (if \<not> cb_enable_active_recovery b then b
      else
        let b' = cancel_active_recovery_timer b in
        b'\<lparr>cb_recovery_task := Some (cb_next_task b'),
           cb_tasks := cb_tasks b' @ [(cb_next_task b', now + cb_reset_timeout b')],
           cb_next_task := Suc (cb_next_task b')\<rparr>)"

text \<open>
  \<open>int(open_until - now)\<close> truncates a positive float, so it is the floor.
\<close>

definition check_circuit_breaker ::
  "string \<Rightarrow> uuid option \<Rightarrow> uuid \<Rightarrow> seconds \<Rightarrow> breaker \<Rightarrow> infra_error + breaker" where
  "check_circuit_breaker operation correlation_id fresh now b =
     (if cb_open b then
        if now \<ge> cb_open_until b then
          let b1 = cancel_active_recovery_timer b;
              b2 = b1\<lparr>cb_open := False, cb_half_open := True,
                      cb_half_open_success_count := 0, cb_failures := 0\<rparr>
          in Ok (fire_transition_event HALF_OPEN OPEN b2)
        else
          Err (InfraUnavailableError
            \<lparr>ctx_transport = Some (cb_transport_type b), ctx_operation = Some operation,
             ctx_target = Some (cb_service_name b),
             ctx_correlation = or_else correlation_id fresh\<rparr>
            (Some OPEN) (Some \<lfloor>cb_open_until b - now\<rfloor>) None)
      else Ok b)"

definition record_circuit_failure :: "seconds \<Rightarrow> breaker \<Rightarrow> breaker" where
  "record_circuit_failure now b0 =
     (let b = b0\<lparr>cb_failures := cb_failures b0 + 1\<rparr> in
      if cb_half_open b then
        fire_transition_event OPEN HALF_OPEN
          (start_active_recovery_timer now
            (b\<lparr>cb_open := True, cb_half_open := False, cb_half_open_success_count := 0,
               cb_open_until := now + cb_reset_timeout b\<rparr>))
      else if cb_open b then b
      else if cb_failures b \<ge> cb_threshold b then
        fire_transition_event OPEN CLOSED
          (start_active_recovery_timer now
            (b\<lparr>cb_open := True, cb_open_until := now + cb_reset_timeout b\<rparr>))
      else b)"

definition reset_circuit_breaker :: "breaker \<Rightarrow> breaker" where
  "reset_circuit_breaker b0 =
     (if cb_half_open b0 then
        let b = b0\<lparr>cb_half_open_success_count := cb_half_open_success_count b0 + 1\<rparr> in
        if cb_half_open_success_count b \<ge> cb_half_open_successes b then
          fire_transition_event CLOSED HALF_OPEN
            ((cancel_active_recovery_timer b)
              \<lparr>cb_half_open := False, cb_half_open_success_count := 0,
               cb_failures := 0, cb_open_until := 0\<rparr>)
        else b
      else
        (cancel_active_recovery_timer b0)
          \<lparr>cb_open := False, cb_half_open := False, cb_half_open_success_count := 0,
           cb_failures := 0, cb_open_until := 0\<rparr>)"

text \<open>The body of a recovery task after its sleep, and the public cancellation on shutdown.\<close>

definition active_recovery_fires :: "nat \<Rightarrow> breaker \<Rightarrow> breaker" where
  "active_recovery_fires current_task b0 =
     (let b1 = (if cb_open b0 then
                  fire_transition_event HALF_OPEN OPEN
                    (b0\<lparr>cb_open := False, cb_half_open := True,
                        cb_half_open_success_count := 0, cb_failures := 0\<rparr>)
                else b0);
          b2 = (if cb_recovery_task b1 = Some current_task
                then b1\<lparr>cb_recovery_task := None\<rparr> else b1)
      in b2\<lparr>cb_tasks := filter (\<lambda>(i, _). i \<noteq> current_task) (cb_tasks b2)\<rparr>)"

definition cancel_active_recovery :: "breaker \<Rightarrow> breaker" where
  "cancel_active_recovery b = cancel_active_recovery_timer b"

section \<open>Introspection\<close>

text \<open>
  Python's \<open>round(x, 2)\<close> rounds to the nearest hundredth, ties to even. The argument \<open>None\<close>
  stands for an object whose breaker was never initialised: every \<open>getattr\<close> falls back to its
  default.
\<close>

definition py_round2 :: "real \<Rightarrow> real" where
  "py_round2 x =
     (let y = x * 100; n = \<lfloor>y\<rfloor>; d = y - of_int n in
      (if d < 1/2 then of_int n
       else if d > 1/2 then of_int (n + 1)
       else if even n then of_int n else of_int (n + 1)) / 100)"

record breaker_view =
  bv_initialized :: bool
  bv_state :: circuit_state
  bv_failures :: int
  bv_threshold :: int
  bv_reset_timeout_seconds :: seconds
  bv_half_open_successes_required :: int
  bv_seconds_until_half_open :: "seconds option"
  bv_half_open_success_count :: "int option"
  bv_active_recovery_enabled :: bool
  bv_active_recovery_running :: bool

definition get_circuit_breaker_state :: "seconds \<Rightarrow> breaker option \<Rightarrow> breaker_view" where
  "get_circuit_breaker_state current_time ob =
     (case ob of
        None \<Rightarrow>
          \<lparr>bv_initialized = False, bv_state = CLOSED, bv_failures = 0, bv_threshold = 5,
           bv_reset_timeout_seconds = 60, bv_half_open_successes_required = 1,
           bv_seconds_until_half_open = None, bv_half_open_success_count = None,
           bv_active_recovery_enabled = False, bv_active_recovery_running = False\<rparr>
      | Some b \<Rightarrow>
          let (cb_state, seconds_until_half_open) =
                (if cb_open b then
                   if current_time \<ge> cb_open_until b then (HALF_OPEN, None)
                   else (OPEN, Some (py_round2 (cb_open_until b - current_time)))
                 else if cb_half_open b then (HALF_OPEN, None)
                 else (CLOSED, None))
          in
          \<lparr>bv_initialized = True, bv_state = cb_state, bv_failures = cb_failures b,
           bv_threshold = cb_threshold b, bv_reset_timeout_seconds = cb_reset_timeout b,
           bv_half_open_successes_required = cb_half_open_successes b,
           bv_seconds_until_half_open = seconds_until_half_open,
           bv_half_open_success_count =
             (if cb_state = HALF_OPEN then Some (cb_half_open_success_count b) else None),
           bv_active_recovery_enabled = cb_enable_active_recovery b,
           bv_active_recovery_running =
             (case cb_recovery_task b of
                None \<Rightarrow> False
              | Some t \<Rightarrow> t \<in> fst ` set (cb_tasks b))\<rparr>)"

lemmas breaker_ops [op_defs] =
  set_transition_callback_def fire_transition_event_def cancel_active_recovery_timer_def
  start_active_recovery_timer_def check_circuit_breaker_def record_circuit_failure_def
  reset_circuit_breaker_def active_recovery_fires_def cancel_active_recovery_def

section \<open>The breaker as a step relation\<close>

text \<open>
  \<open>BCheck\<close>, \<open>BFail\<close> and \<open>BSuccess\<close> are the calls of the clients; \<open>BWake\<close> is the event loop
  resuming a recovery task whose sleep is over; \<open>BShutdown\<close> is the public cancellation. A check
  that raises leaves the state as it was.
\<close>

datatype breaker_op =
    BCheck seconds | BFail seconds | BSuccess | BWake nat seconds | BShutdown | BRegister

inductive breaker_step :: "breaker_op \<Rightarrow> breaker \<Rightarrow> breaker \<Rightarrow> bool" where
  check_admits: "check_circuit_breaker oper cid fresh now b = Ok b' \<Longrightarrow> breaker_step (BCheck now) b b'"
| check_blocks: "check_circuit_breaker oper cid fresh now b = Err e \<Longrightarrow> breaker_step (BCheck now) b b"
| failure: "breaker_step (BFail now) b (record_circuit_failure now b)"
| success: "breaker_step BSuccess b (reset_circuit_breaker b)"
| wake: "(t, due) \<in> set (cb_tasks b) \<Longrightarrow> due \<le> now \<Longrightarrow>
    breaker_step (BWake t now) b (active_recovery_fires t b)"
| shutdown: "breaker_step BShutdown b (cancel_active_recovery b)"
| register: "breaker_step BRegister b (set_transition_callback b)"

inductive_cases breaker_checkE [elim]: "breaker_step (BCheck now) b b'"
inductive_cases breaker_failE [elim!]: "breaker_step (BFail now) b b'"
inductive_cases breaker_successE [elim!]: "breaker_step BSuccess b b'"
inductive_cases breaker_wakeE [elim!]: "breaker_step (BWake t now) b b'"
inductive_cases breaker_shutdownE [elim!]: "breaker_step BShutdown b b'"
inductive_cases breaker_registerE [elim!]: "breaker_step BRegister b b'"

definition fresh_breaker :: "breaker \<Rightarrow> bool" where
  "fresh_breaker b \<longleftrightarrow>
     (\<exists>fresh th rt sn tt hs ar. init_circuit_breaker fresh th rt sn tt hs ar = Ok b)"

section \<open>Invariant\<close>

text \<open>
  The configuration is legal; the two flags are exclusive; each state bounds its counters; and
  there is at most one pending recovery task, the one the object points to, armed only while the
  circuit is open and due exactly when the circuit may be tried again.
\<close>

definition breaker_config_ok :: "breaker \<Rightarrow> bool" where
  "breaker_config_ok b \<longleftrightarrow>
     1 \<le> cb_threshold b \<and> 0 \<le> cb_reset_timeout b \<and> 1 \<le> cb_half_open_successes b"

definition breaker_counters_ok :: "breaker \<Rightarrow> bool" where
  "breaker_counters_ok b \<longleftrightarrow>
     \<not> (cb_open b \<and> cb_half_open b) \<and>
     0 \<le> cb_failures b \<and>
     (\<not> cb_open b \<longrightarrow> cb_failures b < cb_threshold b) \<and>
     (cb_half_open b \<longrightarrow> cb_failures b = 0) \<and>
     (cb_open b \<longrightarrow> 1 \<le> cb_failures b) \<and>
     0 \<le> cb_half_open_success_count b \<and>
     cb_half_open_success_count b < cb_half_open_successes b \<and>
     (\<not> cb_half_open b \<longrightarrow> cb_half_open_success_count b = 0)"

definition breaker_timer_ok :: "breaker \<Rightarrow> bool" where
  "breaker_timer_ok b \<longleftrightarrow>
     (case cb_recovery_task b of
        None \<Rightarrow> cb_tasks b = []
      | Some t \<Rightarrow> cb_open b \<and> cb_enable_active_recovery b \<and> cb_tasks b = [(t, cb_open_until b)])"

definition breaker_inv :: "breaker \<Rightarrow> bool" where
  "breaker_inv b \<longleftrightarrow> breaker_config_ok b \<and> breaker_counters_ok b \<and> breaker_timer_ok b"

lemmas breaker_inv_defs [inv_defs] =
  breaker_inv_def breaker_config_ok_def breaker_counters_ok_def breaker_timer_ok_def

lemma breaker_inv_init:
  "init_circuit_breaker fresh th rt sn tt hs ar = Ok b \<Longrightarrow> breaker_inv b"
  by (auto simp: init_circuit_breaker_def Let_def breaker_inv_defs split: if_splits)

lemma breaker_inv_check [preserve]:
  "check_circuit_breaker oper cid fresh now b = Ok b' \<Longrightarrow> breaker_inv b \<Longrightarrow> breaker_inv b'"
  by (auto simp: check_circuit_breaker_def fire_transition_event_def cancel_active_recovery_timer_def
      breaker_inv_defs Let_def split: if_splits option.splits)

lemma breaker_inv_record [preserve]: "breaker_inv b \<Longrightarrow> breaker_inv (record_circuit_failure now b)"
  by (auto simp: record_circuit_failure_def fire_transition_event_def start_active_recovery_timer_def
      cancel_active_recovery_timer_def breaker_inv_defs Let_def split: option.splits)

lemma breaker_inv_reset [preserve]: "breaker_inv b \<Longrightarrow> breaker_inv (reset_circuit_breaker b)"
  by (auto simp: reset_circuit_breaker_def fire_transition_event_def
      cancel_active_recovery_timer_def breaker_inv_defs Let_def split: option.splits)

lemma breaker_inv_wake [preserve]:
  "(t, due) \<in> set (cb_tasks b) \<Longrightarrow> breaker_inv b \<Longrightarrow> breaker_inv (active_recovery_fires t b)"
  by (auto simp: active_recovery_fires_def fire_transition_event_def
      breaker_inv_defs Let_def split: option.splits)

lemma breaker_inv_shutdown [preserve]: "breaker_inv b \<Longrightarrow> breaker_inv (cancel_active_recovery b)"
  by (auto simp: cancel_active_recovery_def cancel_active_recovery_timer_def breaker_inv_defs
      split: option.splits)

lemma breaker_inv_register [preserve]: "breaker_inv b \<Longrightarrow> breaker_inv (set_transition_callback b)"
  by (auto simp: set_transition_callback_def breaker_inv_defs split: option.splits)

interpretation breaker_machine: invariant_machine fresh_breaker breaker_step breaker_inv
proof unfold_locales
  fix b :: breaker
  assume "fresh_breaker b"
  then show "breaker_inv b" by (auto simp: fresh_breaker_def intro: breaker_inv_init)
next
  fix e b b'
  assume "breaker_step e b b'" and "breaker_inv b"
  then show "breaker_inv b'" by (cases rule: breaker_step.cases) (auto intro: preserve)
qed

section \<open>Refinement of the three-state automaton\<close>

text \<open>
  The contract: a closed circuit counts failures, an open one knows when it may be tried, a
  half-open one counts successes. The specification functions say what each operation does to
  this view; the detailed breaker implements them.
\<close>

datatype circuit = Closed (failures_of: int) | Open seconds | HalfOpen int

definition circuit_of :: "breaker \<Rightarrow> circuit" where
  "circuit_of b =
     (if cb_open b then Open (cb_open_until b)
      else if cb_half_open b then HalfOpen (cb_half_open_success_count b)
      else Closed (cb_failures b))"

fun spec_check :: "seconds \<Rightarrow> circuit \<Rightarrow> circuit option" where
  "spec_check now (Open until) = (if until \<le> now then Some (HalfOpen 0) else None)"
| "spec_check now c = Some c"

fun spec_failure :: "int \<Rightarrow> seconds \<Rightarrow> seconds \<Rightarrow> circuit \<Rightarrow> circuit" where
  "spec_failure th timeout now (Closed n) =
     (if n + 1 \<ge> th then Open (now + timeout) else Closed (n + 1))"
| "spec_failure th timeout now (HalfOpen k) = Open (now + timeout)"
| "spec_failure th timeout now (Open until) = Open until"

fun spec_success :: "int \<Rightarrow> circuit \<Rightarrow> circuit" where
  "spec_success need (HalfOpen k) = (if k + 1 \<ge> need then Closed 0 else HalfOpen (k + 1))"
| "spec_success need c = Closed 0"

lemma circuit_of_check:
  "(case check_circuit_breaker oper cid fresh now b of Inl _ \<Rightarrow> None | Inr b' \<Rightarrow> Some (circuit_of b'))
   = spec_check now (circuit_of b)"
  by (auto simp: check_circuit_breaker_def fire_transition_event_def cancel_active_recovery_timer_def
      circuit_of_def Let_def split: option.splits)

lemma circuit_of_failure:
  "breaker_inv b \<Longrightarrow> circuit_of (record_circuit_failure now b) =
     spec_failure (cb_threshold b) (cb_reset_timeout b) now (circuit_of b)"
  by (auto simp: record_circuit_failure_def fire_transition_event_def start_active_recovery_timer_def
      cancel_active_recovery_timer_def circuit_of_def breaker_inv_defs Let_def split: option.splits)

lemma circuit_of_success:
  "breaker_inv b \<Longrightarrow> circuit_of (reset_circuit_breaker b) =
     spec_success (cb_half_open_successes b) (circuit_of b)"
  by (auto simp: reset_circuit_breaker_def fire_transition_event_def cancel_active_recovery_timer_def
      circuit_of_def breaker_inv_defs Let_def split: option.splits)

lemma circuit_of_wake:
  "(t, due) \<in> set (cb_tasks b) \<Longrightarrow> breaker_inv b \<Longrightarrow>
     circuit_of b = Open due \<and> circuit_of (active_recovery_fires t b) = HalfOpen 0"
  by (auto simp: active_recovery_fires_def fire_transition_event_def circuit_of_def
      breaker_inv_defs Let_def split: option.splits)

lemma circuit_of_quiet [simp]:
  "circuit_of (cancel_active_recovery b) = circuit_of b"
  "circuit_of (set_transition_callback b) = circuit_of b"
  by (auto simp: cancel_active_recovery_def cancel_active_recovery_timer_def
      set_transition_callback_def circuit_of_def split: option.splits)

lemma config_frame [simp]:
  "cb_threshold (record_circuit_failure now b) = cb_threshold b"
  "cb_reset_timeout (record_circuit_failure now b) = cb_reset_timeout b"
  "cb_half_open_successes (record_circuit_failure now b) = cb_half_open_successes b"
  "cb_threshold (reset_circuit_breaker b) = cb_threshold b"
  "cb_reset_timeout (reset_circuit_breaker b) = cb_reset_timeout b"
  "cb_half_open_successes (reset_circuit_breaker b) = cb_half_open_successes b"
  by (auto simp: record_circuit_failure_def reset_circuit_breaker_def fire_transition_event_def
      start_active_recovery_timer_def cancel_active_recovery_timer_def Let_def split: option.splits)

end
