(* ===== verification/BreakerProps.thy ===== *)
theory BreakerProps imports CircuitBreaker begin

text \<open>
  What the circuit breaker guarantees over whole runs: the thresholds, the length of an outage,
  the half-open trial, the recovery timer, the introspection view and the transition log.
\<close>

lemma reach_breaker_inv: "reach fresh_breaker breaker_step b \<Longrightarrow> breaker_inv b"
  by (rule breaker_machine.reach_inv)

lemma fresh_breaker_view:
  "fresh_breaker b \<Longrightarrow> circuit_of b = Closed 0 \<and> cb_events b = [] \<and> \<not> cb_callback b \<and> breaker_inv b"
  by (auto simp: fresh_breaker_def init_circuit_breaker_def Let_def circuit_of_def breaker_inv_defs
      split: if_splits)

text \<open>A concrete breaker for the witnesses: two failures open it for ten seconds.\<close>

definition sample_breaker :: breaker where
  "sample_breaker = \<lparr>
     cb_failures = 0, cb_open = False, cb_open_until = 0, cb_half_open = False,
     cb_half_open_success_count = 0, cb_threshold = 2, cb_reset_timeout = 10,
     cb_half_open_successes = 2, cb_service_name = ''kafka.dev'', cb_transport_type = KAFKA,
     cb_enable_active_recovery = True, cb_recovery_task = None, cb_tasks = [], cb_next_task = 0,
     cb_callback = False, cb_events = []\<rparr>"

lemma sample_init:
  "init_circuit_breaker 0 2 10 ''kafka.dev'' KAFKA 2 True = Ok sample_breaker"
  by (simp add: init_circuit_breaker_def sample_breaker_def)

lemma fresh_sample: "fresh_breaker sample_breaker"
  using sample_init unfolding fresh_breaker_def by blast

definition sample_open :: breaker where
  "sample_open = record_circuit_failure 4 (record_circuit_failure 3 sample_breaker)"

lemma sample_open_eq:
  "sample_open = sample_breaker\<lparr>cb_failures := 2, cb_open := True, cb_open_until := 14,
     cb_recovery_task := Some 0, cb_tasks := [(0, 14)], cb_next_task := 1\<rparr>"
  by (simp add: sample_open_def sample_breaker_def op_defs)

lemma reach_sample_open:
  assumes "\<And>op b b'. op \<noteq> BShutdown \<Longrightarrow> breaker_step op b b' \<Longrightarrow> step op b b'"
  shows "reach fresh_breaker step sample_open"
proof -
  have fail: "step (BFail now) b (record_circuit_failure now b)" for now b
    by (rule assms [OF _ breaker_step.failure]) simp
  show ?thesis
    unfolding sample_open_def
    by (rule reach.reach_step, rule reach.reach_step, rule reach.reach_init)
       (rule fresh_sample fail)+
qed

lemma reach_sample: "reach fresh_breaker breaker_step sample_open"
  by (rule reach_sample_open)

section \<open>Invariant and refinement\<close>

text \<open>
  C2: in every reachable state of the breaker the open and half-open flags exclude each other, the
  counters stay inside the bounds of the current state, and at most one recovery task is pending:
  the one the object points to, armed only while the circuit is open and due exactly at the time
  from which the circuit may be tried again.
\<close>
theorem breaker_reachable_ok:
  assumes "reach fresh_breaker breaker_step b"
  shows "breaker_config_ok b \<and> breaker_counters_ok b \<and> breaker_timer_ok b"
  using reach_breaker_inv [OF assms] by (simp add: breaker_inv_def)

theorem breaker_reachable_ok_witness:
  "cb_open sample_open \<and>
   breaker_config_ok sample_open \<and> breaker_counters_ok sample_open \<and> breaker_timer_ok sample_open"
  using breaker_reachable_ok [OF reach_sample] by (simp add: sample_open_eq)

text \<open>
  C1: every operation of the breaker, with its counters, flags, deadlines and timers, implements
  the three-state automaton: a check, a failure and a success act on the abstract circuit exactly
  as the specification functions say.
\<close>
theorem breaker_refines_circuit:
  assumes "reach fresh_breaker breaker_step b"
  shows
    "(case check_circuit_breaker oper cid fresh now b of
        Inl _ \<Rightarrow> None | Inr b' \<Rightarrow> Some (circuit_of b')) = spec_check now (circuit_of b) \<and>
     circuit_of (record_circuit_failure now b) =
       spec_failure (cb_threshold b) (cb_reset_timeout b) now (circuit_of b) \<and>
     circuit_of (reset_circuit_breaker b) = spec_success (cb_half_open_successes b) (circuit_of b)"
  using reach_breaker_inv [OF assms]
  by (simp add: circuit_of_check circuit_of_failure circuit_of_success)

theorem breaker_refines_circuit_witness:
  "circuit_of (record_circuit_failure 20 sample_open) = Open 14 \<and>
   circuit_of (reset_circuit_breaker sample_open) = Closed 0"
  using breaker_refines_circuit [OF reach_sample, where now = 20]
  by (simp add: sample_open_eq sample_breaker_def circuit_of_def)

section \<open>Thresholds\<close>

lemma fold_failures_config:
  "breaker_inv b \<Longrightarrow> breaker_inv (fold record_circuit_failure ts b) \<and>
     cb_threshold (fold record_circuit_failure ts b) = cb_threshold b \<and>
     cb_reset_timeout (fold record_circuit_failure ts b) = cb_reset_timeout b"
proof (induction ts arbitrary: b)
  case (Cons t ts)
  then show ?case
    using Cons.IH [of "record_circuit_failure t b"] by (simp add: breaker_inv_record)
qed simp

text \<open>
  a new breaker that sees failures only stays closed below the threshold, opens with the
  failure that reaches it, and is then due to be tried one reset timeout after that failure,
  however many failures are recorded afterwards.
\<close>
lemma threshold_failure_opens:
  assumes "fresh_breaker b"
  shows "circuit_of (fold record_circuit_failure ts b) =
     (if int (length ts) < cb_threshold b then Closed (int (length ts))
      else Open (ts ! nat (cb_threshold b - 1) + cb_reset_timeout b))"
proof (induction ts rule: rev_induct)
  case Nil
  then show ?case using fresh_breaker_view [OF assms] by (auto simp: breaker_inv_defs)
next
  case (snoc t ts)
  let ?b = "fold record_circuit_failure ts b"
  have inv: "breaker_inv b" using fresh_breaker_view [OF assms] by simp
  then have th: "1 \<le> cb_threshold b" by (simp add: breaker_inv_defs)
  have "circuit_of (fold record_circuit_failure (ts @ [t]) b) =
      spec_failure (cb_threshold b) (cb_reset_timeout b) t (circuit_of ?b)"
    using fold_failures_config [OF inv, of ts] circuit_of_failure [of ?b t] by simp
  then show ?case using snoc.IH th
    by (auto simp: nth_append not_less nat_less_iff le_nat_iff)
qed

section \<open>The length of an outage\<close>

definition open_step :: "breaker \<Rightarrow> breaker \<Rightarrow> bool" where
  "open_step b b' \<longleftrightarrow> cb_open b \<and> cb_open b' \<and> (\<exists>op. breaker_step op b b')"

lemma open_step_until:
  assumes "open_step b b'" "breaker_inv b"
  shows "cb_open_until b' = cb_open_until b \<and> breaker_inv b'"
proof -
  from assms(1) obtain op where op: "breaker_step op b b'" "cb_open b" "cb_open b'"
    by (auto simp: open_step_def)
  then have "cb_open_until b' = cb_open_until b"
    using assms(2)
    by (cases rule: breaker_step.cases)
       (auto simp: op_defs breaker_inv_defs Let_def split: if_splits option.splits)
  then show ?thesis using breaker_machine.inv_step [OF op(1) assms(2)] by simp
qed

lemma open_run_until:
  "open_step\<^sup>*\<^sup>* b b' \<Longrightarrow> breaker_inv b \<Longrightarrow> cb_open_until b' = cb_open_until b \<and> breaker_inv b'"
  by (induction rule: rtranclp_induct) (auto dest: open_step_until)

text \<open>
  an outage has a fixed end. While the circuit stays open no operation, whatever the failures
  recorded meanwhile, moves the time until which it is blocked; the first check at or after that
  time is admitted and puts the circuit on trial.
\<close>
lemma outage_is_bounded:
  assumes "reach fresh_breaker breaker_step b" "cb_open b" "open_step\<^sup>*\<^sup>* b b'"
    and "cb_open_until b \<le> now"
  shows "\<exists>b''. check_circuit_breaker oper cid fresh now b' = Ok b'' \<and> circuit_of b'' = HalfOpen 0"
proof -
  have "cb_open_until b' = cb_open_until b"
    using open_run_until [OF assms(3) reach_breaker_inv [OF assms(1)]] by simp
  moreover have "cb_open b'"
    using assms(3,2) by (induction rule: rtranclp_induct) (auto simp: open_step_def)
  ultimately have "spec_check now (circuit_of b') = Some (HalfOpen 0)"
    using assms(4) by (simp add: circuit_of_def)
  then show ?thesis
    using circuit_of_check [of oper cid fresh now b'] by (auto split: sum.splits)
qed

section \<open>The half-open trial\<close>

lemma successes_config:
  "breaker_inv b \<Longrightarrow> breaker_inv ((reset_circuit_breaker ^^ n) b) \<and>
     cb_half_open_successes ((reset_circuit_breaker ^^ n) b) = cb_half_open_successes b \<and>
     cb_reset_timeout ((reset_circuit_breaker ^^ n) b) = cb_reset_timeout b"
  by (induction n) (auto intro: breaker_inv_reset)

lemma successes_circuit:
  assumes "breaker_inv b" "circuit_of b = HalfOpen 0"
  shows "circuit_of ((reset_circuit_breaker ^^ n) b) =
    (if int n < cb_half_open_successes b then HalfOpen (int n) else Closed 0)"
proof (induction n)
  case 0
  then show ?case using assms by (auto simp: breaker_inv_defs)
next
  case (Suc n)
  have "circuit_of ((reset_circuit_breaker ^^ Suc n) b) =
      spec_success (cb_half_open_successes b) (circuit_of ((reset_circuit_breaker ^^ n) b))"
    using successes_config [OF assms(1), of n]
      circuit_of_success [of "(reset_circuit_breaker ^^ n) b"] by simp
  then show ?case using Suc by auto
qed

text \<open>
  on trial, the circuit closes with exactly the configured number of successes, not before;
  and a single failure before that reopens it for a full reset timeout.
\<close>
lemma half_open_trial:
  assumes "reach fresh_breaker breaker_step b" "circuit_of b = HalfOpen 0"
  shows "circuit_of ((reset_circuit_breaker ^^ n) b) =
      (if int n < cb_half_open_successes b then HalfOpen (int n) else Closed 0) \<and>
    (int n < cb_half_open_successes b \<longrightarrow>
      circuit_of (record_circuit_failure now ((reset_circuit_breaker ^^ n) b)) =
        Open (now + cb_reset_timeout b))"
  using assms successes_circuit [OF reach_breaker_inv [OF assms(1)], of n]
    successes_config [OF reach_breaker_inv [OF assms(1)], of n]
    circuit_of_failure [of "(reset_circuit_breaker ^^ n) b" now]
  by simp

definition sample_trial :: breaker where
  "sample_trial = active_recovery_fires 0 sample_open"

lemma reach_sample_trial: "reach fresh_breaker breaker_step sample_trial"
  unfolding sample_trial_def
  by (rule reach.reach_step [OF reach_sample, where e = "BWake 0 14"])
     (auto intro!: breaker_step.wake simp: sample_open_eq)

lemma sample_trial_circuit: "circuit_of sample_trial = HalfOpen 0"
  by (simp add: sample_trial_def sample_open_eq circuit_of_def op_defs sample_breaker_def)

section \<open>Active recovery\<close>

abbreviation running_step :: "breaker_op \<Rightarrow> breaker \<Rightarrow> breaker \<Rightarrow> bool" where
  "running_step op b b' \<equiv> op \<noteq> BShutdown \<and> breaker_step op b b'"

definition breaker_armed :: "breaker \<Rightarrow> bool" where
  "breaker_armed b \<longleftrightarrow> breaker_inv b \<and>
     (cb_open b \<and> cb_enable_active_recovery b \<longrightarrow> cb_recovery_task b \<noteq> None)"

interpretation armed_breaker: invariant_machine fresh_breaker running_step breaker_armed
proof unfold_locales
  fix b :: breaker
  assume "fresh_breaker b"
  then show "breaker_armed b"
    using fresh_breaker_view [of b] by (auto simp: breaker_armed_def circuit_of_def split: if_splits)
next
  fix op b b'
  assume step: "running_step op b b'" and armed: "breaker_armed b"
  then have "breaker_inv b'" using breaker_machine.inv_step [of op b b'] by (simp add: breaker_armed_def)
  moreover from step have "breaker_step op b b'" "op \<noteq> BShutdown" by simp_all
  then have "cb_open b' \<and> cb_enable_active_recovery b' \<longrightarrow> cb_recovery_task b' \<noteq> None"
    using armed unfolding breaker_armed_def
    by (cases rule: breaker_step.cases)
       (auto simp: op_defs breaker_inv_defs Let_def split: if_splits option.splits)
  ultimately show "breaker_armed b'" by (simp add: breaker_armed_def)
qed

text \<open>
  with active recovery enabled and no shutdown, an open circuit always has exactly one recovery
  task, due at the end of the outage; the step that runs it is enabled from then on and puts
  the circuit on trial, so the circuit recovers without any client calling it.
\<close>
lemma active_recovery_armed:
  assumes "reach fresh_breaker running_step b" "cb_open b" "cb_enable_active_recovery b"
  shows "\<exists>t. cb_tasks b = [(t, cb_open_until b)] \<and>
    (\<forall>now. cb_open_until b \<le> now \<longrightarrow> breaker_step (BWake t now) b (active_recovery_fires t b)) \<and>
    circuit_of (active_recovery_fires t b) = HalfOpen 0"
proof -
  have "breaker_armed b" by (rule armed_breaker.reach_inv [OF assms(1)])
  then have inv: "breaker_inv b" and "cb_recovery_task b \<noteq> None"
    using assms(2,3) by (simp_all add: breaker_armed_def)
  then obtain t where t: "cb_tasks b = [(t, cb_open_until b)]"
    by (auto simp: breaker_inv_defs)
  then have mem: "(t, cb_open_until b) \<in> set (cb_tasks b)" by simp
  have "\<forall>now. cb_open_until b \<le> now \<longrightarrow> breaker_step (BWake t now) b (active_recovery_fires t b)"
    using breaker_step.wake [OF mem] by blast
  with t circuit_of_wake [OF mem inv] show ?thesis by blast
qed

section \<open>Introspection and the transition log\<close>

fun state_name :: "circuit \<Rightarrow> circuit_state" where
  "state_name (Closed n) = CLOSED"
| "state_name (Open t) = OPEN"
| "state_name (HalfOpen k) = HALF_OPEN"

text \<open>
  the introspection view is what a client would meet: it reports \<open>OPEN\<close> exactly when a check at
  the same instant raises, and otherwise the state the circuit has after that check; and it reports
  a running recovery timer exactly when a task is pending.
\<close>
lemma view_agrees_with_check:
  assumes "reach fresh_breaker breaker_step b"
  shows "(bv_state (get_circuit_breaker_state now (Some b)) =
      (case check_circuit_breaker oper cid fresh now b of
         Inl _ \<Rightarrow> OPEN | Inr b' \<Rightarrow> state_name (circuit_of b'))) \<and>
    (bv_state (get_circuit_breaker_state now (Some b)) = OPEN \<longleftrightarrow>
      (\<exists>e. check_circuit_breaker oper cid fresh now b = Err e)) \<and>
    (bv_active_recovery_running (get_circuit_breaker_state now (Some b)) \<longleftrightarrow> cb_tasks b \<noteq> [])"
  using reach_breaker_inv [OF assms]
  by (auto simp: get_circuit_breaker_state_def check_circuit_breaker_def Let_def
      fire_transition_event_def cancel_active_recovery_timer_def circuit_of_def breaker_inv_defs
      split: option.splits)

text \<open>Reading a log of (new, previous) pairs from a start state; \<open>None\<close> when it does not connect.\<close>

fun follow :: "circuit_state \<Rightarrow> (circuit_state \<times> circuit_state) list \<Rightarrow> circuit_state option" where
  "follow s [] = Some s"
| "follow s ((new, prev) # es) = (if prev = s then follow new es else None)"

lemma follow_append:
  "follow s (es @ [(new, prev)]) = (if follow s es = Some prev then Some new else None)"
  by (induction es arbitrary: s) (auto split: if_splits)

definition observed_breaker :: "breaker \<Rightarrow> bool" where
  "observed_breaker b \<longleftrightarrow> (\<exists>b0. fresh_breaker b0 \<and> b = set_transition_callback b0)"

abbreviation observed_step :: "breaker_op \<Rightarrow> breaker \<Rightarrow> breaker \<Rightarrow> bool" where
  "observed_step op b b' \<equiv> \<not> (op = BSuccess \<and> cb_open b) \<and> breaker_step op b b'"

abbreviation automaton_edges :: "(circuit_state \<times> circuit_state) set" where
  "automaton_edges \<equiv> {(OPEN, CLOSED), (HALF_OPEN, OPEN), (OPEN, HALF_OPEN), (CLOSED, HALF_OPEN)}"

definition log_ok :: "breaker \<Rightarrow> bool" where
  "log_ok b \<longleftrightarrow> breaker_inv b \<and> cb_callback b \<and>
     follow CLOSED (cb_events b) = Some (state_name (circuit_of b)) \<and>
     set (cb_events b) \<subseteq> automaton_edges"

lemma events_frame:
  "cb_events (cancel_active_recovery_timer b) = cb_events b"
  "cb_callback (cancel_active_recovery_timer b) = cb_callback b"
  "cb_events (start_active_recovery_timer now b) = cb_events b"
  "cb_callback (start_active_recovery_timer now b) = cb_callback b"
  by (simp_all add: cancel_active_recovery_timer_def start_active_recovery_timer_def Let_def
      split: option.splits)

lemma events_of:
  "cb_callback b \<Longrightarrow> check_circuit_breaker oper cid fresh now b = Ok b' \<Longrightarrow>
     cb_callback b' \<and> cb_events b' = cb_events b @ (if cb_open b then [(HALF_OPEN, OPEN)] else [])"
  "cb_callback b \<Longrightarrow> cb_callback (record_circuit_failure now b) \<and>
     cb_events (record_circuit_failure now b) = cb_events b @
       (if cb_half_open b then [(OPEN, HALF_OPEN)]
        else if \<not> cb_open b \<and> cb_failures b + 1 \<ge> cb_threshold b then [(OPEN, CLOSED)] else [])"
  "cb_callback b \<Longrightarrow> cb_callback (reset_circuit_breaker b) \<and>
     cb_events (reset_circuit_breaker b) = cb_events b @
       (if cb_half_open b \<and> cb_half_open_success_count b + 1 \<ge> cb_half_open_successes b
        then [(CLOSED, HALF_OPEN)] else [])"
  "cb_callback b \<Longrightarrow> cb_callback (active_recovery_fires t b) \<and>
     cb_events (active_recovery_fires t b) =
       cb_events b @ (if cb_open b then [(HALF_OPEN, OPEN)] else [])"
  by (auto simp: check_circuit_breaker_def record_circuit_failure_def reset_circuit_breaker_def
      active_recovery_fires_def fire_transition_event_def events_frame Let_def split: if_splits)

lemma log_extend:
  assumes "log_ok b" "breaker_inv b'" "cb_callback b' \<and> cb_events b' = cb_events b @ es"
    and "follow (state_name (circuit_of b)) es = Some (state_name (circuit_of b'))"
    and "set es \<subseteq> automaton_edges" "length es \<le> 1"
  shows "log_ok b'"
  using assms by (cases es) (auto simp: log_ok_def follow_append split: if_splits)

lemma log_ok_check:
  assumes "log_ok b" "check_circuit_breaker oper cid fresh now b = Ok b'"
  shows "log_ok b'"
proof (rule log_extend [OF assms(1) breaker_inv_check [OF assms(2)] events_of(1) [OF _ assms(2)]])
  show "breaker_inv b" "cb_callback b" using assms(1) by (simp_all add: log_ok_def)
  show "follow (state_name (circuit_of b)) (if cb_open b then [(HALF_OPEN, OPEN)] else []) =
      Some (state_name (circuit_of b'))"
    using circuit_of_check [of oper cid fresh now b] assms(2)
    by (auto simp: circuit_of_def split: if_splits)
qed auto

lemma log_ok_failure: "log_ok b \<Longrightarrow> log_ok (record_circuit_failure now b)"
  by (rule log_extend [OF _ breaker_inv_record events_of(2)], assumption)
     (auto simp: log_ok_def circuit_of_failure, auto simp: circuit_of_def breaker_inv_defs split: if_splits)

lemma log_ok_success: "log_ok b \<Longrightarrow> \<not> cb_open b \<Longrightarrow> log_ok (reset_circuit_breaker b)"
  by (rule log_extend [OF _ breaker_inv_reset events_of(3)], assumption)
     (auto simp: log_ok_def circuit_of_success, auto simp: circuit_of_def breaker_inv_defs split: if_splits)

lemma log_ok_wake:
  assumes "log_ok b" "(t, due) \<in> set (cb_tasks b)"
  shows "log_ok (active_recovery_fires t b)"
proof -
  have ok: "breaker_inv b" "cb_callback b" using assms(1) by (simp_all add: log_ok_def)
  show ?thesis
    by (rule log_extend [OF assms(1) breaker_inv_wake [OF assms(2) ok(1)] events_of(4) [OF ok(2)]])
       (use circuit_of_wake [OF assms(2) ok(1)] in \<open>auto simp: circuit_of_def split: if_splits\<close>)
qed

interpretation observed_machine: invariant_machine observed_breaker observed_step log_ok
proof unfold_locales
  fix b :: breaker
  assume "observed_breaker b"
  then obtain b0 where "fresh_breaker b0" "b = set_transition_callback b0"
    by (auto simp: observed_breaker_def)
  then show "log_ok b"
    using fresh_breaker_view [of b0] breaker_inv_register [of b0]
    by (auto simp: log_ok_def) (auto simp: set_transition_callback_def)
next
  fix op b b'
  assume step: "observed_step op b b'" and ok: "log_ok b"
  from step have "breaker_step op b b'" by simp
  then show "log_ok b'"
  proof (cases rule: breaker_step.cases)
    case shutdown
    then show ?thesis
      using ok breaker_inv_shutdown [of b] events_frame(1,2) [of b]
      by (auto simp: log_ok_def) (auto simp: cancel_active_recovery_def)
  next
    case register
    then show ?thesis
      using ok breaker_inv_register [of b]
      by (auto simp: log_ok_def) (auto simp: set_transition_callback_def)
  qed (use step ok in \<open>auto intro: log_ok_check log_ok_failure log_ok_success log_ok_wake\<close>)
qed

text \<open>
  with a callback registered at start-up, the scheduled transition events are a gap-free path
  from \<open>CLOSED\<close> to the current state that uses only the four transitions of the automaton, as long as
  no success is reported to a circuit that is open.
\<close>
lemma transition_log_path:
  assumes "reach observed_breaker observed_step b"
  shows "follow CLOSED (cb_events b) = Some (state_name (circuit_of b)) \<and>
     set (cb_events b) \<subseteq> {(OPEN, CLOSED), (HALF_OPEN, OPEN), (OPEN, HALF_OPEN), (CLOSED, HALF_OPEN)}"
  using observed_machine.reach_inv [OF assms] by (simp add: log_ok_def)

definition sample_observed :: breaker where
  "sample_observed = record_circuit_failure 4 (record_circuit_failure 3
     (set_transition_callback sample_breaker))"

lemma reach_sample_observed: "reach observed_breaker observed_step sample_observed"
proof -
  have start: "observed_breaker (set_transition_callback sample_breaker)"
    using fresh_sample by (auto simp: observed_breaker_def)
  have fail: "observed_step (BFail now) b (record_circuit_failure now b)" for now b
    by (simp add: breaker_step.failure)
  show ?thesis
    unfolding sample_observed_def
    by (rule reach.reach_step, rule reach.reach_step, rule reach.reach_init) (rule start fail)+
qed

text \<open>
  a success reported while the circuit is open (a call that was in flight when it opened)
  closes the circuit at once and schedules no transition event, so an observer of the log still
  believes it open.
\<close>
lemma reset_from_open_silent:
  assumes "reach observed_breaker observed_step b" "cb_open b"
  shows "circuit_of (reset_circuit_breaker b) = Closed 0 \<and>
    cb_events (reset_circuit_breaker b) = cb_events b \<and>
    follow CLOSED (cb_events (reset_circuit_breaker b)) = Some OPEN"
proof -
  have ok: "log_ok b" by (rule observed_machine.reach_inv [OF assms(1)])
  with assms(2) have "\<not> cb_half_open b" "circuit_of b = Open (cb_open_until b)"
    by (simp_all add: log_ok_def breaker_inv_defs circuit_of_def)
  with ok show ?thesis
    by (simp add: log_ok_def reset_circuit_breaker_def cancel_active_recovery_timer_def
        circuit_of_def split: option.splits)
qed

end
