(* ===== verification/EnvParsing.thy ===== *)
theory EnvParsing imports CircuitBreaker begin

text \<open>
  Configuration from the process environment: \<^verbatim>\<open>utils/util_env_parsing.py\<close> and
  \<^verbatim>\<open>ModelCircuitBreakerConfig.from_env\<close>. The environment is a map from names to texts.
  Python's \<open>int(text)\<close> and \<open>float(text)\<close> are modelled on texts of Latin-1 characters, with the
  whitespace they strip, digit grouping by single underscores, signs, exponents and the special
  floats. A float is an exact real or one of the special values; binary rounding is not modelled.
\<close>

section \<open>Number literals\<close>

definition is_py_space :: "char \<Rightarrow> bool" where
  "is_py_space c \<longleftrightarrow>
     (let n = of_char c :: nat in 9 \<le> n \<and> n \<le> 13 \<or> 28 \<le> n \<and> n \<le> 32 \<or> n = 133 \<or> n = 160)"

definition py_strip :: "string \<Rightarrow> string" where
  "py_strip s = rev (dropWhile is_py_space (rev (dropWhile is_py_space s)))"

text \<open>
  \<open>ungroup_digit\<close> expects a digit, \<open>ungroup_rest\<close> follows one; both return the text without its
  underscores. \<open>int\<close> refuses more digits than the interpreter's default limit.
\<close>

definition int_digit_limit :: nat where
  "int_digit_limit = 4300"

fun ungroup_digit :: "string \<Rightarrow> string option"
  and ungroup_rest :: "string \<Rightarrow> string option" where
  "ungroup_digit [] = None"
| "ungroup_digit (c # cs) = (if is_dec_digit c then map_option (Cons c) (ungroup_rest cs) else None)"
| "ungroup_rest [] = Some []"
| "ungroup_rest (c # cs) =
     (if c = CHR ''_'' then ungroup_digit cs
      else if is_dec_digit c then map_option (Cons c) (ungroup_rest cs) else None)"

definition py_sign :: "string \<Rightarrow> bool \<times> string" where
  "py_sign s = (case s of
     [] \<Rightarrow> (False, s)
   | c # cs \<Rightarrow> if c = CHR ''-'' then (True, cs) else if c = CHR ''+'' then (False, cs) else (False, s))"

definition py_int :: "string \<Rightarrow> int option" where
  "py_int s =
     (let (neg, body) = py_sign (py_strip s) in
      case ungroup_digit body of
        None \<Rightarrow> None
      | Some ds \<Rightarrow>
          if length ds > int_digit_limit then None
          else Some (if neg then - int (dec_value ds) else int (dec_value ds)))"

text \<open>Every underscore of a float literal stands between two digits.\<close>

fun drop_underscores :: "bool \<Rightarrow> string \<Rightarrow> string option" where
  "drop_underscores after_digit [] = Some []"
| "drop_underscores after_digit (c # cs) =
     (if c = CHR ''_'' then
        (case cs of
           [] \<Rightarrow> None
         | d # _ \<Rightarrow> if after_digit \<and> is_dec_digit d then drop_underscores False cs else None)
      else map_option (Cons c) (drop_underscores (is_dec_digit c) cs))"

definition py_exponent :: "string \<Rightarrow> int option" where
  "py_exponent s =
     (case s of
        [] \<Rightarrow> Some 0
      | c # cs \<Rightarrow>
          if c \<in> {CHR ''e'', CHR ''E''} then
            (let (neg, ds) = py_sign cs in
             if ds \<noteq> [] \<and> list_all is_dec_digit ds
             then Some (if neg then - int (dec_value ds) else int (dec_value ds)) else None)
          else None)"

definition py_decimal :: "string \<Rightarrow> real option" where
  "py_decimal s =
     (let ip = takeWhile is_dec_digit s; r = dropWhile is_dec_digit s;
          (fp, r') = (case r of
             [] \<Rightarrow> ([], r)
           | c # cs \<Rightarrow> if c = CHR ''.'' then (takeWhile is_dec_digit cs, dropWhile is_dec_digit cs)
                        else ([], r))
      in if ip = [] \<and> fp = [] then None
         else map_option (\<lambda>e. real (dec_value (ip @ fp)) * 10 powi (e - int (length fp)))
                (py_exponent r'))"

definition ascii_lower :: "char \<Rightarrow> char" where
  "ascii_lower c = (let n = of_char c :: nat in if 65 \<le> n \<and> n \<le> 90 then char_of (n + 32) else c)"

text \<open>Decimal values from the rounding limit of binary64 upwards become infinite.\<close>

definition float_overflow :: real where
  "float_overflow = 2 ^ 1024 - 2 ^ 970"

definition py_float :: "string \<Rightarrow> pyfloat option" where
  "py_float s =
     (let (neg, body) = py_sign (py_strip s); low = map ascii_lower body in
      if low = ''inf'' \<or> low = ''infinity'' then Some (if neg then NegInf else PosInf)
      else if low = ''nan'' then Some NaN
      else case drop_underscores False body of
             None \<Rightarrow> None
           | Some t \<Rightarrow>
               map_option (\<lambda>x. if x \<ge> float_overflow then (if neg then NegInf else PosInf)
                                 else Finite (if neg then - x else x)) (py_decimal t))"

text \<open>Comparisons with a finite bound; every comparison with NaN is false.\<close>

fun float_below :: "pyfloat \<Rightarrow> real \<Rightarrow> bool" where
  "float_below (Finite x) m = (x < m)"
| "float_below NegInf m = True"
| "float_below PosInf m = False"
| "float_below NaN m = False"

fun float_above :: "pyfloat \<Rightarrow> real \<Rightarrow> bool" where
  "float_above (Finite x) m = (x > m)"
| "float_above NegInf m = False"
| "float_above PosInf m = True"
| "float_above NaN m = False"

section \<open>The parsers\<close>

type_synonym environ = "string \<rightharpoonup> string"

definition env_error :: "uuid \<Rightarrow> string \<Rightarrow> transport \<Rightarrow> string \<Rightarrow> infra_error" where
  "env_error fresh env_var tr service_name =
     ProtocolConfigurationError
       \<lparr>ctx_transport = Some tr, ctx_operation = Some ''parse_env_config'',
        ctx_target = Some service_name, ctx_correlation = fresh\<rparr> (Some env_var) None"

definition parse_env_int ::
  "environ \<Rightarrow> uuid \<Rightarrow> string \<Rightarrow> int \<Rightarrow> int option \<Rightarrow> int option \<Rightarrow> transport \<Rightarrow> string \<Rightarrow> infra_error + int"
  where
  "parse_env_int env fresh env_var dflt min_value max_value tr service_name =
     (case env env_var of
        None \<Rightarrow> Ok dflt
      | Some raw_value \<Rightarrow>
          (case py_int raw_value of
             None \<Rightarrow> Err (env_error fresh env_var tr service_name)
           | Some parsed \<Rightarrow>
               if (case min_value of None \<Rightarrow> False | Some m \<Rightarrow> parsed < m) then Ok dflt
               else if (case max_value of None \<Rightarrow> False | Some m \<Rightarrow> parsed > m) then Ok dflt
               else Ok parsed))"

definition parse_env_float ::
  "environ \<Rightarrow> uuid \<Rightarrow> string \<Rightarrow> real \<Rightarrow> real option \<Rightarrow> real option \<Rightarrow> transport \<Rightarrow> string
     \<Rightarrow> infra_error + pyfloat" where
  "parse_env_float env fresh env_var dflt min_value max_value tr service_name =
     (case env env_var of
        None \<Rightarrow> Ok (Finite dflt)
      | Some raw_value \<Rightarrow>
          (case py_float raw_value of
             None \<Rightarrow> Err (env_error fresh env_var tr service_name)
           | Some parsed \<Rightarrow>
               if (case min_value of None \<Rightarrow> False | Some m \<Rightarrow> float_below parsed m) then Ok (Finite dflt)
               else if (case max_value of None \<Rightarrow> False | Some m \<Rightarrow> float_above parsed m)
               then Ok (Finite dflt)
               else Ok parsed))"

text \<open>
  \<open>from_env\<close> hands both values to the constructor. What pydantic's constraint \<open>ge=0.0\<close> does with a
  NaN is not code of the repository: the argument \<open>nan_config\<close> is the outcome of that call. No
  infinity reaches the constructor.
\<close>

definition from_env ::
  "(int \<Rightarrow> infra_error + cb_config) \<Rightarrow> environ \<Rightarrow> uuid \<Rightarrow> uuid \<Rightarrow> string \<Rightarrow> transport \<Rightarrow> string
     \<Rightarrow> infra_error + cb_config" where
  "from_env nan_config env fresh1 fresh2 service_name tr prefix =
     (case parse_env_int env fresh1 (prefix @ ''_THRESHOLD'') 5 (Some 1) (Some 1000) tr service_name of
        Err e \<Rightarrow> Err e
      | Ok threshold \<Rightarrow>
          (case parse_env_float env fresh2 (prefix @ ''_RESET_TIMEOUT'') 60 (Some 0) (Some 3600)
                  tr service_name of
             Err e \<Rightarrow> Err e
           | Ok (Finite reset_timeout) \<Rightarrow>
               mk_cb_config
                 \<lparr>cfg_threshold = threshold, cfg_reset_timeout_seconds = reset_timeout,
                  cfg_service_name = service_name, cfg_transport_type = tr,
                  cfg_half_open_successes = 1, cfg_enable_active_recovery = False\<rparr>
           | Ok _ \<Rightarrow> nan_config threshold))"

section \<open>Lemmas\<close>

lemma digit_not_space: "is_dec_digit c \<Longrightarrow> \<not> is_py_space c"
  by (auto simp: is_dec_digit_def is_py_space_def Let_def)

lemma digit_not_underscore: "is_dec_digit c \<Longrightarrow> c \<noteq> CHR ''_''"
  by (auto simp: is_dec_digit_def)

lemma digit_not_sign: "is_dec_digit c \<Longrightarrow> c \<noteq> CHR ''-'' \<and> c \<noteq> CHR ''+''"
  by (auto simp: is_dec_digit_def)

lemma ungroup_rest_digits: "\<forall>c \<in> set cs. is_dec_digit c \<Longrightarrow> ungroup_rest cs = Some cs"
  by (induction cs) (auto simp: digit_not_underscore)

lemma ungroup_dec_digits: "ungroup_digit (dec_digits n) = Some (dec_digits n)"
proof -
  obtain c cs where d: "dec_digits n = c # cs" by (cases "dec_digits n") auto
  then have "\<forall>x \<in> set (c # cs). is_dec_digit x" using dec_digits_digits [of _ n] by simp
  then show ?thesis unfolding d using ungroup_rest_digits [of cs] by simp
qed

lemma dropWhile_head: "xs \<noteq> [] \<Longrightarrow> \<not> P (hd xs) \<Longrightarrow> dropWhile P (ws @ xs) = (if \<forall>w \<in> set ws. P w then xs else dropWhile P ws @ xs)"
  by (induction ws) (auto simp: neq_Nil_conv)

lemma py_strip_padded:
  assumes "\<forall>c \<in> set ws. is_py_space c" "\<forall>c \<in> set vs. is_py_space c"
    and "s \<noteq> []" "\<not> is_py_space (hd s)" "\<not> is_py_space (last s)"
  shows "py_strip (ws @ s @ vs) = s"
proof -
  have "dropWhile is_py_space (ws @ s @ vs) = s @ vs"
    using assms(1,3,4) by (subst dropWhile_head) auto
  moreover have "dropWhile is_py_space (rev vs @ rev s) = rev s"
    using assms(2,3,5) by (subst dropWhile_head) (auto simp: hd_rev)
  ultimately show ?thesis by (simp add: py_strip_def)
qed

lemma py_strip_last: "py_strip s \<noteq> [] \<Longrightarrow> \<not> is_py_space (last (py_strip s))"
proof -
  assume ne: "py_strip s \<noteq> []"
  let ?t = "dropWhile is_py_space (rev (dropWhile is_py_space s))"
  have "?t \<noteq> []" using ne by (simp add: py_strip_def)
  then have "\<not> is_py_space (hd ?t)" by (rule hd_dropWhile)
  then show ?thesis using \<open>?t \<noteq> []\<close> by (simp add: py_strip_def last_rev)
qed

lemma py_strip_hd: "py_strip s \<noteq> [] \<Longrightarrow> \<not> is_py_space (hd (py_strip s))"
proof -
  assume ne: "py_strip s \<noteq> []"
  let ?u = "dropWhile is_py_space s"
  have "?u \<noteq> []" using ne by (auto simp: py_strip_def dest: set_dropWhileD)
  then have "\<not> is_py_space (hd ?u)" by (rule hd_dropWhile)
  obtain v where "?u = py_strip s @ v" unfolding py_strip_def
    by (metis rev_append rev_rev_ident takeWhile_dropWhile_id)
  then have "hd ?u = hd (py_strip s)" using ne by simp
  with \<open>\<not> is_py_space (hd ?u)\<close> show ?thesis by simp
qed

lemma py_strip_Nil [simp]: "py_strip [] = []"
  by (simp add: py_strip_def)

lemma py_strip_idem [simp]: "py_strip (py_strip s) = py_strip s"
proof (cases "py_strip s = []")
  case False
  then have "\<not> is_py_space (last (py_strip s))" by (rule py_strip_last)
  moreover have "\<not> is_py_space (hd (py_strip s))" using False by (rule py_strip_hd)
  ultimately have "dropWhile is_py_space (py_strip s) = py_strip s"
    "dropWhile is_py_space (rev (py_strip s)) = rev (py_strip s)"
    using False by (simp_all add: dropWhile_eq_self_iff hd_rev)
  then show ?thesis by (subst (1) py_strip_def) simp
next
  case True
  then show ?thesis by (metis py_strip_Nil)
qed

lemma string_of_int_no_space: "c \<in> set (string_of_int i) \<Longrightarrow> \<not> is_py_space c"
  using string_of_int_chars [of c i] by (auto simp: digit_not_space) (simp add: is_py_space_def)

lemma string_of_int_nonempty [simp]: "string_of_int i \<noteq> []"
  by (simp add: string_of_int_def)

lemma py_sign_string_of_int:
  "py_sign (string_of_int i) = (i < 0, dec_digits (nat \<bar>i\<bar>))"
proof (cases "i < 0")
  case True
  then show ?thesis by (simp add: py_sign_def string_of_int_def)
next
  case False
  obtain c cs where d: "dec_digits (nat i) = c # cs" by (cases "dec_digits (nat i)") auto
  then have "is_dec_digit c" using dec_digits_digits [of c "nat i"] by simp
  with False d show ?thesis by (auto simp: py_sign_def string_of_int_def dest: digit_not_sign)
qed

lemma py_int_padded:
  assumes "\<forall>c \<in> set ws. is_py_space c" "\<forall>c \<in> set vs. is_py_space c" "nat \<bar>i\<bar> < 10 ^ int_digit_limit"
  shows "py_int (ws @ string_of_int i @ vs) = Some i"
proof -
  have "py_strip (ws @ string_of_int i @ vs) = string_of_int i"
    using assms(1,2) by (intro py_strip_padded) (simp_all add: string_of_int_no_space [of _ i])
  moreover have "length (dec_digits (nat \<bar>i\<bar>)) \<le> int_digit_limit"
    by (rule length_dec_digits [OF _ assms(3)]) (simp add: int_digit_limit_def)
  ultimately show ?thesis
    by (simp add: py_int_def py_sign_string_of_int ungroup_dec_digits del: nat_abs_int_diff)
qed

section \<open>Properties\<close>

text \<open>
  an integer written in decimal, with any whitespace around it, is read back as itself when it
  lies in the configured range, and replaced by the default when it does not (the parser refuses
  only integers of more than 4300 digits).
\<close>
lemma parse_env_int_roundtrip:
  assumes "\<forall>c \<in> set ws. is_py_space c" "\<forall>c \<in> set vs. is_py_space c"
    and "env var = Some (ws @ string_of_int i @ vs)" "nat \<bar>i\<bar> < 10 ^ int_digit_limit"
  shows "parse_env_int env fresh var dflt (Some lo) (Some hi) tr sn =
    Ok (if lo \<le> i \<and> i \<le> hi then i else dflt)"
  using assms(3) py_int_padded [OF assms(1,2,4)] by (simp add: parse_env_int_def)

lemma parse_env_int_cases:
  "parse_env_int env fresh var dflt (Some lo) (Some hi) tr sn = r \<Longrightarrow> lo \<le> dflt \<Longrightarrow> dflt \<le> hi \<Longrightarrow>
    (\<exists>n. r = Ok n \<and> lo \<le> n \<and> n \<le> hi) \<or>
    (\<exists>raw. env var = Some raw \<and> py_int raw = None \<and> r = Err (env_error fresh var tr sn))"
  by (auto simp: parse_env_int_def split: option.splits)

lemma parse_env_float_cases:
  "parse_env_float env fresh var dflt (Some lo) (Some hi) tr sn = r \<Longrightarrow> lo \<le> dflt \<Longrightarrow> dflt \<le> hi \<Longrightarrow>
    (\<exists>x. r = Ok (Finite x) \<and> lo \<le> x \<and> x \<le> hi) \<or>
    (\<exists>raw. env var = Some raw \<and> py_float raw = Some NaN \<and> r = Ok NaN) \<or>
    (\<exists>raw. env var = Some raw \<and> py_float raw = None \<and> r = Err (env_error fresh var tr sn))"
  by (cases "env var"; cases "py_float (the (env var))"; cases "the (py_float (the (env var)))")
     (auto simp: parse_env_float_def)



text \<open>
  the range check of the float parser does not apply to NaN: any spelling of \<open>nan\<close>, with any
  whitespace around it, is returned as parsed, whatever minimum and maximum the caller asked for.
\<close>
lemma parse_env_float_nan_unchecked:
  assumes "\<forall>c \<in> set ws. is_py_space c" "\<forall>c \<in> set vs. is_py_space c"
    and "env var = Some (ws @ s @ vs)" "map ascii_lower s = ''nan''"
  shows "parse_env_float env fresh var dflt (Some lo) (Some hi) tr sn = Ok NaN"
proof -
  obtain a b c where s: "s = [a, b, c]"
    and abc: "ascii_lower a = CHR ''n''" "ascii_lower c = CHR ''n''"
    using assms(4) by (auto simp: map_eq_Cons_conv)
  have n: "of_char x = (110::nat) \<or> of_char x = (78::nat)" if "ascii_lower x = CHR ''n''" for x
    using arg_cong [OF that, of "of_char :: char \<Rightarrow> nat"]
    by (auto simp: ascii_lower_def Let_def split: if_splits)
  have "\<not> is_py_space a" "\<not> is_py_space c" "a \<noteq> CHR ''-''" "a \<noteq> CHR ''+''"
    using n [OF abc(1)] n [OF abc(2)] by (auto simp: is_py_space_def Let_def)
  then have "py_strip (ws @ s @ vs) = s"
    by (intro py_strip_padded [OF assms(1,2)]) (simp_all add: s)
  moreover have "py_sign s = (False, s)"
    using \<open>a \<noteq> CHR ''-''\<close> \<open>a \<noteq> CHR ''+''\<close> by (simp add: s py_sign_def)
  ultimately have "py_float (ws @ s @ vs) = Some NaN"
    using assms(4) by (simp add: py_float_def)
  then show ?thesis using assms(3) by (simp add: parse_env_float_def)
qed

end
