(* ===== verification/RetryExecution.thy ===== *)
theory RetryExecution imports CircuitBreaker begin

text \<open>
  Retry bookkeeping: \<^verbatim>\<open>handlers/models/model_retry_state.py\<close>, the error categories and
  classifications, and the shared helpers of \<^verbatim>\<open>mixins/mixin_retry_execution.py\<close>. The helpers reach
  the circuit breaker through \<^verbatim>\<open>ProtocolCircuitBreakerAware\<close>: here the record \<open>breaker_iface\<close> of its
  three operations, whose laws are the locale \<open>breaker_protocol\<close>, interpreted on the breaker of
  \<^verbatim>\<open>mixin_async_circuit_breaker.py\<close>.
\<close>

section \<open>Retry state\<close>

record retry_state =
  rs_attempt :: int
  rs_max_attempts :: int
  rs_delay_seconds :: seconds
  rs_backoff_multiplier :: real
  rs_last_error :: "string option"
  rs_last_attempt_at :: "seconds option"

text \<open>The pydantic field constraints, checked by every construction.\<close>

definition retry_state_ok :: "retry_state \<Rightarrow> bool" where
  "retry_state_ok s \<longleftrightarrow>
     0 \<le> rs_attempt s \<and> 1 \<le> rs_max_attempts s \<and> rs_max_attempts s \<le> 100 \<and>
     0 \<le> rs_delay_seconds s \<and> 1 \<le> rs_backoff_multiplier s \<and> rs_backoff_multiplier s \<le> 10"

definition mk_retry_state :: "retry_state \<Rightarrow> infra_error + retry_state" where
  "mk_retry_state s = (if retry_state_ok s then Ok s else Err ValidationError)"

definition default_retry_state :: "int \<Rightarrow> infra_error + retry_state" where
  "default_retry_state max_attempts =
     mk_retry_state
       \<lparr>rs_attempt = 0, rs_max_attempts = max_attempts, rs_delay_seconds = 1,
        rs_backoff_multiplier = 2, rs_last_error = None, rs_last_attempt_at = None\<rparr>"

definition is_retriable :: "retry_state \<Rightarrow> bool" where
  "is_retriable s \<longleftrightarrow> rs_attempt s < rs_max_attempts s"

definition is_final_attempt :: "retry_state \<Rightarrow> bool" where
  "is_final_attempt s \<longleftrightarrow> rs_attempt s \<ge> rs_max_attempts s - 1"

definition next_attempt ::
  "string option \<Rightarrow> seconds option \<Rightarrow> seconds \<Rightarrow> seconds \<Rightarrow> retry_state \<Rightarrow> infra_error + retry_state"
  where
  "next_attempt error_message timestamp now max_delay_seconds s =
     (let new_delay = min (rs_delay_seconds s * rs_backoff_multiplier s) max_delay_seconds in
      mk_retry_state
        \<lparr>rs_attempt = rs_attempt s + 1, rs_max_attempts = rs_max_attempts s,
         rs_delay_seconds = new_delay, rs_backoff_multiplier = rs_backoff_multiplier s,
         rs_last_error = error_message,
         rs_last_attempt_at = Some (case timestamp of None \<Rightarrow> now | Some t \<Rightarrow> t)\<rparr>)"

definition with_initial_delay :: "seconds \<Rightarrow> retry_state \<Rightarrow> infra_error + retry_state" where
  "with_initial_delay initial_delay s = mk_retry_state (s\<lparr>rs_delay_seconds := initial_delay\<rparr>)"

abbreviation default_max_delay :: seconds where
  "default_max_delay \<equiv> 300"

lemma default_retry_state_iff:
  "default_retry_state n = Ok s \<longleftrightarrow> 1 \<le> n \<and> n \<le> 100 \<and>
     s = \<lparr>rs_attempt = 0, rs_max_attempts = n, rs_delay_seconds = 1, rs_backoff_multiplier = 2,
          rs_last_error = None, rs_last_attempt_at = None\<rparr>"
  by (auto simp: default_retry_state_def mk_retry_state_def retry_state_ok_def)

lemma next_attempt_ok:
  "retry_state_ok s \<Longrightarrow> 0 \<le> max_delay \<Longrightarrow>
     \<exists>s'. next_attempt msg ts now max_delay s = Ok s' \<and> retry_state_ok s'"
  by (auto simp: next_attempt_def mk_retry_state_def retry_state_ok_def Let_def min_def)

lemma next_attempt_fields:
  "next_attempt msg ts now max_delay s = Ok s' \<Longrightarrow>
     rs_attempt s' = rs_attempt s + 1 \<and> rs_max_attempts s' = rs_max_attempts s \<and>
     rs_backoff_multiplier s' = rs_backoff_multiplier s \<and>
     rs_delay_seconds s' = min (rs_delay_seconds s * rs_backoff_multiplier s) max_delay \<and>
     retry_state_ok s'"
  by (auto simp: next_attempt_def mk_retry_state_def Let_def split: if_splits)

section \<open>Error classification\<close>

datatype retry_category = TIMEOUT | AUTHENTICATION | CONNECTION | NOT_FOUND | UNKNOWN

definition is_retry_eligible :: "retry_category \<Rightarrow> bool" where
  "is_retry_eligible c \<longleftrightarrow> c \<in> {TIMEOUT, CONNECTION, UNKNOWN}"

definition records_circuit_failure :: "retry_category \<Rightarrow> bool" where
  "records_circuit_failure c \<longleftrightarrow> c \<in> {TIMEOUT, AUTHENTICATION, CONNECTION, UNKNOWN}"

record retry_classification =
  cl_category :: retry_category
  cl_should_retry :: bool
  cl_record_circuit_failure :: bool
  cl_error_message :: string

section \<open>The circuit breaker as the helpers see it\<close>

record 's breaker_iface =
  if_check :: "string \<Rightarrow> uuid option \<Rightarrow> uuid \<Rightarrow> seconds \<Rightarrow> 's \<Rightarrow> infra_error + 's"
  if_fail :: "seconds \<Rightarrow> 's \<Rightarrow> 's"
  if_reset :: "'s \<Rightarrow> 's"

definition is_circuit_error :: "infra_error \<Rightarrow> bool" where
  "is_circuit_error e \<longleftrightarrow> (\<exists>ctx r. e = InfraUnavailableError ctx (Some OPEN) (Some r) None)"

text \<open>
  The contract: a check is refused exactly while the circuit is blocked, with a circuit error;
  a failure never unblocks; a success always does; every operation keeps the provider's invariant.
\<close>

locale breaker_protocol =
  fixes iface :: "'s breaker_iface"
    and inv :: "'s \<Rightarrow> bool"
    and blocked :: "seconds \<Rightarrow> 's \<Rightarrow> bool"
  assumes check_blocked: "blocked now s \<Longrightarrow>
      \<exists>e. if_check iface oper cid fresh now s = Err e \<and> is_circuit_error e"
    and check_admitted: "inv s \<Longrightarrow> \<not> blocked now s \<Longrightarrow>
      \<exists>s'. if_check iface oper cid fresh now s = Ok s' \<and> inv s' \<and> \<not> blocked later s'"
    and fail_inv: "inv s \<Longrightarrow> inv (if_fail iface t s)"
    and fail_blocked: "inv s \<Longrightarrow> blocked now s \<Longrightarrow> blocked now (if_fail iface t s)"
    and reset_inv: "inv s \<Longrightarrow> inv (if_reset iface s)"
    and reset_unblocks: "inv s \<Longrightarrow> \<not> blocked now (if_reset iface s)"

definition mixin_breaker :: "breaker breaker_iface" where
  "mixin_breaker =
     \<lparr>if_check = check_circuit_breaker, if_fail = record_circuit_failure,
      if_reset = reset_circuit_breaker\<rparr>"

definition circuit_blocked :: "seconds \<Rightarrow> breaker \<Rightarrow> bool" where
  "circuit_blocked now b \<longleftrightarrow> cb_open b \<and> now < cb_open_until b"

interpretation mixin_protocol: breaker_protocol mixin_breaker breaker_inv circuit_blocked
proof unfold_locales
  fix now oper cid fresh and b :: breaker
  assume "circuit_blocked now b"
  then show "\<exists>e. if_check mixin_breaker oper cid fresh now b = Err e \<and> is_circuit_error e"
    by (simp add: mixin_breaker_def check_circuit_breaker_def circuit_blocked_def is_circuit_error_def)
next
  fix b :: breaker and now oper cid fresh later
  assume inv: "breaker_inv b" and free: "\<not> circuit_blocked now b"
  then have "\<exists>b'. check_circuit_breaker oper cid fresh now b = Ok b' \<and> \<not> cb_open b'"
    by (auto simp: check_circuit_breaker_def circuit_blocked_def fire_transition_event_def Let_def)
  then show "\<exists>b'. if_check mixin_breaker oper cid fresh now b = Ok b' \<and> breaker_inv b' \<and>
      \<not> circuit_blocked later b'"
    using breaker_inv_check [OF _ inv] by (auto simp: mixin_breaker_def circuit_blocked_def)
next
  fix b :: breaker and now t
  assume "breaker_inv b" "circuit_blocked now b"
  then show "circuit_blocked now (if_fail mixin_breaker t b)"
    by (auto simp: mixin_breaker_def circuit_blocked_def record_circuit_failure_def breaker_inv_defs
        Let_def)
next
  fix b :: breaker and now
  assume "breaker_inv b"
  then have "circuit_of (if_reset mixin_breaker b) = spec_success (cb_half_open_successes b) (circuit_of b)"
    by (simp add: mixin_breaker_def circuit_of_success)
  then show "\<not> circuit_blocked now (if_reset mixin_breaker b)"
    by (cases "circuit_of b") (auto simp: circuit_of_def circuit_blocked_def split: if_splits)
qed (simp_all add: mixin_breaker_def preserve)

section \<open>Shared retry helpers\<close>

text \<open>
  The attributes the mixin reads from its host: the transport type, the target name and the flag
  \<open>_circuit_breaker_initialized\<close>. The namespace goes only into messages.
\<close>

record retry_host =
  rh_transport_type :: transport
  rh_target_name :: string
  rh_circuit_breaker_initialized :: bool

definition build_error_context :: "retry_host \<Rightarrow> string \<Rightarrow> uuid \<Rightarrow> error_context" where
  "build_error_context h operation correlation_id =
     \<lparr>ctx_transport = Some (rh_transport_type h), ctx_operation = Some operation,
      ctx_target = Some (rh_target_name h), ctx_correlation = correlation_id\<rparr>"

definition record_circuit_failure_if_enabled ::
  "'s breaker_iface \<Rightarrow> retry_host \<Rightarrow> seconds \<Rightarrow> 's \<Rightarrow> 's" where
  "record_circuit_failure_if_enabled iface h now s =
     (if rh_circuit_breaker_initialized h then if_fail iface now s else s)"

definition reset_circuit_if_enabled :: "'s breaker_iface \<Rightarrow> retry_host \<Rightarrow> 's \<Rightarrow> 's" where
  "reset_circuit_if_enabled iface h s =
     (if rh_circuit_breaker_initialized h then if_reset iface s else s)"

definition check_circuit_if_enabled ::
  "'s breaker_iface \<Rightarrow> retry_host \<Rightarrow> string \<Rightarrow> uuid \<Rightarrow> uuid \<Rightarrow> seconds \<Rightarrow> 's \<Rightarrow> infra_error + 's" where
  "check_circuit_if_enabled iface h operation correlation_id fresh now s =
     (if rh_circuit_breaker_initialized h
      then if_check iface operation (Some correlation_id) fresh now s else Ok s)"

definition create_final_error ::
  "retry_classification \<Rightarrow> error_context \<Rightarrow> seconds \<Rightarrow> infra_error" where
  "create_final_error cl ctx op_timeout_seconds =
     (if cl_category cl = TIMEOUT then InfraTimeoutError ctx (Some op_timeout_seconds)
      else if cl_category cl = AUTHENTICATION then InfraAuthenticationError ctx None
      else InfraConnectionError ctx)"

definition handle_retriable_error ::
  "'s breaker_iface \<Rightarrow> retry_host \<Rightarrow> retry_classification \<Rightarrow> retry_state \<Rightarrow> seconds \<Rightarrow> string \<Rightarrow> uuid
     \<Rightarrow> seconds \<Rightarrow> seconds \<Rightarrow> 's \<Rightarrow> (infra_error + retry_state \<times> infra_error option) \<times> 's" where
  "handle_retriable_error iface h cl rs max_delay_seconds operation correlation_id op_timeout now s =
     (case next_attempt (Some (cl_error_message cl)) None now max_delay_seconds rs of
        Err e \<Rightarrow> (Err e, s)
      | Ok new_state \<Rightarrow>
          if \<not> is_retriable new_state then
            (Ok (new_state, Some (create_final_error cl
                (build_error_context h operation correlation_id) op_timeout)),
             if cl_record_circuit_failure cl then record_circuit_failure_if_enabled iface h now s
             else s)
          else (Ok (new_state, None), s))"

definition handle_non_retriable_error ::
  "'s breaker_iface \<Rightarrow> retry_host \<Rightarrow> retry_classification \<Rightarrow> string \<Rightarrow> uuid \<Rightarrow> seconds \<Rightarrow> 's
     \<Rightarrow> infra_error \<times> 's" where
  "handle_non_retriable_error iface h cl operation correlation_id now s =
     (let s' = (if cl_record_circuit_failure cl
                then record_circuit_failure_if_enabled iface h now s else s);
          ctx = build_error_context h operation correlation_id
      in (if cl_category cl = AUTHENTICATION then InfraAuthenticationError ctx None
          else InfraConnectionError ctx, s'))"

context breaker_protocol
begin

lemma guarded_inv:
  "inv s \<Longrightarrow> inv (record_circuit_failure_if_enabled iface h now s)"
  "inv s \<Longrightarrow> inv (reset_circuit_if_enabled iface h s)"
  by (simp_all add: record_circuit_failure_if_enabled_def reset_circuit_if_enabled_def fail_inv reset_inv)

lemma guarded_check:
  assumes "inv s"
  obtains
    (admitted) s' where "check_circuit_if_enabled iface h oper cid fresh now s = Ok s'" "inv s'"
  | (refused) e where "check_circuit_if_enabled iface h oper cid fresh now s = Err e"
      "is_circuit_error e" "blocked now s" "rh_circuit_breaker_initialized h"
proof (cases "rh_circuit_breaker_initialized h \<and> blocked now s")
  case True
  then show ?thesis
    using check_blocked [of now s oper "Some cid" fresh] refused
    by (auto simp: check_circuit_if_enabled_def)
next
  case False
  then show ?thesis
    using check_admitted [OF assms, of now oper "Some cid" fresh] admitted assms
    by (cases "rh_circuit_breaker_initialized h") (auto simp: check_circuit_if_enabled_def)
qed

lemma handle_retriable_inv:
  "inv s \<Longrightarrow> inv (snd (handle_retriable_error iface h cl rs d oper cid tmo now s))"
  by (auto simp: handle_retriable_error_def guarded_inv split: sum.splits)

end

section \<open>Properties\<close>

text \<open>The states a retry loop goes through: \<open>n\<close> failures, each scheduling the next attempt.\<close>

fun attempts_after :: "seconds \<Rightarrow> nat \<Rightarrow> retry_state \<Rightarrow> infra_error + retry_state" where
  "attempts_after max_delay 0 s = Ok s"
| "attempts_after max_delay (Suc n) s =
     (case next_attempt None None 0 max_delay s of
        Err e \<Rightarrow> Err e | Ok s' \<Rightarrow> attempts_after max_delay n s')"

lemma delay_step:
  assumes "(0::real) \<le> d" "1 \<le> m" "0 \<le> cap"
  shows "min (min (d * m) cap * m ^ n) cap = min (d * m ^ Suc n) cap"
proof (cases "d * m \<le> cap")
  case True
  then show ?thesis by (simp add: min_def mult.assoc)
next
  case False
  have "1 \<le> m ^ n" using assms(2) by simp
  then have "cap \<le> cap * m ^ n" using assms(3) by (simp add: mult_le_cancel_left1)
  moreover have "cap * m ^ n \<le> d * m * m ^ n"
    using False \<open>1 \<le> m ^ n\<close> by (intro mult_right_mono) auto
  ultimately have "cap \<le> d * (m * m ^ n)" by (simp add: mult.assoc)
  with \<open>cap \<le> cap * m ^ n\<close> False show ?thesis by (simp add: min_def)
qed

text \<open>
  backoff is exponential and capped, and the retry budget is exact: after n failures the
  attempt counter is n higher, the delay is the initial delay times the n-th power of the
  multiplier up to the cap, the state is still valid (no construction ever fails), and another
  attempt is allowed exactly while fewer than the maximum have been made.
\<close>
lemma backoff_schedule:
  assumes "retry_state_ok s" "0 \<le> max_delay" "rs_delay_seconds s \<le> max_delay"
  shows "\<exists>s'. attempts_after max_delay n s = Ok s' \<and> retry_state_ok s' \<and>
     rs_attempt s' = rs_attempt s + int n \<and>
     rs_delay_seconds s' = min (rs_delay_seconds s * rs_backoff_multiplier s ^ n) max_delay \<and>
     (is_retriable s' \<longleftrightarrow> rs_attempt s + int n < rs_max_attempts s)"
  using assms
proof (induction n arbitrary: s)
  case 0
  then show ?case by (simp add: is_retriable_def)
next
  case (Suc n)
  obtain s1 where s1: "next_attempt None None 0 max_delay s = Ok s1" "retry_state_ok s1"
    using next_attempt_ok [OF Suc.prems(1,2)] by blast
  note f = next_attempt_fields [OF s1(1)]
  then have "rs_delay_seconds s1 \<le> max_delay" by simp
  from Suc.IH [OF s1(2) Suc.prems(2) this] obtain s' where s':
    "attempts_after max_delay n s1 = Ok s'" "retry_state_ok s'"
    "rs_attempt s' = rs_attempt s1 + int n"
    "rs_delay_seconds s' = min (rs_delay_seconds s1 * rs_backoff_multiplier s1 ^ n) max_delay"
    "is_retriable s' \<longleftrightarrow> rs_attempt s1 + int n < rs_max_attempts s1" by blast
  moreover have "min (rs_delay_seconds s1 * rs_backoff_multiplier s1 ^ n) max_delay =
      min (rs_delay_seconds s * rs_backoff_multiplier s ^ Suc n) max_delay"
    using f delay_step [of "rs_delay_seconds s" "rs_backoff_multiplier s" max_delay n] Suc.prems
    by (simp add: retry_state_ok_def)
  ultimately show ?case using s1(1) f by (simp add: algebra_simps)
qed

text \<open>
  the shared error handler spends exactly the retry budget before it gives up: it asks for
  another attempt, without touching the circuit, while attempts remain; on the last one it records
  one circuit failure when the classification says so and hands back an error of the class its
  category prescribes. It keeps the breaker's invariant in every case.
\<close>
lemma retriable_error_budget:
  assumes "retry_state_ok rs" "0 \<le> max_delay" "breaker_inv b"
  shows "case handle_retriable_error mixin_breaker h cl rs max_delay oper cid tmo now b of
      (Inl e, b') \<Rightarrow> False
    | (Inr (rs', None), b') \<Rightarrow> rs_attempt rs + 1 < rs_max_attempts rs \<and> b' = b \<and> retry_state_ok rs'
    | (Inr (rs', Some err), b') \<Rightarrow>
        rs_max_attempts rs \<le> rs_attempt rs + 1 \<and> breaker_inv b' \<and>
        b' = (if cl_record_circuit_failure cl \<and> rh_circuit_breaker_initialized h
              then record_circuit_failure now b else b) \<and>
        err = create_final_error cl (build_error_context h oper cid) tmo"
proof -
  obtain rs' where n: "next_attempt (Some (cl_error_message cl)) None now max_delay rs = Ok rs'"
    "retry_state_ok rs'"
    using next_attempt_ok [OF assms(1,2)] by blast
  then show ?thesis
    using next_attempt_fields [OF n(1)] assms(3)
    by (auto simp: handle_retriable_error_def is_retriable_def record_circuit_failure_if_enabled_def
        mixin_breaker_def breaker_inv_record)
qed

end
