(* ===== verification/EndpointAllowlist.thy ===== *)
theory EndpointAllowlist imports EnvParsing RetryExecution begin

unbundle bit_operations_syntax

text \<open>
  The egress trust boundary of \<^verbatim>\<open>mixins/mixin_llm_http_transport.py\<close>: the two allowlists read
  from the environment and cached on the class, and \<^verbatim>\<open>_validate_endpoint_allowlist\<close>. IPv4
  addresses are 32-bit words; their text form and the CIDR notation follow Python's
  \<^verbatim>\<open>ipaddress\<close> module. A URL is given by its text, scheme and host. Name resolution and the
  recognition of IPv6 literals are arguments.
\<close>

section \<open>IPv4 addresses and networks\<close>

type_synonym ipv4 = "32 word"

definition parse_octet :: "string \<Rightarrow> nat option" where
  "parse_octet s =
     (if s \<noteq> [] \<and> list_all is_dec_digit s \<and> length s \<le> 3 \<and>
         (s = ''0'' \<or> hd s \<noteq> CHR ''0'') \<and> dec_value s \<le> 255
      then Some (dec_value s) else None)"

definition parse_ipv4 :: "string \<Rightarrow> ipv4 option" where
  "parse_ipv4 s =
     (case map parse_octet (py_split CHR ''.'' s) of
        [Some a, Some b, Some c, Some d] \<Rightarrow> Some (of_nat (((a * 256 + b) * 256 + c) * 256 + d))
      | _ \<Rightarrow> None)"

definition ipv4_str :: "ipv4 \<Rightarrow> string" where
  "ipv4_str w =
     (let n = unat w in
      dec_digits (n div 16777216) @ ''.'' @ dec_digits (n div 65536 mod 256) @ ''.'' @
      dec_digits (n div 256 mod 256) @ ''.'' @ dec_digits (n mod 256))"

definition ipv4_netmask :: "nat \<Rightarrow> ipv4" where
  "ipv4_netmask p = push_bit (32 - p) (mask p)"

record cidr =
  cidr_network :: ipv4
  cidr_prefix :: nat

text \<open>A prefix is a decimal length, or a dotted netmask, or else a dotted host mask.\<close>

definition prefix_of_mask :: "ipv4 \<Rightarrow> nat option" where
  "prefix_of_mask w = find (\<lambda>p. ipv4_netmask p = w) [0..<33]"

definition parse_prefix :: "string \<Rightarrow> nat option" where
  "parse_prefix s =
     (if s \<noteq> [] \<and> list_all is_dec_digit s \<and> dec_value s \<le> 32 then Some (dec_value s)
      else case parse_ipv4 s of
             None \<Rightarrow> None
           | Some w \<Rightarrow> (case prefix_of_mask w of Some p \<Rightarrow> Some p | None \<Rightarrow> prefix_of_mask (NOT w)))"

definition mk_cidr :: "ipv4 \<Rightarrow> nat \<Rightarrow> cidr" where
  "mk_cidr w p = \<lparr>cidr_network = w AND ipv4_netmask p, cidr_prefix = p\<rparr>"

definition parse_cidr :: "string \<Rightarrow> cidr option" where
  "parse_cidr s =
     (case py_split CHR ''/'' s of
        [a] \<Rightarrow> map_option (\<lambda>w. mk_cidr w 32) (parse_ipv4 a)
      | [a, m] \<Rightarrow>
          (case parse_ipv4 a of
             None \<Rightarrow> None
           | Some w \<Rightarrow> map_option (mk_cidr w) (parse_prefix m))
      | _ \<Rightarrow> None)"

definition in_cidr :: "ipv4 \<Rightarrow> cidr \<Rightarrow> bool" where
  "in_cidr ip c \<longleftrightarrow> ip AND ipv4_netmask (cidr_prefix c) = cidr_network c"

section \<open>The allowlists\<close>

definition parse_cidr_allowlist :: "environ \<Rightarrow> infra_error + cidr list" where
  "parse_cidr_allowlist env =
     (case env ''LLM_ENDPOINT_CIDR_ALLOWLIST'' of
        None \<Rightarrow> Err PyRuntimeError
      | Some raw \<Rightarrow>
          let parsed = List.map_filter parse_cidr
                (filter (\<lambda>cidr. cidr \<noteq> []) (map py_strip (py_split CHR '','' raw)))
          in if parsed = [] then Err PyRuntimeError else Ok parsed)"

definition cloud_host_allowed_chars :: string where
  "cloud_host_allowed_chars = ''abcdefghijklmnopqrstuvwxyz0123456789.-''"

definition rstrip_dots :: "string \<Rightarrow> string" where
  "rstrip_dots s = rev (dropWhile (\<lambda>c. c = CHR ''.'') (rev s))"

definition normalize_host :: "string \<Rightarrow> string" where
  "normalize_host s = rstrip_dots (map ascii_lower s)"

text \<open>
  The separate tests for \<open>://\<close>, \<open>/\<close> and \<open>:\<close> are covered by the character test, a trailing dot has
  been stripped, and an IPv6 literal has a colon.
\<close>

definition cloud_host_entry :: "string \<Rightarrow> string option" where
  "cloud_host_entry entry =
     (let hostname = normalize_host (py_strip entry) in
      if hostname = [] then None
      else if \<not> list_all (\<lambda>c. c \<in> set cloud_host_allowed_chars) hostname \<or>
              hd hostname = CHR ''.'' \<or> parse_ipv4 hostname \<noteq> None
      then None else Some hostname)"

definition parse_cloud_endpoint_host_allowlist :: "environ \<Rightarrow> string list" where
  "parse_cloud_endpoint_host_allowlist env =
     (let raw = (case env ''LLM_CLOUD_ENDPOINT_HOST_ALLOWLIST'' of None \<Rightarrow> [] | Some r \<Rightarrow> r) in
      remdups (List.map_filter cloud_host_entry (py_split CHR '','' raw)))"

text \<open>The two class variables, parsed on first access.\<close>

record allowlist_cache =
  ac_cidrs :: "cidr list option"
  ac_hosts :: "string list option"

definition get_cidr_allowlist ::
  "environ \<Rightarrow> allowlist_cache \<Rightarrow> (infra_error + cidr list) \<times> allowlist_cache" where
  "get_cidr_allowlist env c =
     (case ac_cidrs c of
        Some cidrs \<Rightarrow> (Ok cidrs, c)
      | None \<Rightarrow>
          (case parse_cidr_allowlist env of
             Err e \<Rightarrow> (Err e, c)
           | Ok cidrs \<Rightarrow> (Ok cidrs, c\<lparr>ac_cidrs := Some cidrs\<rparr>)))"

definition get_cloud_endpoint_host_allowlist ::
  "environ \<Rightarrow> allowlist_cache \<Rightarrow> string list \<times> allowlist_cache" where
  "get_cloud_endpoint_host_allowlist env c =
     (case ac_hosts c of
        Some hosts \<Rightarrow> (hosts, c)
      | None \<Rightarrow>
          let hosts = parse_cloud_endpoint_host_allowlist env
          in (hosts, c\<lparr>ac_hosts := Some hosts\<rparr>))"

definition reload_cidr_allowlist ::
  "environ \<Rightarrow> allowlist_cache \<Rightarrow> (infra_error + unit) \<times> allowlist_cache" where
  "reload_cidr_allowlist env c =
     (case parse_cidr_allowlist env of
        Err e \<Rightarrow> (Err e, c)
      | Ok cidrs \<Rightarrow> (Ok (), c\<lparr>ac_cidrs := Some cidrs\<rparr>))"

section \<open>The endpoint check\<close>

record parsed_url =
  url_text :: string
  url_scheme :: string
  url_hostname :: "string option"

text \<open>\<open>None\<close> is a failed lookup; otherwise the IPv4 addresses in the order of the answer.\<close>

type_synonym dns = "string \<Rightarrow> ipv4 list option"

datatype ip_literal = V4 ipv4 | V6

definition resolve_host :: "(string \<Rightarrow> bool) \<Rightarrow> dns \<Rightarrow> string \<Rightarrow> ip_literal option" where
  "resolve_host is_ipv6 getaddrinfo hostname =
     (case parse_ipv4 hostname of
        Some ip \<Rightarrow> Some (V4 ip)
      | None \<Rightarrow>
          if is_ipv6 hostname then Some V6
          else case getaddrinfo hostname of
                 None \<Rightarrow> None
               | Some [] \<Rightarrow> None
               | Some (ip # _) \<Rightarrow> Some (V4 ip))"

definition validate_endpoint_allowlist ::
  "environ \<Rightarrow> (string \<Rightarrow> bool) \<Rightarrow> dns \<Rightarrow> retry_host \<Rightarrow> parsed_url \<Rightarrow> uuid \<Rightarrow> allowlist_cache
     \<Rightarrow> (infra_error + unit) \<times> allowlist_cache" where
  "validate_endpoint_allowlist env is_ipv6 getaddrinfo h url correlation_id c =
     (let rejected = Err (InfraAuthenticationError
            (build_error_context h (''allowlist_check:'' @ url_text url) correlation_id) None) in
      case url_hostname url of
        None \<Rightarrow> (rejected, c)
      | Some hostname \<Rightarrow>
          let hostname_normalized = normalize_host hostname;
              (cloud_hosts, c1) = get_cloud_endpoint_host_allowlist env c
          in
          if url_scheme url = ''https'' \<and> hostname_normalized \<in> set cloud_hosts then (Ok (), c1)
          else
            (case resolve_host is_ipv6 getaddrinfo hostname of
               None \<Rightarrow> (rejected, c1)
             | Some V6 \<Rightarrow> (rejected, c1)
             | Some (V4 resolved_ip) \<Rightarrow>
                 (case get_cidr_allowlist env c1 of
                    (Err e, c2) \<Rightarrow> (Err e, c2)
                  | (Ok cidrs, c2) \<Rightarrow>
                      if \<not> list_ex (in_cidr resolved_ip) cidrs then (rejected, c2)
                      else (Ok (), c2))))"

section \<open>Text forms\<close>

lemma parse_octet_dec_digits: "n \<le> 255 \<Longrightarrow> parse_octet (dec_digits n) = Some n"
proof -
  assume n: "n \<le> 255"
  then have "length (dec_digits n) \<le> 3" by (intro length_dec_digits) simp_all
  moreover have "dec_digits n = ''0'' \<or> hd (dec_digits n) \<noteq> CHR ''0''"
    by (cases "n = 0") (simp_all add: hd_dec_digits_zero dec_digits_eval dec_digit_eval)
  ultimately show ?thesis
    using n by (auto simp: parse_octet_def list_all_iff dec_digits_digits)
qed

lemma dot_not_digit: "\<not> is_dec_digit CHR ''.''" "\<not> is_dec_digit CHR ''/''" "\<not> is_dec_digit CHR '',''"
  by (simp_all add: is_dec_digit_def)

lemma bytes_of_nat:
  fixes n :: nat
  shows "((n div 16777216 * 256 + n div 65536 mod 256) * 256 + n div 256 mod 256) * 256 + n mod 256 = n"
proof -
  have "n = n div 256 * 256 + n mod 256" by simp
  moreover have "n div 256 = n div 256 div 256 * 256 + n div 256 mod 256" by simp
  moreover have "n div 256 div 256 = n div 256 div 256 div 256 * 256 + n div 256 div 256 mod 256" by simp
  ultimately show ?thesis by (simp add: div_mult2_eq [symmetric])
qed

lemma parse_ipv4_str [simp]: "parse_ipv4 (ipv4_str w) = Some w"
proof -
  have "unat w < 2 ^ 32" using unsigned_less [of w] by simp
  then have "unat w div 16777216 \<le> 255" by (simp add: less_mult_imp_div_less less_Suc_eq_le [symmetric])
  moreover have "n mod 256 \<le> 255" for n :: nat by (simp add: less_Suc_eq_le [symmetric])
  ultimately have fields: "map parse_octet (py_split CHR ''.'' (ipv4_str w)) =
      [Some (unat w div 16777216), Some (unat w div 65536 mod 256),
       Some (unat w div 256 mod 256), Some (unat w mod 256)]"
    by (simp add: ipv4_str_def Let_def py_split_append py_split_plain dot_not_digit
        parse_octet_dec_digits)
  show ?thesis
    unfolding parse_ipv4_def fields by (simp only: list.case option.case bytes_of_nat) simp
qed

lemma ipv4_str_chars: "c \<in> set (ipv4_str w) \<Longrightarrow> is_dec_digit c \<or> c = CHR ''.''"
  by (auto simp: ipv4_str_def Let_def dest: dec_digits_digits)

lemma parse_cidr_str:
  assumes "p \<le> 32"
  shows "parse_cidr (ipv4_str w @ ''/'' @ dec_digits p) = Some (mk_cidr w p)"
proof -
  have "CHR ''/'' \<notin> set (ipv4_str w)" using ipv4_str_chars [of "CHR ''/''" w] dot_not_digit by auto
  moreover have "parse_prefix (dec_digits p) = Some p"
    using assms by (auto simp: parse_prefix_def list_all_iff dec_digits_digits)
  ultimately show ?thesis
    by (simp add: parse_cidr_def py_split_append py_split_plain dot_not_digit)
qed

text \<open>Membership compares the leading bits.\<close>

lemma in_cidr_leading_bits:
  assumes "p \<le> 32"
  shows "in_cidr ip (mk_cidr net p) \<longleftrightarrow> drop_bit (32 - p) ip = drop_bit (32 - p) net"
proof -
  have "in_cidr ip (mk_cidr net p) \<longleftrightarrow>
      (\<forall>n < 32. bit (ip AND ipv4_netmask p) n = bit (net AND ipv4_netmask p) n)"
    by (auto simp: in_cidr_def mk_cidr_def intro: bit_word_eqI)
  also have "\<dots> \<longleftrightarrow> (\<forall>n < 32. 32 - p \<le> n \<longrightarrow> bit ip n = bit net n)"
    using assms by (auto simp: ipv4_netmask_def bit_simps)
  also have "\<dots> \<longleftrightarrow> drop_bit (32 - p) ip = drop_bit (32 - p) net"
  proof
    assume bits: "\<forall>n < 32. 32 - p \<le> n \<longrightarrow> bit ip n = bit net n"
    show "drop_bit (32 - p) ip = drop_bit (32 - p) net"
    proof (rule bit_word_eqI)
      fix n
      show "bit (drop_bit (32 - p) ip) n = bit (drop_bit (32 - p) net) n"
        using bits bit_imp_le_length [of ip "32 - p + n"] bit_imp_le_length [of net "32 - p + n"]
        by (auto simp: bit_simps)
    qed
  next
    assume eq: "drop_bit (32 - p) ip = drop_bit (32 - p) net"
    show "\<forall>n < 32. 32 - p \<le> n \<longrightarrow> bit ip n = bit net n"
    proof (intro allI impI)
      fix n assume "32 - p \<le> n"
      then show "bit ip n = bit net n"
        using arg_cong [OF eq, of "\<lambda>x. bit x (n - (32 - p))"] by (simp add: bit_simps)
    qed
  qed
  finally show ?thesis .
qed

section \<open>Properties\<close>

definition cidr_text :: "ipv4 \<times> nat \<Rightarrow> string" where
  "cidr_text n = ipv4_str (fst n) @ ''/'' @ dec_digits (snd n)"

lemma cidr_text_chars: "c \<in> set (cidr_text n) \<Longrightarrow> is_dec_digit c \<or> c = CHR ''.'' \<or> c = CHR ''/''"
  by (auto simp: cidr_text_def dest: ipv4_str_chars dec_digits_digits)

lemma py_strip_id: "s \<noteq> [] \<Longrightarrow> \<forall>c \<in> set s. \<not> is_py_space c \<Longrightarrow> py_strip s = s"
  using py_strip_padded [of "[]" "[]" s] by simp

lemma cidr_text_strip: "py_strip (cidr_text n) = cidr_text n"
proof (rule py_strip_id)
  show "\<forall>c \<in> set (cidr_text n). \<not> is_py_space c"
  proof
    fix c assume "c \<in> set (cidr_text n)"
    then show "\<not> is_py_space c"
      using cidr_text_chars [of c n] by (auto simp: digit_not_space) (simp_all add: is_py_space_def)
  qed
qed (simp add: cidr_text_def)

lemma parse_cidr_allowlist_text:
  assumes "nets \<noteq> []" "\<forall>n \<in> set nets. snd n \<le> 32"
    and "env ''LLM_ENDPOINT_CIDR_ALLOWLIST'' = Some (join_with CHR '','' (map cidr_text nets))"
  shows "parse_cidr_allowlist env = Ok (map (\<lambda>n. mk_cidr (fst n) (snd n)) nets)"
proof -
  have "CHR '','' \<notin> set (cidr_text n)" for n
    using cidr_text_chars [of "CHR '',''" n] dot_not_digit by auto
  then have "py_split CHR '','' (join_with CHR '','' (map cidr_text nets)) = map cidr_text nets"
    using assms(1) by (intro py_split_join) auto
  moreover have "cidr_text n \<noteq> []" for n by (simp add: cidr_text_def)
  then have "filter (\<lambda>cidr. cidr \<noteq> []) (map py_strip (map cidr_text nets)) = map cidr_text nets"
    by (simp add: cidr_text_strip filter_empty_conv comp_def)
  moreover have "List.map_filter parse_cidr (map cidr_text nets) =
      map (\<lambda>n. mk_cidr (fst n) (snd n)) nets"
    using assms(2) by (induction nets) (auto simp: cidr_text_def parse_cidr_str [simplified])
  ultimately show ?thesis using assms(1,3) by (simp add: parse_cidr_allowlist_def)
qed

lemma cloud_hosts_not_ipv4:
  "h \<in> set (parse_cloud_endpoint_host_allowlist env) \<Longrightarrow> parse_ipv4 h = None"
  by (auto simp: parse_cloud_endpoint_host_allowlist_def List.map_filter_def cloud_host_entry_def
      Let_def split: if_splits)

lemma ascii_lower_plain: "is_dec_digit c \<or> c = CHR ''.'' \<Longrightarrow> ascii_lower c = c"
  by (auto simp: ascii_lower_def is_dec_digit_def Let_def)

lemma rstrip_dots_id: "s \<noteq> [] \<Longrightarrow> last s \<noteq> CHR ''.'' \<Longrightarrow> rstrip_dots s = s"
  by (cases s rule: rev_cases) (simp_all add: rstrip_dots_def)

lemma normalize_host_ipv4 [simp]: "normalize_host (ipv4_str ip) = ipv4_str ip"
proof -
  have "map ascii_lower (ipv4_str ip) = ipv4_str ip"
    by (rule map_idI) (rule ascii_lower_plain [OF ipv4_str_chars])
  moreover have "last (dec_digits n) \<noteq> CHR ''.''" for n
    using dec_digits_digits [of "last (dec_digits n)" n] dot_not_digit by auto
  then have "rstrip_dots (ipv4_str ip) = ipv4_str ip"
    by (intro rstrip_dots_id) (simp_all add: ipv4_str_def Let_def)
  ultimately show ?thesis by (simp add: normalize_host_def)
qed

lemma literal_endpoint_check:
  assumes "nets \<noteq> []" "\<And>n. n \<in> set nets \<Longrightarrow> snd n \<le> 32"
    and "env ''LLM_ENDPOINT_CIDR_ALLOWLIST'' = Some (join_with CHR '','' (map cidr_text nets))"
    and "url_hostname url = Some (ipv4_str ip)"
  shows "fst (validate_endpoint_allowlist env is_ipv6 dns h url cid
        \<lparr>ac_cidrs = None, ac_hosts = None\<rparr>) =
    (if list_ex (\<lambda>(net, p). drop_bit (32 - p) ip = drop_bit (32 - p) net) nets then Ok ()
     else Err (InfraAuthenticationError
       (build_error_context h (''allowlist_check:'' @ url_text url) cid) None))"
proof -
  have "list_ex (in_cidr ip) (map (\<lambda>n. mk_cidr (fst n) (snd n)) nets) =
      list_ex (\<lambda>(net, p). drop_bit (32 - p) ip = drop_bit (32 - p) net) nets"
    using assms(2) by (auto simp: list_ex_iff in_cidr_leading_bits split_beta)
  moreover have "parse_cidr_allowlist env = Ok (map (\<lambda>n. mk_cidr (fst n) (snd n)) nets)"
    using parse_cidr_allowlist_text [of nets env] assms(1-3) by simp
  moreover have "ipv4_str ip \<notin> set (parse_cloud_endpoint_host_allowlist env)"
    using cloud_hosts_not_ipv4 [of "ipv4_str ip" env] by auto
  ultimately show ?thesis
    using assms(4)
    by (simp add: validate_endpoint_allowlist_def get_cloud_endpoint_host_allowlist_def
        get_cidr_allowlist_def resolve_host_def Let_def)
qed

text \<open>
  an endpoint named by an IPv4 literal is admitted exactly when its leading bits agree with one
  of the networks of the CIDR allowlist, and is otherwise refused with an authentication error: no
  scheme, no port and no entry of the cloud-host allowlist lets a literal around that check.
\<close>
lemma literal_endpoints_need_cidr:
  assumes "nets \<noteq> []" "\<And>n. n \<in> set nets \<Longrightarrow> snd n \<le> 32"
    and "env ''LLM_ENDPOINT_CIDR_ALLOWLIST'' = Some (join_with CHR '','' (map cidr_text nets))"
    and "url_hostname url = Some (ipv4_str ip)"
  shows "fst (validate_endpoint_allowlist env is_ipv6 dns h url cid
        \<lparr>ac_cidrs = None, ac_hosts = None\<rparr>) =
    (if list_ex (\<lambda>(net, p). drop_bit (32 - p) ip = drop_bit (32 - p) net) nets then Ok ()
     else Err (InfraAuthenticationError
       (build_error_context h (''allowlist_check:'' @ url_text url) cid) None))"
  using assms by (rule literal_endpoint_check)

end
