(* ===== verification/LlmTransport.thy ===== *)
theory LlmTransport imports EndpointAllowlist begin

text \<open>
  Resilient calls to an LLM endpoint: \<^verbatim>\<open>mixins/mixin_llm_http_transport.py\<close>. One iteration of the
  retry loop is \<open>llm_attempt\<close>, the loop is \<open>llm_loop\<close>, the whole call with its pre-flight checks is
  \<open>execute_llm_http_call\<close>. The world is a function from the attempt number to what that attempt
  meets: the clock, the outcome of the POST, and what other coroutines do to the shared circuit
  breaker while the call waits for the response or sleeps (the lock is held only inside the breaker
  operations). Logging and tracing have no effect here, except that reading the token counts
  for the trace can raise.
\<close>

section \<open>Transport state\<close>

record llm_transport =
  lt_target_name :: string
  lt_cb_initialized :: bool
  lt_max_timeout_seconds :: seconds
  lt_max_retry_after_seconds :: seconds

definition llm_host :: "llm_transport \<Rightarrow> retry_host" where
  "llm_host t =
     \<lparr>rh_transport_type = HTTP, rh_target_name = lt_target_name t,
      rh_circuit_breaker_initialized = lt_cb_initialized t\<rparr>"

definition init_llm_http_transport ::
  "uuid \<Rightarrow> string \<Rightarrow> seconds \<Rightarrow> seconds \<Rightarrow> infra_error + llm_transport \<times> breaker" where
  "init_llm_http_transport fresh target_name max_timeout_seconds max_retry_after_seconds =
     (case init_circuit_breaker fresh 5 60 target_name HTTP 1 False of
        Err e \<Rightarrow> Err e
      | Ok b \<Rightarrow> Ok (
          \<lparr>lt_target_name = target_name, lt_cb_initialized = True,
           lt_max_timeout_seconds = max_timeout_seconds,
           lt_max_retry_after_seconds = max_retry_after_seconds\<rparr>, b))"

section \<open>Responses and errors\<close>

record http_response =
  rsp_url :: string
  rsp_status :: int
  rsp_retry_after :: "string option"
  rsp_content_type :: string
  rsp_json :: "json option"

text \<open>Exceptions the \<open>try\<close> block of the loop can meet.\<close>

datatype http_exn =
    HttpxConnectError | HttpxTimeoutException | TypedError infra_error | OtherException

datatype post_outcome = Responded http_response | Raised http_exn

definition parse_retry_after :: "llm_transport \<Rightarrow> string option \<Rightarrow> seconds" where
  "parse_retry_after t raw =
     (case raw of
        None \<Rightarrow> 1
      | Some text \<Rightarrow>
          (case py_float text of
             Some (Finite retry_after) \<Rightarrow> max 0 (min retry_after (lt_max_retry_after_seconds t))
           | _ \<Rightarrow> 1))"

definition map_http_status_to_error ::
  "llm_transport \<Rightarrow> http_response \<Rightarrow> uuid \<Rightarrow> infra_error" where
  "map_http_status_to_error t response correlation_id =
     (let ctx = build_error_context (llm_host t) (''llm_http_call:'' @ rsp_url response) correlation_id;
          status = rsp_status response
      in if status \<in> {401, 403} then InfraAuthenticationError ctx (Some status)
         else if status = 429 then
           InfraRateLimitedError ctx (parse_retry_after t (rsp_retry_after response))
         else if status = 404 then ProtocolConfigurationError ctx None (Some status)
         else if status \<in> {400, 422} then InfraRequestRejectedError ctx status
         else InfraUnavailableError ctx None None (Some status))"

definition classify_error :: "(http_exn \<Rightarrow> string) \<Rightarrow> http_exn \<Rightarrow> string \<Rightarrow> retry_classification" where
  "classify_error detail error operation =
     (let mk = (\<lambda>cat retry rec msg.
            \<lparr>cl_category = cat, cl_should_retry = retry, cl_record_circuit_failure = rec,
             cl_error_message = msg @ '' during '' @ operation\<rparr>);
          more = (\<lambda>c. c\<lparr>cl_error_message := cl_error_message c @ '': '' @ detail error\<rparr>)
      in case error of
        HttpxConnectError \<Rightarrow> more (mk CONNECTION True True ''Connection error'')
      | HttpxTimeoutException \<Rightarrow> more (mk TIMEOUT True True ''Timeout'')
      | TypedError (InfraAuthenticationError _ _) \<Rightarrow>
          mk AUTHENTICATION False False ''Authentication failed''
      | TypedError (InfraRateLimitedError _ _) \<Rightarrow> mk UNKNOWN True False ''Rate limited''
      | TypedError (InfraRequestRejectedError _ _) \<Rightarrow>
          more (mk NOT_FOUND False False ''Request rejected'')
      | TypedError (InfraProtocolError _ _) \<Rightarrow> more (mk CONNECTION True True ''Protocol error'')
      | TypedError (ProtocolConfigurationError _ _ _) \<Rightarrow>
          more (mk NOT_FOUND False False ''Configuration error'')
      | TypedError (InfraUnavailableError _ _ _ _) \<Rightarrow>
          more (mk CONNECTION True True ''Service unavailable'')
      | _ \<Rightarrow> more (mk UNKNOWN True True ''Unexpected error''))"

text \<open>
  Reading the token counts: \<open>data.get\<close> needs an object, and \<open>int()\<close> of a non-finite float raises.
\<close>

definition int_raises :: "json option \<Rightarrow> bool" where
  "int_raises v \<longleftrightarrow> v \<in> {Some (JFloat NaN), Some (JFloat PosInf), Some (JFloat NegInf)}"

definition token_counts_raise :: "json \<Rightarrow> bool" where
  "token_counts_raise data =
     (case data of
        JObj kvs \<Rightarrow>
          (case json_get data ''usage'' of
             Some (JObj usage) \<Rightarrow>
               int_raises (json_get (JObj usage) ''prompt_tokens'') \<or>
               int_raises (json_get (JObj usage) ''completion_tokens'')
           | _ \<Rightarrow> False)
      | _ \<Rightarrow> True)"

section \<open>One attempt\<close>

record 's attempt_env =
  at_fresh :: uuid
  at_check_time :: seconds
  at_outcome :: post_outcome
  at_fail_time :: seconds
  at_others_post :: "'s \<Rightarrow> 's"
  at_others_sleep :: "'s \<Rightarrow> 's"

datatype verdict = Finished "infra_error + json" | Again retry_state seconds

text \<open>
  The tail every failing branch shares: schedule the next attempt if that is allowed, with the
  backoff delay or the given one, or raise the error.
\<close>

definition retry_or_raise ::
  "bool \<Rightarrow> string \<Rightarrow> seconds option \<Rightarrow> infra_error \<Rightarrow> seconds \<Rightarrow> retry_state \<Rightarrow> verdict" where
  "retry_or_raise should_retry msg delay error now rs =
     (case next_attempt (Some msg) None now default_max_delay rs of
        Err e \<Rightarrow> Finished (Err e)
      | Ok next_state \<Rightarrow>
          if should_retry \<and> is_retriable next_state
          then Again next_state (case delay of None \<Rightarrow> rs_delay_seconds next_state | Some d \<Rightarrow> d)
          else Finished (Err error))"

definition record_if :: "bool \<Rightarrow> 's breaker_iface \<Rightarrow> retry_host \<Rightarrow> seconds \<Rightarrow> 's \<Rightarrow> 's" where
  "record_if flag iface h now s = (if flag then record_circuit_failure_if_enabled iface h now s else s)"

text \<open>The \<open>except\<close> clauses.\<close>

definition handle_exception ::
  "'s breaker_iface \<Rightarrow> llm_transport \<Rightarrow> (http_exn \<Rightarrow> string) \<Rightarrow> seconds \<Rightarrow> string \<Rightarrow> uuid \<Rightarrow> 's attempt_env
     \<Rightarrow> retry_state \<Rightarrow> http_exn \<Rightarrow> 's \<Rightarrow> verdict \<times> 's" where
  "handle_exception iface t detail effective_timeout operation cid env rs exn s =
     (let h = llm_host t; now = at_fail_time env;
          ctx = build_error_context h operation cid;
          cl = classify_error detail exn operation;
          s' = record_if (cl_record_circuit_failure cl) iface h now s
      in case exn of
        HttpxConnectError \<Rightarrow>
          (retry_or_raise True (cl_error_message cl) None (InfraConnectionError ctx) now rs, s')
      | HttpxTimeoutException \<Rightarrow>
          (retry_or_raise True (cl_error_message cl) None
             (InfraTimeoutError ctx (Some effective_timeout)) now rs, s')
      | TypedError (InfraRateLimitedError c d) \<Rightarrow> (Finished (Err (InfraRateLimitedError c d)), s)
      | TypedError (InfraRequestRejectedError c d) \<Rightarrow> (Finished (Err (InfraRequestRejectedError c d)), s)
      | TypedError (InfraAuthenticationError c d) \<Rightarrow> (Finished (Err (InfraAuthenticationError c d)), s)
      | TypedError (ProtocolConfigurationError c p d) \<Rightarrow>
          (Finished (Err (ProtocolConfigurationError c p d)), s)
      | TypedError (InfraProtocolError c d) \<Rightarrow> (Finished (Err (InfraProtocolError c d)), s)
      | TypedError (InfraUnavailableError c a r d) \<Rightarrow>
          (Finished (Err (InfraUnavailableError c a r d)), s)
      | _ \<Rightarrow>
          (retry_or_raise (cl_should_retry cl) (cl_error_message cl) None
             (InfraConnectionError ctx) now rs, s'))"

definition handle_response ::
  "'s breaker_iface \<Rightarrow> llm_transport \<Rightarrow> (http_exn \<Rightarrow> string) \<Rightarrow> seconds \<Rightarrow> string \<Rightarrow> uuid \<Rightarrow> 's attempt_env
     \<Rightarrow> retry_state \<Rightarrow> http_response \<Rightarrow> 's \<Rightarrow> verdict \<times> 's" where
  "handle_response iface t detail effective_timeout operation cid env rs response s =
     (let h = llm_host t; now = at_fail_time env; status = rsp_status response;
          protocol_error = Err (InfraProtocolError (build_error_context h operation cid) status)
      in
      if status < 200 \<or> status \<ge> 300 then
        let error = map_http_status_to_error t response cid in
        if status = 429 then
          (retry_or_raise True ''Rate limited (429)''
             (Some (parse_retry_after t (rsp_retry_after response))) error now rs, s)
        else
          let cl = classify_error detail (TypedError error) operation in
          (retry_or_raise (cl_should_retry cl) (cl_error_message cl) None error now rs,
           record_if (cl_record_circuit_failure cl) iface h now s)
      else if rsp_content_type response \<noteq> [] \<and>
              \<not> contains_text ''json'' (map ascii_lower (rsp_content_type response)) then
        (Finished protocol_error, record_circuit_failure_if_enabled iface h now s)
      else
        (case rsp_json response of
           None \<Rightarrow> (Finished protocol_error, record_circuit_failure_if_enabled iface h now s)
         | Some data \<Rightarrow>
             let s' = reset_circuit_if_enabled iface h s in
             if token_counts_raise data
             then handle_exception iface t detail effective_timeout operation cid env rs OtherException s'
             else (Finished (Ok data), s')))"

text \<open>The result: the verdict, the breaker, and the number of POSTs sent.\<close>

definition llm_attempt ::
  "'s breaker_iface \<Rightarrow> llm_transport \<Rightarrow> (http_exn \<Rightarrow> string) \<Rightarrow> seconds \<Rightarrow> string \<Rightarrow> uuid \<Rightarrow> 's attempt_env
     \<Rightarrow> retry_state \<Rightarrow> 's \<Rightarrow> verdict \<times> 's \<times> nat" where
  "llm_attempt iface t detail effective_timeout operation cid env rs s =
     (case check_circuit_if_enabled iface (llm_host t) operation cid (at_fresh env) (at_check_time env) s of
        Err e \<Rightarrow>
          let (v, s') = handle_exception iface t detail effective_timeout operation cid env rs (TypedError e) s
          in (v, s', 0)
      | Ok s1 \<Rightarrow>
          let s2 = at_others_post env s1;
              (v, s') = (case at_outcome env of
                 Raised exn \<Rightarrow>
                   handle_exception iface t detail effective_timeout operation cid env rs exn s2
               | Responded response \<Rightarrow>
                   handle_response iface t detail effective_timeout operation cid env rs response s2)
          in (v, s', 1))"

lemma retry_or_raise_again:
  "retry_or_raise should msg delay error now rs = Again rs' d \<Longrightarrow>
     next_attempt (Some msg) None now default_max_delay rs = Ok rs' \<and> is_retriable rs' \<and>
     d = (case delay of None \<Rightarrow> rs_delay_seconds rs' | Some d' \<Rightarrow> d') \<and> should"
  by (auto simp: retry_or_raise_def split: sum.splits if_splits)

lemma handle_exception_again:
  assumes "handle_exception iface t detail tmo oper cid env rs exn s = (Again rs' d, s')"
  shows "\<exists>msg. next_attempt (Some msg) None (at_fail_time env) default_max_delay rs = Ok rs' \<and>
    is_retriable rs' \<and> d = rs_delay_seconds rs'"
  using assms
  by (auto simp: handle_exception_def Let_def dest!: retry_or_raise_again
      split: http_exn.splits infra_error.splits)

lemma handle_response_again:
  assumes "handle_response iface t detail tmo oper cid env rs rsp s = (Again rs' d, s')"
  shows "\<exists>msg. next_attempt (Some msg) None (at_fail_time env) default_max_delay rs = Ok rs' \<and>
    is_retriable rs' \<and>
    (d = rs_delay_seconds rs' \<or> rsp_status rsp = 429 \<and> d = parse_retry_after t (rsp_retry_after rsp))"
  using assms
  by (auto simp: handle_response_def Let_def dest!: retry_or_raise_again handle_exception_again
      split: if_splits option.splits)

lemma llm_attempt_again:
  assumes "llm_attempt iface t detail tmo oper cid env rs s = (Again rs' d, s', n)"
  shows "\<exists>msg. next_attempt (Some msg) None (at_fail_time env) default_max_delay rs = Ok rs' \<and>
    is_retriable rs' \<and>
    (d = rs_delay_seconds rs' \<or>
     (\<exists>rsp. at_outcome env = Responded rsp \<and> rsp_status rsp = 429 \<and>
        d = parse_retry_after t (rsp_retry_after rsp)))"
  using assms
  by (auto simp: llm_attempt_def split_beta Let_def split: sum.splits post_outcome.splits)
     (metis handle_exception_again handle_response_again prod.collapse)+

section \<open>The retry loop and the call\<close>

record 's llm_run =
  lr_result :: "infra_error + json"
  lr_state :: 's
  lr_sleeps :: "seconds list"
  lr_posts :: nat

function llm_loop ::
  "'s breaker_iface \<Rightarrow> llm_transport \<Rightarrow> (http_exn \<Rightarrow> string) \<Rightarrow> seconds \<Rightarrow> string \<Rightarrow> uuid
     \<Rightarrow> (nat \<Rightarrow> 's attempt_env) \<Rightarrow> retry_state \<Rightarrow> 's \<Rightarrow> 's llm_run" where
  "llm_loop iface t detail effective_timeout operation cid world rs s =
     (if is_retriable rs then
        let env = world (nat (rs_attempt rs)) in
        case llm_attempt iface t detail effective_timeout operation cid env rs s of
          (Finished r, s', n) \<Rightarrow> \<lparr>lr_result = r, lr_state = s', lr_sleeps = [], lr_posts = n\<rparr>
        | (Again rs' d, s', n) \<Rightarrow>
            let run = llm_loop iface t detail effective_timeout operation cid world rs'
                        (at_others_sleep env s')
            in run\<lparr>lr_sleeps := d # lr_sleeps run, lr_posts := n + lr_posts run\<rparr>
      else
        \<lparr>lr_result = Err (InfraUnavailableError (build_error_context (llm_host t) operation cid)
            None None None),
         lr_state = s, lr_sleeps = [], lr_posts = 0\<rparr>)"
  by pat_completeness auto
termination
proof (relation "measure (\<lambda>(iface, t, detail, tmo, oper, cid, world, rs, s).
    nat (rs_max_attempts rs - rs_attempt rs))")
  fix iface :: "'s breaker_iface" and t detail tmo oper cid and world :: "nat \<Rightarrow> 's attempt_env"
    and rs s env v p s' n rs' d
  assume "is_retriable rs"
    and "(v, p) = llm_attempt iface t detail tmo oper cid env rs s" "(s', n) = p" "v = Again rs' d"
  then obtain msg now where "next_attempt (Some msg) None now default_max_delay rs = Ok rs'"
    using llm_attempt_again [of iface t detail tmo oper cid env rs s rs' d s' n] by metis
  from next_attempt_fields [OF this] \<open>is_retriable rs\<close>
  show "((iface, t, detail, tmo, oper, cid, world, rs', at_others_sleep env s'),
         (iface, t, detail, tmo, oper, cid, world, rs, s)) \<in>
      measure (\<lambda>(iface, t, detail, tmo, oper, cid, world, rs, s).
        nat (rs_max_attempts rs - rs_attempt rs))"
    by (simp add: is_retriable_def)
qed simp

declare llm_loop.simps [simp del]

text \<open>
  What the call takes from outside the repository: DNS and IPv6 recognition, HMAC-SHA256, the
  canonical JSON text, and the text of exceptions.
\<close>

record llm_externals =
  ex_is_ipv6 :: "string \<Rightarrow> bool"
  ex_dns :: dns
  ex_hmac_sha256 :: "string \<Rightarrow> string \<Rightarrow> string"
  ex_canonical_json :: "json \<Rightarrow> string"
  ex_detail :: "http_exn \<Rightarrow> string"

definition compute_hmac_signature ::
  "llm_externals \<Rightarrow> environ \<Rightarrow> retry_host \<Rightarrow> json \<Rightarrow> uuid \<Rightarrow> infra_error + string" where
  "compute_hmac_signature ext environ h payload correlation_id =
     (let secret = (case environ ''LOCAL_LLM_SHARED_SECRET'' of None \<Rightarrow> [] | Some v \<Rightarrow> v) in
      if secret = [] then
        Err (ProtocolConfigurationError (build_error_context h ''hmac_signing'' correlation_id) None None)
      else Ok (ex_hmac_sha256 ext secret (ex_canonical_json ext payload)))"

definition execute_llm_http_call ::
  "'s breaker_iface \<Rightarrow> llm_externals \<Rightarrow> environ \<Rightarrow> llm_transport \<Rightarrow> parsed_url \<Rightarrow> json \<Rightarrow> uuid \<Rightarrow> int
     \<Rightarrow> seconds \<Rightarrow> (nat \<Rightarrow> 's attempt_env) \<Rightarrow> allowlist_cache \<Rightarrow> 's \<Rightarrow> 's llm_run \<times> allowlist_cache" where
  "execute_llm_http_call iface ext environ t url payload cid max_retries tmo world cache s =
     (let stop = (\<lambda>e. \<lparr>lr_result = Err e, lr_state = s, lr_sleeps = [], lr_posts = 0\<rparr>) in
      case validate_endpoint_allowlist environ (ex_is_ipv6 ext) (ex_dns ext) (llm_host t) url cid cache of
        (Err e, cache') \<Rightarrow> (stop e, cache')
      | (Ok _, cache') \<Rightarrow>
          (case compute_hmac_signature ext environ (llm_host t) payload cid of
             Err e \<Rightarrow> (stop e, cache')
           | Ok hmac_signature \<Rightarrow>
               let operation = ''llm_http_call:'' @ url_text url;
                   total_attempts = 1 + max_retries;
                   effective_timeout = max (min tmo (lt_max_timeout_seconds t)) (1 / 10)
               in (case default_retry_state total_attempts of
                     Err e \<Rightarrow> (stop e, cache')
                   | Ok rs \<Rightarrow>
                       (llm_loop iface t (ex_detail ext) effective_timeout operation cid world rs s,
                        cache'))))"

section \<open>Facts about the loop\<close>

lemma llm_loop_finished:
  assumes "is_retriable rs"
    and "llm_attempt iface t detail tmo oper cid (world (nat (rs_attempt rs))) rs s = (Finished r, s', n)"
  shows "llm_loop iface t detail tmo oper cid world rs s =
    \<lparr>lr_result = r, lr_state = s', lr_sleeps = [], lr_posts = n\<rparr>"
  using assms by (subst llm_loop.simps) (simp add: Let_def)

lemma llm_loop_again:
  assumes "is_retriable rs"
    and "llm_attempt iface t detail tmo oper cid (world (nat (rs_attempt rs))) rs s = (Again rs' d, s', n)"
  shows "llm_loop iface t detail tmo oper cid world rs s =
    (let run = llm_loop iface t detail tmo oper cid world rs'
                 (at_others_sleep (world (nat (rs_attempt rs))) s')
     in run\<lparr>lr_sleeps := d # lr_sleeps run, lr_posts := n + lr_posts run\<rparr>)"
  using assms by (subst llm_loop.simps) (simp add: Let_def)

lemma llm_attempt_posts:
  "llm_attempt iface t detail tmo oper cid env rs s = (v, s', n) \<Longrightarrow> n \<le> 1"
  by (auto simp: llm_attempt_def split_beta Let_def split: sum.splits)

text \<open>Induction over a run: a property of the attempts that end it and of those that go on.\<close>

lemma llm_loop_induct:
  assumes "retry_state_ok rs" "is_retriable rs"
    and finish: "\<And>rs s r s' n. retry_state_ok rs \<Longrightarrow> is_retriable rs \<Longrightarrow>
      llm_attempt iface t detail tmo oper cid (world (nat (rs_attempt rs))) rs s = (Finished r, s', n) \<Longrightarrow>
      P rs s \<lparr>lr_result = r, lr_state = s', lr_sleeps = [], lr_posts = n\<rparr>"
    and again: "\<And>rs s rs' d s' n run. retry_state_ok rs \<Longrightarrow> is_retriable rs \<Longrightarrow>
      llm_attempt iface t detail tmo oper cid (world (nat (rs_attempt rs))) rs s = (Again rs' d, s', n) \<Longrightarrow>
      is_retriable rs' \<Longrightarrow> retry_state_ok rs' \<Longrightarrow>
      P rs' (at_others_sleep (world (nat (rs_attempt rs))) s') run \<Longrightarrow>
      P rs s (run\<lparr>lr_sleeps := d # lr_sleeps run, lr_posts := n + lr_posts run\<rparr>)"
  shows "P rs s (llm_loop iface t detail tmo oper cid world rs s)"
  using assms(1,2)
proof (induction "nat (rs_max_attempts rs - rs_attempt rs)" arbitrary: rs s rule: less_induct)
  case less
  obtain v s' n where att:
    "llm_attempt iface t detail tmo oper cid (world (nat (rs_attempt rs))) rs s = (v, s', n)"
    by (metis prod_cases3)
  show ?case
  proof (cases v)
    case (Finished r)
    with att less.prems show ?thesis by (simp add: llm_loop_finished finish)
  next
    case (Again rs' d)
    note att' = att [unfolded Again]
    from llm_attempt_again [OF att'] obtain msg now where
      na: "next_attempt (Some msg) None now default_max_delay rs = Ok rs'" "is_retriable rs'" by blast
    note f = next_attempt_fields [OF na(1)]
    have "nat (rs_max_attempts rs' - rs_attempt rs') < nat (rs_max_attempts rs - rs_attempt rs)"
      using f less.prems(2) by (simp add: is_retriable_def)
    from again [OF less.prems att' na(2) _ less.hyps [OF this _ na(2)]] f
    show ?thesis
      using llm_loop_again [OF less.prems(2), of iface t detail tmo oper cid world s] att'
      by (simp add: Let_def)
  qed
qed

context breaker_protocol
begin

lemma record_if_inv: "inv s \<Longrightarrow> inv (record_if flag iface h now s)"
  by (simp add: record_if_def guarded_inv)

lemma handle_exception_inv:
  "inv s \<Longrightarrow> inv (snd (handle_exception iface t detail tmo oper cid env rs exn s))"
  by (auto simp: handle_exception_def Let_def record_if_inv split: http_exn.splits infra_error.splits)

lemma handle_response_inv:
  "inv s \<Longrightarrow> inv (snd (handle_response iface t detail tmo oper cid env rs rsp s))"
  by (auto simp: handle_response_def Let_def record_if_inv guarded_inv handle_exception_inv
      split: option.splits)

lemma llm_attempt_inv:
  assumes "inv s" "\<And>s. inv s \<Longrightarrow> inv (at_others_post env s)"
  shows "inv (fst (snd (llm_attempt iface t detail tmo oper cid env rs s)))"
  using assms(1)
  by (rule guarded_check [of s "llm_host t" oper cid "at_fresh env" "at_check_time env"])
     (auto simp: llm_attempt_def split_beta Let_def assms handle_exception_inv handle_response_inv
       split: post_outcome.splits)

lemma retry_or_raise_not_ok: "retry_or_raise should msg delay error now rs \<noteq> Finished (Ok data)"
  by (simp add: retry_or_raise_def split: sum.split)

lemma handle_exception_not_ok:
  "fst (handle_exception iface t detail tmo oper cid env rs exn s) \<noteq> Finished (Ok data)"
  by (simp add: handle_exception_def retry_or_raise_not_ok Let_def split: http_exn.split infra_error.split)

lemma llm_attempt_success:
  assumes "llm_attempt iface t detail tmo oper cid env rs s = (Finished (Ok data), s', n)"
  obtains s1 where "s' = reset_circuit_if_enabled iface (llm_host t) (at_others_post env s1)"
    "check_circuit_if_enabled iface (llm_host t) oper cid (at_fresh env) (at_check_time env) s = Ok s1"
  using assms
  by (auto simp: llm_attempt_def handle_response_def retry_or_raise_not_ok handle_exception_not_ok
      split_beta Let_def
      split: sum.splits post_outcome.splits option.splits if_splits)

end

end
