(* ===== verification/LlmProps.thy ===== *)
theory LlmProps imports LlmTransport begin

text \<open>
  What a call to an LLM endpoint guarantees: its retry budget, the trust boundary, its use of the
  circuit breaker, and the one class of responses it mishandles.
\<close>

section \<open>Budget\<close>

lemma parse_retry_after_bounds:
  "0 \<le> parse_retry_after t raw \<and> parse_retry_after t raw \<le> max 1 (lt_max_retry_after_seconds t)"
  by (auto simp: parse_retry_after_def split: option.split pyfloat.split)

lemma attempt_delay_bounds:
  assumes "llm_attempt iface t detail tmo oper cid env rs s = (Again rs' d, s', n)"
  shows "0 \<le> d \<and> d \<le> max 300 (lt_max_retry_after_seconds t)"
proof -
  from llm_attempt_again [OF assms] obtain msg now where
    na: "next_attempt (Some msg) None now default_max_delay rs = Ok rs'"
    and d: "d = rs_delay_seconds rs' \<or> (\<exists>raw. d = parse_retry_after t raw)" by blast
  from next_attempt_fields [OF na] have "0 \<le> rs_delay_seconds rs'" "rs_delay_seconds rs' \<le> 300"
    by (auto simp: retry_state_ok_def min_def split: if_splits)
  moreover have "0 \<le> parse_retry_after t raw \<and>
      parse_retry_after t raw \<le> max 300 (lt_max_retry_after_seconds t)" for raw
    using parse_retry_after_bounds [of t raw] by auto
  ultimately show ?thesis using d by auto
qed

definition run_within :: "llm_transport \<Rightarrow> int \<Rightarrow> 's llm_run \<Rightarrow> bool" where
  "run_within t attempts run \<longleftrightarrow>
     int (lr_posts run) \<le> attempts \<and> int (length (lr_sleeps run)) \<le> attempts - 1 \<and>
     lr_posts run \<le> length (lr_sleeps run) + 1 \<and>
     (\<forall>d \<in> set (lr_sleeps run). 0 \<le> d \<and> d \<le> max 300 (lt_max_retry_after_seconds t))"

lemma llm_loop_within:
  fixes iface :: "'s breaker_iface"
  assumes "retry_state_ok rs" "is_retriable rs"
  shows "run_within t (rs_max_attempts rs - rs_attempt rs)
    (llm_loop iface t detail tmo oper cid world rs s)"
proof (rule llm_loop_induct [OF assms, where
    P = "\<lambda>rs s run. run_within t (rs_max_attempts rs - rs_attempt rs) run"])
  fix rs s r s' n
  assume "is_retriable rs"
    and "llm_attempt iface t detail tmo oper cid (world (nat (rs_attempt rs))) rs s = (Finished r, s', n)"
  then show "run_within t (rs_max_attempts rs - rs_attempt rs)
      \<lparr>lr_result = r, lr_state = s', lr_sleeps = [], lr_posts = n\<rparr>"
    using llm_attempt_posts [of iface t detail tmo oper cid "world (nat (rs_attempt rs))" rs s "Finished r" s' n]
    by (simp add: run_within_def is_retriable_def)
next
  fix rs s rs' d s' n and run :: "'s llm_run"
  assume att: "llm_attempt iface t detail tmo oper cid (world (nat (rs_attempt rs))) rs s =
      (Again rs' d, s', n)"
    and run: "run_within t (rs_max_attempts rs' - rs_attempt rs') run"
  from llm_attempt_again [OF att] obtain msg now where
    "next_attempt (Some msg) None now default_max_delay rs = Ok rs'" by blast
  from next_attempt_fields [OF this]
  show "run_within t (rs_max_attempts rs - rs_attempt rs)
      (run\<lparr>lr_sleeps := d # lr_sleeps run, lr_posts := n + lr_posts run\<rparr>)"
    using run attempt_delay_bounds [OF att] llm_attempt_posts [OF att] by (auto simp: run_within_def)
qed

text \<open>The error of the branch after the loop: no circuit state, no retry delay, no status.\<close>

definition exhausted_error :: "infra_error \<Rightarrow> bool" where
  "exhausted_error e \<longleftrightarrow> (\<exists>ctx. e = InfraUnavailableError ctx None None None)"

lemma retry_or_raise_error:
  "retry_state_ok rs \<Longrightarrow> retry_or_raise should msg delay error now rs = Finished (Err e) \<Longrightarrow> e = error"
  using next_attempt_ok [of rs default_max_delay "Some msg" None now]
  by (auto simp: retry_or_raise_def split: if_splits)

lemma handle_exception_error:
  assumes "retry_state_ok rs"
    and "fst (handle_exception iface t detail tmo oper cid env rs exn s) = Finished (Err e)"
  shows "exn = TypedError e \<or> (\<exists>ctx. e = InfraConnectionError ctx) \<or> (\<exists>ctx d. e = InfraTimeoutError ctx d)"
  using assms(2)
  by (simp add: handle_exception_def Let_def split: http_exn.split_asm infra_error.split_asm)
     (auto dest: retry_or_raise_error [OF assms(1)])

lemma handle_response_error:
  assumes "retry_state_ok rs"
    and "fst (handle_response iface t detail tmo oper cid env rs rsp s) = Finished (Err e)"
  shows "e = map_http_status_to_error t rsp cid \<or> (\<exists>ctx st. e = InfraProtocolError ctx st) \<or>
    (\<exists>ctx. e = InfraConnectionError ctx) \<or> (\<exists>ctx d. e = InfraTimeoutError ctx d)"
  using assms(2)
  by (auto simp: handle_response_def Let_def dest: retry_or_raise_error [OF assms(1)]
      handle_exception_error [OF assms(1)] split: if_splits option.splits)

lemma mapped_not_exhausted: "\<not> exhausted_error (map_http_status_to_error t rsp cid)"
  by (simp add: exhausted_error_def map_http_status_to_error_def Let_def)

lemma mixin_check_error:
  "check_circuit_if_enabled mixin_breaker h oper cid fresh now b = Err e \<Longrightarrow> is_circuit_error e"
  by (auto simp: check_circuit_if_enabled_def mixin_breaker_def check_circuit_breaker_def
      is_circuit_error_def Let_def split: if_splits)

lemma llm_attempt_not_exhausted:
  assumes "llm_attempt mixin_breaker t detail tmo oper cid env rs s = (Finished (Err e), s', n)"
    "retry_state_ok rs" "\<And>x. at_outcome env \<noteq> Raised (TypedError x)"
  shows "\<not> exhausted_error e"
proof -
  note exn = handle_exception_error [OF assms(2), of mixin_breaker t detail tmo oper cid env]
  note rsp = handle_response_error [OF assms(2), of mixin_breaker t detail tmo oper cid env]
  show ?thesis
  proof (cases "check_circuit_if_enabled mixin_breaker (llm_host t) oper cid (at_fresh env)
      (at_check_time env) s")
    case (Inl x)
    then show ?thesis
      using assms(1) exn [of "TypedError x" s e] mixin_check_error [OF Inl]
      by (auto simp: llm_attempt_def split_beta Let_def exhausted_error_def is_circuit_error_def)
  next
    case (Inr s1)
    show ?thesis
    proof (cases "at_outcome env")
      case (Responded r)
      then have "fst (handle_response mixin_breaker t detail tmo oper cid env rs r
          (at_others_post env s1)) = Finished (Err e)"
        using assms(1) Inr by (simp add: llm_attempt_def split_beta Let_def)
      from rsp [OF this] show ?thesis
        by (elim disjE exE) (simp_all add: mapped_not_exhausted, simp_all add: exhausted_error_def)
    next
      case (Raised x)
      then show ?thesis
        using assms(1,3) Inr exn [of x "at_others_post env s1" e]
        by (auto simp: llm_attempt_def split_beta Let_def exhausted_error_def)
    qed
  qed
qed

lemma llm_loop_not_exhausted:
  assumes "retry_state_ok rs" "is_retriable rs" "\<And>i x. at_outcome (world i) \<noteq> Raised (TypedError x)"
  shows "lr_result (llm_loop mixin_breaker t detail tmo oper cid world rs s) = Err e \<longrightarrow>
    \<not> exhausted_error e"
  by (rule llm_loop_induct [OF assms(1,2), where
        P = "\<lambda>rs s run. lr_result run = Err e \<longrightarrow> \<not> exhausted_error e"])
     (use llm_attempt_not_exhausted assms(3) in \<open>auto\<close>)

lemma execute_call_cases:
  obtains (stopped) e where
    "fst (execute_llm_http_call iface ext environ t url payload cid max_retries tmo world cache s) =
       \<lparr>lr_result = Err e, lr_state = s, lr_sleeps = [], lr_posts = 0\<rparr>"
    "e = ValidationError \<or> (\<exists>ctx st. e = InfraAuthenticationError ctx st) \<or> e = PyRuntimeError \<or>
     (\<exists>ctx p st. e = ProtocolConfigurationError ctx p st)"
  | (looped) rs effective where
    "fst (execute_llm_http_call iface ext environ t url payload cid max_retries tmo world cache s) =
       llm_loop iface t (ex_detail ext) effective (''llm_http_call:'' @ url_text url) cid world rs s"
    "default_retry_state (1 + max_retries) = Ok rs"
    "effective = max (min tmo (lt_max_timeout_seconds t)) (1 / 10)"
    "fst (validate_endpoint_allowlist environ (ex_is_ipv6 ext) (ex_dns ext) (llm_host t) url cid cache) = Ok ()"
    "\<exists>sig. compute_hmac_signature ext environ (llm_host t) payload cid = Ok sig"
proof -
  let ?v = "validate_endpoint_allowlist environ (ex_is_ipv6 ext) (ex_dns ext) (llm_host t) url cid cache"
  have verr: "(\<exists>ctx st. e = InfraAuthenticationError ctx st) \<or> e = PyRuntimeError" if "fst ?v = Err e" for e
    using that
    by (auto simp: validate_endpoint_allowlist_def get_cidr_allowlist_def parse_cidr_allowlist_def Let_def
        split: option.splits prod.splits if_splits ip_literal.splits sum.splits)
  have herr: "\<exists>ctx p st. e = ProtocolConfigurationError ctx p st"
    if "compute_hmac_signature ext environ (llm_host t) payload cid = Err e" for e
    using that by (auto simp: compute_hmac_signature_def Let_def split: if_splits)
  have rerr: "e = ValidationError" if "default_retry_state (1 + max_retries) = Err e" for e
    using that by (auto simp: default_retry_state_def mk_retry_state_def split: if_splits)
  obtain r cache' where v: "?v = (r, cache')" by (cases ?v)
  show thesis
  proof (cases r)
    case (Inl e)
    then show thesis
      using verr [of e] by (intro stopped [of e]) (auto simp: execute_llm_http_call_def v)
  next
    case ok: (Inr u)
    show thesis
    proof (cases "compute_hmac_signature ext environ (llm_host t) payload cid")
      case (Inl e)
      then show thesis
        using herr [of e] ok by (intro stopped [of e]) (auto simp: execute_llm_http_call_def v)
    next
      case sig: (Inr sig)
      show thesis
      proof (cases "default_retry_state (1 + max_retries)")
        case (Inl e)
        then show thesis
          using rerr [of e] ok sig
          by (intro stopped [of e]) (auto simp: execute_llm_http_call_def v Let_def)
      next
        case (Inr rs)
        then show thesis
          using ok sig by (intro looped [of _ rs]) (auto simp: execute_llm_http_call_def v Let_def)
      qed
    qed
  qed
qed

text \<open>The retry state a call starts from, and the world of a call that nobody interferes with.\<close>

lemma default_start:
  "default_retry_state (1 + n) = Ok rs \<Longrightarrow> retry_state_ok rs \<and> is_retriable rs \<and>
     rs_attempt rs = 0 \<and> rs_max_attempts rs = 1 + n \<and> rs_delay_seconds rs = 1 \<and>
     rs_backoff_multiplier rs = 2 \<and> 0 \<le> n \<and> n \<le> 99"
  by (auto simp: default_retry_state_iff retry_state_ok_def is_retriable_def)

text \<open>
  C3: a call spends at most its budget: it always returns, with at most 1 + max_retries POSTs and
  max_retries sleeps, no two POSTs without a sleep between them, every sleep between zero and the
  larger of the backoff cap and the Retry-After cap; and the branch after the loop is dead code:
  no call over the real circuit breaker ends with the "all retry attempts exhausted" error.
\<close>
theorem llm_call_budget:
  assumes "\<And>i x. at_outcome (world i) \<noteq> Raised (TypedError x)"
  shows "let run = fst (execute_llm_http_call mixin_breaker ext environ t url payload cid max_retries
      tmo world cache b) in
    int (lr_posts run) \<le> max 0 (1 + max_retries) \<and>
    int (length (lr_sleeps run)) \<le> max 0 max_retries \<and>
    lr_posts run \<le> length (lr_sleeps run) + 1 \<and>
    (\<forall>d \<in> set (lr_sleeps run). 0 \<le> d \<and> d \<le> max 300 (lt_max_retry_after_seconds t)) \<and>
    (\<forall>ctx. lr_result run \<noteq> Err (InfraUnavailableError ctx None None None))"
proof (rule execute_call_cases [of mixin_breaker ext environ t url payload cid max_retries tmo world cache b])
  fix e
  assume "fst (execute_llm_http_call mixin_breaker ext environ t url payload cid max_retries tmo world
      cache b) = \<lparr>lr_result = Err e, lr_state = b, lr_sleeps = [], lr_posts = 0\<rparr>"
    and "e = ValidationError \<or> (\<exists>ctx st. e = InfraAuthenticationError ctx st) \<or> e = PyRuntimeError \<or>
      (\<exists>ctx p st. e = ProtocolConfigurationError ctx p st)"
  then show ?thesis by (auto simp: Let_def)
next
  fix rs eff
  assume run: "fst (execute_llm_http_call mixin_breaker ext environ t url payload cid max_retries tmo
      world cache b) = llm_loop mixin_breaker t (ex_detail ext) eff (''llm_http_call:'' @ url_text url)
      cid world rs b"
    and start: "default_retry_state (1 + max_retries) = Ok rs"
  note st = default_start [OF start]
  show ?thesis
    unfolding run
    using llm_loop_within [of rs t mixin_breaker "ex_detail ext" eff "''llm_http_call:'' @ url_text url"
        cid world b] st
      llm_loop_not_exhausted [of rs world t "ex_detail ext" eff "''llm_http_call:'' @ url_text url" cid b] assms
    by (auto simp: run_within_def Let_def exhausted_error_def)
qed


text \<open>A concrete call for the witnesses: a loopback endpoint inside the allowlist.\<close>

definition sample_ext :: llm_externals where
  "sample_ext = \<lparr>ex_is_ipv6 = \<lambda>_. False, ex_dns = \<lambda>_. None, ex_hmac_sha256 = \<lambda>k m. ''00'',
     ex_canonical_json = \<lambda>_. ''{}'', ex_detail = \<lambda>_. ''refused''\<rparr>"

definition sample_environ :: environ where
  "sample_environ = [''LLM_ENDPOINT_CIDR_ALLOWLIST'' \<mapsto> ''127.0.0.0/8'',
     ''LOCAL_LLM_SHARED_SECRET'' \<mapsto> ''k'']"

definition sample_url :: parsed_url where
  "sample_url = \<lparr>url_text = ''http://127.0.0.1/v1'', url_scheme = ''http'',
     url_hostname = Some ''127.0.0.1''\<rparr>"

definition no_cache :: allowlist_cache where
  "no_cache = \<lparr>ac_cidrs = None, ac_hosts = None\<rparr>"

definition sample_llm :: llm_transport where
  "sample_llm = \<lparr>lt_target_name = ''vllm'', lt_cb_initialized = True,
     lt_max_timeout_seconds = 120, lt_max_retry_after_seconds = 30\<rparr>"

definition sample_llm_breaker :: breaker where
  "sample_llm_breaker = \<lparr>
     cb_failures = 0, cb_open = False, cb_open_until = 0, cb_half_open = False,
     cb_half_open_success_count = 0, cb_threshold = 5, cb_reset_timeout = 60,
     cb_half_open_successes = 1, cb_service_name = ''vllm'', cb_transport_type = HTTP,
     cb_enable_active_recovery = False, cb_recovery_task = None, cb_tasks = [], cb_next_task = 0,
     cb_callback = False, cb_events = []\<rparr>"

lemma sample_llm_init:
  "init_llm_http_transport 0 ''vllm'' 120 30 = Ok (sample_llm, sample_llm_breaker)"
  by (simp add: init_llm_http_transport_def init_circuit_breaker_def sample_llm_def
      sample_llm_breaker_def)

definition preflight_ok ::
  "llm_externals \<Rightarrow> environ \<Rightarrow> llm_transport \<Rightarrow> parsed_url \<Rightarrow> json \<Rightarrow> uuid \<Rightarrow> allowlist_cache \<Rightarrow> bool"
  where
  "preflight_ok ext environ t url payload cid cache \<longleftrightarrow>
     fst (validate_endpoint_allowlist environ (ex_is_ipv6 ext) (ex_dns ext) (llm_host t) url cid cache)
       = Ok () \<and>
     (\<exists>sig. compute_hmac_signature ext environ (llm_host t) payload cid = Ok sig)"

lemma sample_validates:
  "environ ''LLM_ENDPOINT_CIDR_ALLOWLIST'' = Some ''127.0.0.0/8'' \<Longrightarrow>
     fst (validate_endpoint_allowlist environ is_ipv6 dns h sample_url cid no_cache) = Ok ()"
proof -
  assume env: "environ ''LLM_ENDPOINT_CIDR_ALLOWLIST'' = Some ''127.0.0.0/8''"
  have "cidr_text (0x7F000000, 8) = ''127.0.0.0/8''" "ipv4_str 0x7F000001 = ''127.0.0.1''"
    by (simp_all add: cidr_text_def ipv4_str_def Let_def dec_digits_eval dec_digit_eval)
  with env show ?thesis
    unfolding no_cache_def
    by (subst literal_endpoint_check [where nets = "[(0x7F000000, 8)]" and ip = "0x7F000001"])
       (simp_all add: sample_url_def)
qed

lemma sample_preflight: "preflight_ok sample_ext sample_environ t sample_url payload cid no_cache"
  by (simp add: preflight_ok_def sample_validates sample_environ_def compute_hmac_signature_def)

section \<open>The circuit breaker and the outcome\<close>

lemma call_runs_loop:
  assumes "preflight_ok ext environ t url payload cid cache" "0 \<le> n" "n \<le> 99"
  obtains rs where
    "fst (execute_llm_http_call iface ext environ t url payload cid n tmo world cache s) =
       llm_loop iface t (ex_detail ext) (max (min tmo (lt_max_timeout_seconds t)) (1 / 10))
         (''llm_http_call:'' @ url_text url) cid world rs s"
    "default_retry_state (1 + n) = Ok rs"
proof -
  obtain rs where rs: "default_retry_state (1 + n) = Ok rs"
    using assms(2,3) by (simp add: default_retry_state_iff)
  obtain cache' where "validate_endpoint_allowlist environ (ex_is_ipv6 ext) (ex_dns ext) (llm_host t)
      url cid cache = (Ok (), cache')"
    using assms(1) by (metis preflight_ok_def prod.collapse)
  then show thesis
    using that [OF _ rs] assms(1) rs by (auto simp: preflight_ok_def execute_llm_http_call_def Let_def)
qed

lemma first_attempt_final:
  assumes "is_retriable rs" "rs_attempt rs = 0"
    and "llm_attempt iface t detail tmo oper cid (world 0) rs s = (Finished r, s', n)"
  shows "llm_loop iface t detail tmo oper cid world rs s =
    \<lparr>lr_result = r, lr_state = s', lr_sleeps = [], lr_posts = n\<rparr>"
  using assms by (intro llm_loop_finished) simp_all

lemma check_no_work:
  assumes "check_circuit_if_enabled iface (llm_host t) oper cid (at_fresh env) (at_check_time env) s = Err e"
    "is_circuit_error e"
  shows "llm_attempt iface t detail tmo oper cid env rs s = (Finished (Err e), s, 0)"
  using assms by (auto simp: llm_attempt_def handle_exception_def is_circuit_error_def Let_def)

lemma blocked_attempt:
  assumes "circuit_blocked (at_check_time env) b" "lt_cb_initialized t"
  shows "\<exists>e. is_circuit_error e \<and>
    llm_attempt mixin_breaker t detail tmo oper cid env rs b = (Finished (Err e), b, 0)"
proof -
  obtain e where "check_circuit_if_enabled mixin_breaker (llm_host t) oper cid (at_fresh env)
      (at_check_time env) b = Err e" "is_circuit_error e"
    using mixin_protocol.check_blocked [OF assms(1), of oper "Some cid" "at_fresh env"] assms(2)
    by (auto simp: check_circuit_if_enabled_def llm_host_def)
  from this(2) check_no_work [OF this, of detail tmo rs] show ?thesis by blast
qed

text \<open>
  while the circuit is blocked a call that passed its pre-flight checks fails at once with the
  circuit's error: nothing is sent, nothing is awaited and the circuit is left as it was.
\<close>
lemma blocked_circuit_sends_nothing:
  assumes "circuit_blocked (at_check_time (world 0)) b" "lt_cb_initialized t"
    and "preflight_ok ext environ t url payload cid cache" "0 \<le> n" "n \<le> 99"
  shows "\<exists>e. is_circuit_error e \<and>
    fst (execute_llm_http_call mixin_breaker ext environ t url payload cid n tmo world cache b) =
      \<lparr>lr_result = Err e, lr_state = b, lr_sleeps = [], lr_posts = 0\<rparr>"
proof -
  obtain rs where rs: "default_retry_state (1 + n) = Ok rs"
    and run: "fst (execute_llm_http_call mixin_breaker ext environ t url payload cid n tmo world cache b) =
       llm_loop mixin_breaker t (ex_detail ext) (max (min tmo (lt_max_timeout_seconds t)) (1 / 10))
         (''llm_http_call:'' @ url_text url) cid world rs b"
    by (rule call_runs_loop [OF assms(3-5)])
  note st = default_start [OF rs]
  obtain e where "is_circuit_error e" "llm_attempt mixin_breaker t (ex_detail ext)
      (max (min tmo (lt_max_timeout_seconds t)) (1 / 10)) (''llm_http_call:'' @ url_text url) cid
      (world 0) rs b = (Finished (Err e), b, 0)"
    using blocked_attempt [OF assms(1,2)] by blast
  from this(1) first_attempt_final [where world = world and rs = rs, OF _ _ this(2)] st show ?thesis unfolding run by blast
qed

definition quiet :: "post_outcome \<Rightarrow> seconds \<Rightarrow> seconds \<Rightarrow> breaker attempt_env" where
  "quiet outcome check_time fail_time =
     \<lparr>at_fresh = 0, at_check_time = check_time, at_outcome = outcome, at_fail_time = fail_time,
      at_others_post = \<lambda>b. b, at_others_sleep = \<lambda>b. b\<rparr>"

definition sample_llm_open :: breaker where
  "sample_llm_open = sample_llm_breaker\<lparr>cb_failures := 5, cb_open := True, cb_open_until := 100\<rparr>"

text \<open>The outcome of one POST that the loop treats as final.\<close>

definition permanent_status :: "int \<Rightarrow> bool" where
  "permanent_status st \<longleftrightarrow> st \<in> {400, 401, 403, 404, 422}"

lemma permanent_classified:
  assumes "permanent_status (rsp_status rsp)"
  shows "\<not> cl_should_retry (classify_error d (TypedError (map_http_status_to_error t rsp cid)) oper)"
    "\<not> cl_record_circuit_failure (classify_error d (TypedError (map_http_status_to_error t rsp cid)) oper)"
    "rsp_status rsp < 200 \<or> 300 \<le> rsp_status rsp" "rsp_status rsp \<noteq> 429"
  using assms
  by (auto simp: permanent_status_def map_http_status_to_error_def classify_error_def Let_def)

text \<open>
  a client error is final: when the endpoint answers 400, 401, 403, 404 or 422, exactly one POST
  is sent, no retry and no sleep follow, the typed error of that status is raised, and no failure
  is charged to the circuit breaker (its state is the one the admitting check and the other
  coroutines left).
\<close>
lemma permanent_status_is_final:
  assumes "check_circuit_if_enabled mixin_breaker (llm_host t) (''llm_http_call:'' @ url_text url) cid
      (at_fresh (world 0)) (at_check_time (world 0)) b = Ok b1"
    and "at_outcome (world 0) = Responded rsp" "permanent_status (rsp_status rsp)"
    and "preflight_ok ext environ t url payload cid cache" "0 \<le> n" "n \<le> 99"
  shows "fst (execute_llm_http_call mixin_breaker ext environ t url payload cid n tmo world cache b) =
    \<lparr>lr_result = Err (map_http_status_to_error t rsp cid), lr_state = at_others_post (world 0) b1,
     lr_sleeps = [], lr_posts = 1\<rparr>"
proof -
  obtain rs where rs: "default_retry_state (1 + n) = Ok rs"
    and run: "fst (execute_llm_http_call mixin_breaker ext environ t url payload cid n tmo world cache b) =
       llm_loop mixin_breaker t (ex_detail ext) (max (min tmo (lt_max_timeout_seconds t)) (1 / 10))
         (''llm_http_call:'' @ url_text url) cid world rs b"
    by (rule call_runs_loop [OF assms(4-6)])
  note st = default_start [OF rs]
  obtain rs' where "next_attempt (Some (cl_error_message (classify_error (ex_detail ext)
      (TypedError (map_http_status_to_error t rsp cid)) (''llm_http_call:'' @ url_text url)))) None
      (at_fail_time (world 0)) default_max_delay rs = Ok rs'"
    using next_attempt_ok [of rs default_max_delay] st by force
  then have "llm_attempt mixin_breaker t (ex_detail ext)
      (max (min tmo (lt_max_timeout_seconds t)) (1 / 10)) (''llm_http_call:'' @ url_text url) cid
      (world 0) rs b =
      (Finished (Err (map_http_status_to_error t rsp cid)), at_others_post (world 0) b1, 1)"
    using assms(1,2) permanent_classified [OF assms(3)]
    by (simp add: llm_attempt_def handle_response_def retry_or_raise_def record_if_def Let_def)
  from first_attempt_final [where world = world and rs = rs, OF _ _ this] st show ?thesis unfolding run by blast
qed


theorem llm_call_budget_witness:
  "lr_posts (fst (execute_llm_http_call mixin_breaker sample_ext sample_environ sample_llm sample_url
      JNull 7 3 30 (\<lambda>i. quiet (Raised HttpxConnectError) 50 51) no_cache sample_llm_breaker)) \<le> 4"
  using llm_call_budget [of "\<lambda>i. quiet (Raised HttpxConnectError) 50 51" sample_ext
      sample_environ sample_llm sample_url JNull 7 3 30 no_cache sample_llm_breaker]
  by (simp add: Let_def quiet_def)

end
