(* ===== verification/LlmOutage.thy ===== *)
theory LlmOutage imports LlmProps begin

text \<open>
  Whole runs of a call against an endpoint that is down, that recovers, and that answers with JSON
  of the wrong shape: the retry loop and the circuit breaker working together.
\<close>

section \<open>An endpoint that is down\<close>

lemma mixin_breaker_sel [simp]:
  "if_fail mixin_breaker = record_circuit_failure" "if_reset mixin_breaker = reset_circuit_breaker"
  by (simp_all add: mixin_breaker_def)

lemma llm_host_enabled [simp]: "rh_circuit_breaker_initialized (llm_host t) = lt_cb_initialized t"
  by (simp add: llm_host_def)

lemma closed_check:
  assumes "circuit_of b = Closed k"
  shows "check_circuit_if_enabled mixin_breaker h oper cid fresh now b = Ok b"
  using assms
  by (auto simp: check_circuit_if_enabled_def mixin_breaker_def check_circuit_breaker_def
      circuit_of_def split: if_splits)

definition refusing :: "breaker attempt_env \<Rightarrow> bool" where
  "refusing env \<longleftrightarrow> at_outcome env = Raised HttpxConnectError \<and>
     (\<forall>b. at_others_post env b = b) \<and> (\<forall>b. at_others_sleep env b = b)"

lemma connect_attempt:
  assumes "circuit_of b = Closed k" "refusing env" "lt_cb_initialized t" "retry_state_ok rs"
  obtains rs' msg where
    "next_attempt (Some msg) None (at_fail_time env) default_max_delay rs = Ok rs'"
    "llm_attempt mixin_breaker t detail tmo oper cid env rs b =
       (if is_retriable rs' then Again rs' (rs_delay_seconds rs')
        else Finished (Err (InfraConnectionError (build_error_context (llm_host t) oper cid))),
        record_circuit_failure (at_fail_time env) b, 1)"
proof -
  define msg where "msg = cl_error_message (classify_error detail HttpxConnectError oper)"
  obtain rs' where rs': "next_attempt (Some msg) None (at_fail_time env) default_max_delay rs = Ok rs'"
    using next_attempt_ok [OF assms(4), of default_max_delay] by force
  have rec: "cl_record_circuit_failure (classify_error detail HttpxConnectError oper)"
    by (simp add: classify_error_def Let_def)
  show thesis
    by (rule that [OF rs'])
       (use assms(2,3) rs' rec in \<open>simp add: llm_attempt_def closed_check [OF assms(1)] refusing_def
         handle_exception_def retry_or_raise_def record_if_def record_circuit_failure_if_enabled_def
         msg_def [symmetric] Let_def\<close>)
qed

definition outage_run ::
  "llm_transport \<Rightarrow> string \<Rightarrow> uuid \<Rightarrow> seconds \<Rightarrow> nat \<Rightarrow> nat \<Rightarrow> breaker llm_run \<Rightarrow> bool" where
  "outage_run t oper cid reopen m k run \<longleftrightarrow>
     lr_posts run = min (m + 1) 5 - k \<and>
     lr_sleeps run = map (\<lambda>i. 2 ^ (i + 1)) [k..<min m 5] \<and>
     (if m < 5
      then lr_result run = Err (InfraConnectionError (build_error_context (llm_host t) oper cid))
      else (\<exists>e. is_circuit_error e \<and> lr_result run = Err e)) \<and>
     circuit_of (lr_state run) = (if m < 4 then Closed (int m + 1) else Open reopen)"

lemma outage_delay: "k < 5 \<Longrightarrow> min ((2::real) ^ k * 2) 300 = 2 ^ (k + 1)"
  by (cases "k = 0"; cases "k = 1"; cases "k = 2"; cases "k = 3"; cases "k = 4") auto

lemma outage_loop:
  assumes world: "\<And>i. refusing (world i)" "at_check_time (world 5) < at_fail_time (world 4) + 60"
    and t: "lt_cb_initialized t"
    and "breaker_inv b" "circuit_of b = Closed (int k)" "cb_threshold b = 5" "cb_reset_timeout b = 60"
    and "k < 5" "k \<le> m" "retry_state_ok rs" "rs_attempt rs = int k" "rs_max_attempts rs = int m + 1"
    and "rs_delay_seconds rs = 2 ^ k" "rs_backoff_multiplier rs = 2"
  shows "outage_run t oper cid (at_fail_time (world 4) + 60) m k
    (llm_loop mixin_breaker t detail tmo oper cid world rs b)"
  using assms(4-)
proof (induction "5 - k" arbitrary: k b rs)
  case 0
  then show ?case by simp
next
  case (Suc j)
  let ?b = "record_circuit_failure (at_fail_time (world k)) b"
  obtain rs' msg where na:
    "next_attempt (Some msg) None (at_fail_time (world k)) default_max_delay rs = Ok rs'"
    and att: "llm_attempt mixin_breaker t detail tmo oper cid (world (nat (rs_attempt rs))) rs b =
       (if is_retriable rs' then Again rs' (rs_delay_seconds rs')
        else Finished (Err (InfraConnectionError (build_error_context (llm_host t) oper cid))), ?b, 1)"
    using connect_attempt [OF Suc.prems(2) world(1) [of k] t Suc.prems(7), of detail tmo oper cid]
      Suc.prems(8) by (metis nat_int)
  note f = next_attempt_fields [OF na]
  have rs': "rs_attempt rs' = int (Suc k)" "rs_max_attempts rs' = int m + 1" "retry_state_ok rs'"
    "rs_backoff_multiplier rs' = 2" "rs_delay_seconds rs' = 2 ^ Suc k"
    using f Suc.prems outage_delay [of k] by simp_all
  have ret: "is_retriable rs" using Suc.prems by (simp add: is_retriable_def)
  have b': "breaker_inv ?b" "cb_threshold ?b = 5" "cb_reset_timeout ?b = 60"
    using Suc.prems by (simp_all add: breaker_inv_record)
  have c': "circuit_of ?b = (if k = 4 then Open (at_fail_time (world 4) + 60) else Closed (int (Suc k)))"
    using circuit_of_failure [OF Suc.prems(1), of "at_fail_time (world k)"] Suc.prems by auto
  show ?case
  proof (cases "k = m")
    case True
    then have "\<not> is_retriable rs'" using rs' by (simp add: is_retriable_def)
    with att have "llm_loop mixin_breaker t detail tmo oper cid world rs b =
        \<lparr>lr_result = Err (InfraConnectionError (build_error_context (llm_host t) oper cid)),
         lr_state = ?b, lr_sleeps = [], lr_posts = 1\<rparr>"
      using llm_loop_finished [OF ret] by simp
    with True c' Suc.prems(5) show ?thesis by (simp add: outage_run_def)
  next
    case False
    then have ret': "is_retriable rs'" using rs' Suc.prems(6) by (simp add: is_retriable_def)
    define run where "run = llm_loop mixin_breaker t detail tmo oper cid world rs' ?b"
    have loop: "llm_loop mixin_breaker t detail tmo oper cid world rs b =
        run\<lparr>lr_sleeps := 2 ^ Suc k # lr_sleeps run, lr_posts := 1 + lr_posts run\<rparr>"
      using llm_loop_again [OF ret, of mixin_breaker t detail tmo oper cid world b] att ret' rs'
        world(1) [of k] Suc.prems(8)
      by (simp add: run_def refusing_def Let_def)
    show ?thesis
    proof (cases "k = 4")
      case True
      then have "circuit_blocked (at_check_time (world 5)) ?b"
        using c' world(2) by (auto simp: circuit_blocked_def circuit_of_def split: if_splits)
      from blocked_attempt [OF this t, of detail tmo oper cid rs'] obtain e where e: "is_circuit_error e"
        "llm_attempt mixin_breaker t detail tmo oper cid (world (nat (rs_attempt rs'))) rs' ?b =
           (Finished (Err e), ?b, 0)"
        using True rs' by auto
      have "run = \<lparr>lr_result = Err e, lr_state = ?b, lr_sleeps = [], lr_posts = 0\<rparr>"
        unfolding run_def by (rule llm_loop_finished [where world = world, OF ret' e(2)])
      then show ?thesis
        unfolding loop using e(1) c' True False Suc.prems(6) by (auto simp: outage_run_def)
    next
      case k: False
      have "outage_run t oper cid (at_fail_time (world 4) + 60) m (Suc k) run"
        unfolding run_def
        by (rule Suc.hyps(1)) (use Suc.hyps(2) Suc.prems(5,6) k False b' c' rs' in auto)
      moreover have "[k..<min m 5] = k # [Suc k..<min m 5]"
        using k False Suc.prems(5,6) by (intro upt_conv_Cons) auto
      ultimately show ?thesis
        unfolding loop using k False Suc.prems(5,6) by (auto simp: outage_run_def)
    qed
  qed
qed

lemma outage_run_cost:
  assumes "outage_run t oper cid reopen (nat n) 0 run" "0 \<le> n"
  shows "lr_posts run = min (nat n + 1) 5 \<and>
    lr_sleeps run = map (\<lambda>i. 2 ^ (i + 1)) [0..<min (nat n) 5] \<and>
    (if n < 5 then \<exists>ctx. lr_result run = Err (InfraConnectionError ctx)
     else \<exists>e. is_circuit_error e \<and> lr_result run = Err e) \<and>
    circuit_of (lr_state run) = (if n < 4 then Closed (n + 1) else Open reopen)"
proof -
  have "nat n < 5 \<longleftrightarrow> n < 5" "nat n < 4 \<longleftrightarrow> n < 4" "int (nat n) = n" using assms(2) by auto
  with assms(1) show ?thesis unfolding outage_run_def by (cases "n < 5") simp_all
qed

text \<open>
  what an outage costs. With a new transport and an endpoint that refuses every connection, a
  call allowed n retries sends n + 1 POSTs with sleeps of 2, 4, 8, ... seconds between them and
  raises a connection error, as long as n is at most four. With more retries the fifth failure
  opens the circuit: no matter how large n is, exactly five POSTs are sent, the sixth attempt is
  refused by the circuit, and the circuit stays open until a minute after the fifth failure.
\<close>
lemma outage_cost:
  assumes "init_llm_http_transport fresh target mt mr = Ok (t, b)"
    and "preflight_ok ext environ t url payload cid cache" "0 \<le> n" "n \<le> 99"
    and "\<And>i. refusing (world i)" "at_check_time (world 5) < at_fail_time (world 4) + 60"
  shows "let run = fst (execute_llm_http_call mixin_breaker ext environ t url payload cid n tmo world
      cache b) in
    lr_posts run = min (nat n + 1) 5 \<and>
    lr_sleeps run = map (\<lambda>i. 2 ^ (i + 1)) [0..<min (nat n) 5] \<and>
    (if n < 5 then \<exists>ctx. lr_result run = Err (InfraConnectionError ctx)
     else \<exists>e. is_circuit_error e \<and> lr_result run = Err e) \<and>
    circuit_of (lr_state run) =
      (if n < 4 then Closed (n + 1) else Open (at_fail_time (world 4) + 60))"
proof -
  obtain rs where rs: "default_retry_state (1 + n) = Ok rs"
    and run: "fst (execute_llm_http_call mixin_breaker ext environ t url payload cid n tmo world cache b) =
       llm_loop mixin_breaker t (ex_detail ext) (max (min tmo (lt_max_timeout_seconds t)) (1 / 10))
         (''llm_http_call:'' @ url_text url) cid world rs b"
    by (rule call_runs_loop [OF assms(2-4)])
  have init: "init_circuit_breaker fresh 5 60 target HTTP 1 False = Ok b" "lt_cb_initialized t"
    using assms(1) by (auto simp: init_llm_http_transport_def split: sum.splits)
  have "breaker_inv b" by (rule breaker_inv_init [OF init(1)])
  moreover have "circuit_of b = Closed (int 0)" "cb_threshold b = 5" "cb_reset_timeout b = 60"
    using init(1) by (auto simp: init_circuit_breaker_def circuit_of_def Let_def)
  ultimately have b: "breaker_inv b" "circuit_of b = Closed (int 0)" "cb_threshold b = 5"
    "cb_reset_timeout b = 60" by simp_all
  have "outage_run t (''llm_http_call:'' @ url_text url) cid (at_fail_time (world 4) + 60) (nat n) 0
      (llm_loop mixin_breaker t (ex_detail ext) (max (min tmo (lt_max_timeout_seconds t)) (1 / 10))
        (''llm_http_call:'' @ url_text url) cid world rs b)"
    by (rule outage_loop) (use default_start [OF rs] assms(3,5,6) init b in auto)
  from outage_run_cost [OF this assms(3)] show ?thesis unfolding run Let_def .
qed

section \<open>An endpoint that answers\<close>

text \<open>The other coroutines keep the invariant of the shared breaker.\<close>

definition well_behaved :: "(nat \<Rightarrow> breaker attempt_env) \<Rightarrow> bool" where
  "well_behaved world \<longleftrightarrow>
     (\<forall>i b. breaker_inv b \<longrightarrow>
        breaker_inv (at_others_post (world i) b) \<and> breaker_inv (at_others_sleep (world i) b))"

lemma llm_loop_heals:
  assumes "retry_state_ok rs" "is_retriable rs" "well_behaved world" "lt_cb_initialized t"
  shows "breaker_inv b \<longrightarrow>
    breaker_inv (lr_state (llm_loop mixin_breaker t detail tmo oper cid world rs b)) \<and>
    (\<forall>data. lr_result (llm_loop mixin_breaker t detail tmo oper cid world rs b) = Ok data \<longrightarrow>
      (\<forall>now. \<not> circuit_blocked now (lr_state (llm_loop mixin_breaker t detail tmo oper cid world rs b))))"
proof (rule llm_loop_induct [OF assms(1,2), where P = "\<lambda>rs b run. breaker_inv b \<longrightarrow>
    breaker_inv (lr_state run) \<and> (\<forall>data. lr_result run = Ok data \<longrightarrow>
      (\<forall>now. \<not> circuit_blocked now (lr_state run)))"]; intro impI)
  fix rs b r b' n
  assume att: "llm_attempt mixin_breaker t detail tmo oper cid (world (nat (rs_attempt rs))) rs b =
      (Finished r, b', n)" and inv: "breaker_inv b"
  have others: "breaker_inv x \<Longrightarrow> breaker_inv (at_others_post (world i) x)" for i x
    using assms(3) by (simp add: well_behaved_def)
  have "breaker_inv b'"
    using mixin_protocol.llm_attempt_inv [OF inv, of "world (nat (rs_attempt rs))" t detail tmo oper cid rs]
      others att by simp
  moreover have "\<not> circuit_blocked now b'" if ok: "r = Ok data" for data now
  proof -
    obtain b1 where "b' = reset_circuit_if_enabled mixin_breaker (llm_host t)
        (at_others_post (world (nat (rs_attempt rs))) b1)"
      "check_circuit_if_enabled mixin_breaker (llm_host t) oper cid
        (at_fresh (world (nat (rs_attempt rs)))) (at_check_time (world (nat (rs_attempt rs)))) b = Ok b1"
      by (rule mixin_protocol.llm_attempt_success [OF att [unfolded ok]])
    moreover from this(2) have "breaker_inv b1"
      using mixin_protocol.guarded_check [OF inv, of "llm_host t" oper cid
          "at_fresh (world (nat (rs_attempt rs)))" "at_check_time (world (nat (rs_attempt rs)))"]
      by auto
    ultimately show ?thesis
      using mixin_protocol.reset_unblocks [OF others [of b1 "nat (rs_attempt rs)"], of now] assms(4)
      by (simp add: reset_circuit_if_enabled_def)
  qed
  ultimately show "breaker_inv (lr_state \<lparr>lr_result = r, lr_state = b', lr_sleeps = [], lr_posts = n\<rparr>) \<and>
      (\<forall>data. lr_result \<lparr>lr_result = r, lr_state = b', lr_sleeps = [], lr_posts = n\<rparr> = Ok data \<longrightarrow>
        (\<forall>now. \<not> circuit_blocked now
          (lr_state \<lparr>lr_result = r, lr_state = b', lr_sleeps = [], lr_posts = n\<rparr>)))"
    by simp
next
  fix rs b rs' d b' n and run :: "breaker llm_run"
  assume att: "llm_attempt mixin_breaker t detail tmo oper cid (world (nat (rs_attempt rs))) rs b =
      (Again rs' d, b', n)" and inv: "breaker_inv b"
    and IH: "breaker_inv (at_others_sleep (world (nat (rs_attempt rs))) b') \<longrightarrow>
      breaker_inv (lr_state run) \<and> (\<forall>data. lr_result run = Ok data \<longrightarrow>
        (\<forall>now. \<not> circuit_blocked now (lr_state run)))"
  have "breaker_inv b'"
    using mixin_protocol.llm_attempt_inv [OF inv, of "world (nat (rs_attempt rs))" t detail tmo oper cid rs]
      att assms(3) by (simp add: well_behaved_def)
  then show "breaker_inv (lr_state (run\<lparr>lr_sleeps := d # lr_sleeps run, lr_posts := n + lr_posts run\<rparr>)) \<and>
      (\<forall>data. lr_result (run\<lparr>lr_sleeps := d # lr_sleeps run, lr_posts := n + lr_posts run\<rparr>) = Ok data \<longrightarrow>
        (\<forall>now. \<not> circuit_blocked now
          (lr_state (run\<lparr>lr_sleeps := d # lr_sleeps run, lr_posts := n + lr_posts run\<rparr>))))"
    using IH assms(3) by (simp add: well_behaved_def)
qed

text \<open>
  a call keeps the invariant of the shared circuit breaker whatever the endpoint answers and
  however other users of the breaker interleave with it; and a call that returns data leaves the
  circuit admitting calls at every later time.
\<close>
lemma success_leaves_circuit_usable:
  assumes "breaker_inv b" "well_behaved world" "lt_cb_initialized t"
  shows "let run = fst (execute_llm_http_call mixin_breaker ext environ t url payload cid n tmo world
      cache b) in
    breaker_inv (lr_state run) \<and>
    (\<forall>data now. lr_result run = Ok data \<longrightarrow> \<not> circuit_blocked now (lr_state run))"
proof (rule execute_call_cases [of mixin_breaker ext environ t url payload cid n tmo world cache b])
  fix e
  assume "fst (execute_llm_http_call mixin_breaker ext environ t url payload cid n tmo world
      cache b) = \<lparr>lr_result = Err e, lr_state = b, lr_sleeps = [], lr_posts = 0\<rparr>"
  then show ?thesis using assms(1) by simp
next
  fix rs eff
  assume run: "fst (execute_llm_http_call mixin_breaker ext environ t url payload cid n tmo
      world cache b) = llm_loop mixin_breaker t (ex_detail ext) eff (''llm_http_call:'' @ url_text url)
      cid world rs b"
    and start: "default_retry_state (1 + n) = Ok rs"
  show ?thesis
    unfolding run
    using llm_loop_heals [OF _ _ assms(2,3), of rs b "ex_detail ext" eff
        "''llm_http_call:'' @ url_text url" cid] default_start [OF start] assms(1)
    by (auto simp: Let_def)
qed

section \<open>A response of the wrong shape\<close>

text \<open>A 2xx answer whose JSON body makes the reading of the token counts raise.\<close>

definition misshapen :: "breaker attempt_env \<Rightarrow> bool" where
  "misshapen env \<longleftrightarrow>
     (\<exists>rsp data. at_outcome env = Responded rsp \<and> 200 \<le> rsp_status rsp \<and> rsp_status rsp < 300 \<and>
        rsp_content_type rsp = ''application/json'' \<and> rsp_json rsp = Some data \<and>
        token_counts_raise data) \<and>
     (\<forall>b. at_others_post env b = b) \<and> (\<forall>b. at_others_sleep env b = b)"

lemma json_content_type: "contains_text ''json'' (map ascii_lower ''application/json'')"
  by code_simp

lemma misshapen_attempt:
  assumes "circuit_of b = Closed k" "misshapen env" "retry_state_ok rs"
  obtains rs' msg where
    "next_attempt (Some msg) None (at_fail_time env) default_max_delay rs = Ok rs'"
    "llm_attempt mixin_breaker t detail tmo oper cid env rs b =
       (if is_retriable rs' then Again rs' (rs_delay_seconds rs')
        else Finished (Err (InfraConnectionError (build_error_context (llm_host t) oper cid))),
        (if lt_cb_initialized t then record_circuit_failure (at_fail_time env) (reset_circuit_breaker b)
         else b), 1)"
proof -
  define msg where "msg = cl_error_message (classify_error detail OtherException oper)"
  obtain rs' where rs': "next_attempt (Some msg) None (at_fail_time env) default_max_delay rs = Ok rs'"
    using next_attempt_ok [OF assms(3), of default_max_delay] by force
  have cl: "cl_record_circuit_failure (classify_error detail OtherException oper)"
    "cl_should_retry (classify_error detail OtherException oper)"
    by (simp_all add: classify_error_def Let_def)
  obtain rsp data where rsp: "at_outcome env = Responded rsp" "200 \<le> rsp_status rsp"
    "rsp_status rsp < 300" "rsp_content_type rsp = ''application/json''" "rsp_json rsp = Some data"
    "token_counts_raise data" "\<And>b. at_others_post env b = b"
    using assms(2) by (auto simp: misshapen_def)
  have exn: "handle_exception mixin_breaker t detail tmo oper cid env rs OtherException x =
      (if is_retriable rs' then Again rs' (rs_delay_seconds rs')
       else Finished (Err (InfraConnectionError (build_error_context (llm_host t) oper cid))),
       if lt_cb_initialized t then record_circuit_failure (at_fail_time env) x else x)" for x
    using rs' cl
    by (simp add: handle_exception_def retry_or_raise_def record_if_def
        record_circuit_failure_if_enabled_def msg_def [symmetric] Let_def)
  have "handle_response mixin_breaker t detail tmo oper cid env rs rsp b =
      handle_exception mixin_breaker t detail tmo oper cid env rs OtherException
        (if lt_cb_initialized t then reset_circuit_breaker b else b)"
    using rsp(2-6) json_content_type by (simp add: handle_response_def reset_circuit_if_enabled_def Let_def)
  then have "llm_attempt mixin_breaker t detail tmo oper cid env rs b =
      (if is_retriable rs' then Again rs' (rs_delay_seconds rs')
       else Finished (Err (InfraConnectionError (build_error_context (llm_host t) oper cid))),
       (if lt_cb_initialized t then record_circuit_failure (at_fail_time env) (reset_circuit_breaker b)
        else b), 1)"
    using rsp(1,7) by (simp add: llm_attempt_def closed_check [OF assms(1)] exn Let_def)
  with rs' show thesis by (rule that)
qed

lemma closed_after_misshapen:
  assumes "breaker_inv b" "circuit_of b = Closed k" "2 \<le> cb_threshold b"
  shows "circuit_of (record_circuit_failure now (reset_circuit_breaker b)) = Closed 1"
  using assms circuit_of_success [OF assms(1)] circuit_of_failure [OF breaker_inv_reset [OF assms(1)]]
  by simp

lemma misshapen_loop:
  assumes "\<And>i. misshapen (world i)"
  shows "breaker_inv b \<Longrightarrow> circuit_of b = Closed k \<Longrightarrow> 2 \<le> cb_threshold b \<Longrightarrow>
    retry_state_ok rs \<Longrightarrow> is_retriable rs \<Longrightarrow>
    (let run = llm_loop mixin_breaker t detail tmo oper cid world rs b in
      int (lr_posts run) = rs_max_attempts rs - rs_attempt rs \<and>
      lr_result run = Err (InfraConnectionError (build_error_context (llm_host t) oper cid)))"
proof (induction "nat (rs_max_attempts rs - rs_attempt rs)" arbitrary: rs b k rule: less_induct)
  case less
  let ?env = "world (nat (rs_attempt rs))"
  let ?b = "if lt_cb_initialized t
    then record_circuit_failure (at_fail_time ?env) (reset_circuit_breaker b) else b"
  obtain rs' msg where na:
    "next_attempt (Some msg) None (at_fail_time ?env) default_max_delay rs = Ok rs'"
    and att: "llm_attempt mixin_breaker t detail tmo oper cid ?env rs b =
       (if is_retriable rs' then Again rs' (rs_delay_seconds rs')
        else Finished (Err (InfraConnectionError (build_error_context (llm_host t) oper cid))), ?b, 1)"
    by (rule misshapen_attempt [OF less.prems(2) assms less.prems(4)])
  note f = next_attempt_fields [OF na]
  show ?case
  proof (cases "is_retriable rs'")
    case False
    with att have "llm_loop mixin_breaker t detail tmo oper cid world rs b =
        \<lparr>lr_result = Err (InfraConnectionError (build_error_context (llm_host t) oper cid)),
         lr_state = ?b, lr_sleeps = [], lr_posts = 1\<rparr>"
      using llm_loop_finished [OF less.prems(5), of mixin_breaker t detail tmo oper cid world b] by simp
    then show ?thesis using False f less.prems(5) by (simp add: is_retriable_def)
  next
    case True
    have b': "breaker_inv ?b" "2 \<le> cb_threshold ?b" "\<exists>j. circuit_of ?b = Closed j"
      using less.prems(1-3) closed_after_misshapen [OF less.prems(1-3)]
      by (auto intro: preserve)
    then obtain j where j: "circuit_of ?b = Closed j" by blast
    have "nat (rs_max_attempts rs' - rs_attempt rs') < nat (rs_max_attempts rs - rs_attempt rs)"
      using f less.prems(5) by (simp add: is_retriable_def)
    note IH = less.hyps [OF this b'(1) j b'(2) _ True]
    have "llm_loop mixin_breaker t detail tmo oper cid world rs b =
      (let run = llm_loop mixin_breaker t detail tmo oper cid world rs' ?b in
       run\<lparr>lr_sleeps := rs_delay_seconds rs' # lr_sleeps run, lr_posts := 1 + lr_posts run\<rparr>)"
      using llm_loop_again [OF less.prems(5), of mixin_breaker t detail tmo oper cid world b] att True
        assms [of "nat (rs_attempt rs)"] by (simp add: misshapen_def Let_def)
    with IH f show ?thesis by (simp add: Let_def)
  qed
qed

text \<open>
  a successful answer whose body is JSON but not an object (or whose token counts are not
  finite) is mistaken for a failure: although every POST was answered with a 2xx status, the same
  request is sent again until the whole retry budget is spent, and the call then raises a
  connection error.
\<close>
lemma misshapen_success_is_retried:
  assumes "breaker_inv b" "circuit_of b = Closed k" "2 \<le> cb_threshold b"
    and "\<And>i. misshapen (world i)"
    and "preflight_ok ext environ t url payload cid cache" "0 \<le> n" "n \<le> 99"
  shows "let run = fst (execute_llm_http_call mixin_breaker ext environ t url payload cid n tmo world
      cache b) in
    int (lr_posts run) = 1 + n \<and> (\<exists>ctx. lr_result run = Err (InfraConnectionError ctx))"
proof -
  obtain rs where rs: "default_retry_state (1 + n) = Ok rs"
    and run: "fst (execute_llm_http_call mixin_breaker ext environ t url payload cid n tmo world cache b) =
       llm_loop mixin_breaker t (ex_detail ext) (max (min tmo (lt_max_timeout_seconds t)) (1 / 10))
         (''llm_http_call:'' @ url_text url) cid world rs b"
    by (rule call_runs_loop [OF assms(5-7)])
  show ?thesis
    unfolding run
    using misshapen_loop [OF assms(4,1-3), of rs t "ex_detail ext" "max (min tmo (lt_max_timeout_seconds t)) (1 / 10)"
        "''llm_http_call:'' @ url_text url" cid] default_start [OF rs]
    by (auto simp: Let_def)
qed

end
