(* ===== verification/ContractRegistry.thy ===== *)
theory ContractRegistry imports EnvParsing Interfaces begin

text \<open>
  The contract registry projection: \<^verbatim>\<open>nodes/node_contract_registry_reducer/reducer.py\<close> and
  \<^verbatim>\<open>models/model_contract_registry_state.py\<close>. Events of four Kafka topics arrive interleaved and at
  least once; the state keeps the last processed offset of every topic and partition. The YAML
  parser, the text of structured JSON values and the staleness threshold of the
  process environment are arguments.
\<close>

section \<open>State\<close>

record cr_state =
  cr_last_event_id :: "uuid option"
  cr_positions :: "(string, int) py_dict"
  cr_last_staleness_check :: "timestamp option"
  cr_contracts_processed :: int
  cr_heartbeats_processed :: int
  cr_deregistrations_processed :: int

definition initial_cr_state :: cr_state where
  "initial_cr_state =
     \<lparr>cr_last_event_id = None, cr_positions = [], cr_last_staleness_check = None,
      cr_contracts_processed = 0, cr_heartbeats_processed = 0, cr_deregistrations_processed = 0\<rparr>"

definition position_key :: "string \<Rightarrow> int \<Rightarrow> string" where
  "position_key topic part = topic @ '':'' @ string_of_int part"

definition is_duplicate_position :: "cr_state \<Rightarrow> string \<Rightarrow> int \<Rightarrow> int \<Rightarrow> bool" where
  "is_duplicate_position s topic part offset =
     (case dict_get (cr_positions s) (position_key topic part) of
        None \<Rightarrow> False
      | Some last_offset \<Rightarrow> offset \<le> last_offset)"

definition with_event_processed :: "uuid \<Rightarrow> string \<Rightarrow> int \<Rightarrow> int \<Rightarrow> cr_state \<Rightarrow> cr_state" where
  "with_event_processed event_id topic part offset s =
     s\<lparr>cr_last_event_id := Some event_id,
       cr_positions := dict_put (position_key topic part) offset (cr_positions s)\<rparr>"

definition with_contract_registered :: "cr_state \<Rightarrow> cr_state" where
  "with_contract_registered s = s\<lparr>cr_contracts_processed := cr_contracts_processed s + 1\<rparr>"

definition with_heartbeat_processed :: "cr_state \<Rightarrow> cr_state" where
  "with_heartbeat_processed s = s\<lparr>cr_heartbeats_processed := cr_heartbeats_processed s + 1\<rparr>"

definition with_deregistration_processed :: "cr_state \<Rightarrow> cr_state" where
  "with_deregistration_processed s =
     s\<lparr>cr_deregistrations_processed := cr_deregistrations_processed s + 1\<rparr>"

definition with_staleness_check :: "timestamp \<Rightarrow> cr_state \<Rightarrow> cr_state" where
  "with_staleness_check check_time s = s\<lparr>cr_last_staleness_check := Some check_time\<rparr>"

section \<open>Events and intents\<close>

record semver =
  sv_major :: nat
  sv_minor :: nat
  sv_patch :: nat

record contract_registered =
  ev_event_id :: uuid
  ev_correlation_id :: "uuid option"
  ev_node_name :: string
  ev_node_version :: semver
  ev_contract_hash :: string
  ev_contract_yaml :: json
  ev_source_node_id :: "uuid option"
  ev_timestamp :: timestamp

record contract_deregistered =
  ed_event_id :: uuid
  ed_correlation_id :: "uuid option"
  ed_node_name :: string
  ed_node_version :: semver
  ed_reason :: string
  ed_timestamp :: timestamp

record node_heartbeat =
  eh_event_id :: uuid
  eh_correlation_id :: "uuid option"
  eh_node_name :: string
  eh_node_version :: semver
  eh_source_node_id :: "uuid option"
  eh_uptime_seconds :: "seconds option"
  eh_sequence_number :: "int option"
  eh_timestamp :: timestamp

record runtime_tick =
  et_tick_id :: uuid
  et_correlation_id :: uuid
  et_now :: timestamp

datatype cr_event =
    ContractRegistered contract_registered
  | ContractDeregistered contract_deregistered
  | NodeHeartbeat node_heartbeat
  | RuntimeTick runtime_tick

datatype topic_direction = Subscribe | Publish

text \<open>The payloads; every intent carries its target and its correlation id.\<close>

datatype cr_payload =
    UpsertContract string string semver string json "string option" string timestamp
      \<comment> \<open>contract id, node name, version, hash, yaml, source node, provenance, time\<close>
  | UpdateTopic string topic_direction string string "string option" timestamp
      \<comment> \<open>topic suffix, direction, contract id, node name, event type, time\<close>
  | DeactivateContract string string string timestamp
  | CleanupTopicReferences string string timestamp
  | UpdateHeartbeat string string "string option" timestamp "seconds option" "int option"
  | MarkStale timestamp timestamp

record cr_intent =
  in_target :: string
  in_correlation_id :: uuid
  in_payload :: cr_payload

record cr_output =
  co_state :: cr_state
  co_intents :: "cr_intent list"
  co_items_processed :: int

definition cr_build_output :: "cr_state \<Rightarrow> cr_intent list \<Rightarrow> int \<Rightarrow> cr_output" where
  "cr_build_output s intents items =
     \<lparr>co_state = s, co_intents = intents, co_items_processed = items\<rparr>"

text \<open>\<open>yaml.safe_load\<close> returns a value, a YAML error, or another Python error.\<close>

datatype yaml_result = Parsed json | YAMLError | OtherYamlError

record cr_externals =
  yaml_load :: "string \<Rightarrow> yaml_result"
  py_repr :: "json \<Rightarrow> string"
  staleness_threshold_seconds :: int

section \<open>Handlers\<close>

definition resolve_correlation_id :: "uuid \<Rightarrow> uuid option \<Rightarrow> uuid" where
  "resolve_correlation_id event_id correlation_id =
     (case correlation_id of None \<Rightarrow> event_id | Some c \<Rightarrow> c)"

definition derive_contract_id :: "string \<Rightarrow> semver \<Rightarrow> string" where
  "derive_contract_id node_name version =
     node_name @ '':'' @ dec_digits (sv_major version) @ ''.'' @ dec_digits (sv_minor version) @
     ''.'' @ dec_digits (sv_patch version)"

definition build_upsert_contract_intent :: "contract_registered \<Rightarrow> uuid \<Rightarrow> string \<Rightarrow> cr_intent" where
  "build_upsert_contract_intent e correlation_id data_provenance =
     (let contract_id = derive_contract_id (ev_node_name e) (ev_node_version e) in
      \<lparr>in_target = ''postgres://contracts/'' @ contract_id, in_correlation_id = correlation_id,
       in_payload = UpsertContract contract_id (ev_node_name e) (ev_node_version e)
         (ev_contract_hash e) (ev_contract_yaml e) (map_option uuid_str (ev_source_node_id e))
         data_provenance (ev_timestamp e)\<rparr>)"

text \<open>One entry of \<open>consumed_events\<close> or \<open>published_events\<close>.\<close>

definition topic_intent ::
  "topic_direction \<Rightarrow> string \<Rightarrow> contract_registered \<Rightarrow> uuid \<Rightarrow> json \<Rightarrow> cr_intent option" where
  "topic_intent direction contract_id e correlation_id entry =
     (case entry of
        JObj _ \<Rightarrow>
          (case json_get entry ''topic'' of
             Some (JStr topic_suffix) \<Rightarrow>
               if topic_suffix = [] then None
               else Some
                 \<lparr>in_target = ''postgres://topics/'' @ topic_suffix, in_correlation_id = correlation_id,
                  in_payload = UpdateTopic topic_suffix direction contract_id (ev_node_name e)
                    (case json_get entry ''event_type'' of Some (JStr t) \<Rightarrow> Some t | _ \<Rightarrow> None)
                    (ev_timestamp e)\<rparr>
           | _ \<Rightarrow> None)
      | _ \<Rightarrow> None)"

definition section_intents ::
  "topic_direction \<Rightarrow> string \<Rightarrow> contract_registered \<Rightarrow> uuid \<Rightarrow> json option \<Rightarrow> cr_intent list" where
  "section_intents direction contract_id e correlation_id events =
     (case events of
        Some (JArr entries) \<Rightarrow>
          List.map_filter (topic_intent direction contract_id e correlation_id) entries
      | _ \<Rightarrow> [])"

definition build_topic_update_intents ::
  "cr_externals \<Rightarrow> contract_registered \<Rightarrow> uuid \<Rightarrow> infra_error + cr_intent list" where
  "build_topic_update_intents X e correlation_id =
     (let contract_id = derive_contract_id (ev_node_name e) (ev_node_version e);
          extract = (\<lambda>contract_yaml.
            section_intents Subscribe contract_id e correlation_id
              (json_get contract_yaml ''consumed_events'') @
            section_intents Publish contract_id e correlation_id
              (json_get contract_yaml ''published_events''))
      in case ev_contract_yaml e of
        JStr raw \<Rightarrow>
          (case yaml_load X raw of
             Parsed (JObj kvs) \<Rightarrow> Ok (extract (JObj kvs))
           | Parsed _ \<Rightarrow> Ok []
           | YAMLError \<Rightarrow> Ok []
           | OtherYamlError \<Rightarrow> Err PyValueError)
      | JObj kvs \<Rightarrow> Ok (extract (JObj kvs))
      | _ \<Rightarrow> Ok [])"

definition on_contract_registered ::
  "cr_externals \<Rightarrow> cr_state \<Rightarrow> contract_registered \<Rightarrow> string \<Rightarrow> int \<Rightarrow> int \<Rightarrow> string
     \<Rightarrow> infra_error + cr_output" where
  "on_contract_registered X s e topic part offset data_provenance =
     (let correlation_id = resolve_correlation_id (ev_event_id e) (ev_correlation_id e);
          upsert_intent = build_upsert_contract_intent e correlation_id data_provenance
      in case build_topic_update_intents X e correlation_id of
           Err err \<Rightarrow> Err err
         | Ok topic_intents \<Rightarrow>
             Ok (cr_build_output
               (with_contract_registered
                 (with_event_processed (ev_event_id e) topic part offset s))
               (upsert_intent # topic_intents) 1))"

definition on_contract_deregistered ::
  "cr_state \<Rightarrow> contract_deregistered \<Rightarrow> string \<Rightarrow> int \<Rightarrow> int \<Rightarrow> cr_output" where
  "on_contract_deregistered s e topic part offset =
     (let correlation_id = resolve_correlation_id (ed_event_id e) (ed_correlation_id e);
          contract_id = derive_contract_id (ed_node_name e) (ed_node_version e);
          deactivate_intent =
            \<lparr>in_target = ''postgres://contracts/'' @ contract_id, in_correlation_id = correlation_id,
             in_payload = DeactivateContract contract_id (ed_node_name e) (ed_reason e)
               (ed_timestamp e)\<rparr>;
          cleanup_intent =
            \<lparr>in_target = ''postgres://topics/cleanup/'' @ contract_id,
             in_correlation_id = correlation_id,
             in_payload = CleanupTopicReferences contract_id (ed_node_name e) (ed_timestamp e)\<rparr>
      in cr_build_output
           (with_deregistration_processed
             (with_event_processed (ed_event_id e) topic part offset s))
           [deactivate_intent, cleanup_intent] 1)"

text \<open>The payload model refuses a negative uptime or sequence number.\<close>

definition on_heartbeat ::
  "cr_state \<Rightarrow> node_heartbeat \<Rightarrow> string \<Rightarrow> int \<Rightarrow> int \<Rightarrow> infra_error + cr_output" where
  "on_heartbeat s e topic part offset =
     (let correlation_id = resolve_correlation_id (eh_event_id e) (eh_correlation_id e);
          contract_id = derive_contract_id (eh_node_name e) (eh_node_version e)
      in if (case eh_uptime_seconds e of None \<Rightarrow> False | Some u \<Rightarrow> u < 0) \<or>
            (case eh_sequence_number e of None \<Rightarrow> False | Some n \<Rightarrow> n < 0)
         then Err ValidationError
         else
           Ok (cr_build_output
             (with_heartbeat_processed
               (with_event_processed (eh_event_id e) topic part offset s))
             [\<lparr>in_target = ''postgres://contracts/'' @ contract_id @ ''/heartbeat'',
               in_correlation_id = correlation_id,
               in_payload = UpdateHeartbeat contract_id (eh_node_name e)
                 (map_option uuid_str (eh_source_node_id e)) (eh_timestamp e)
                 (eh_uptime_seconds e) (eh_sequence_number e)\<rparr>] 1))"

definition on_runtime_tick ::
  "cr_externals \<Rightarrow> cr_state \<Rightarrow> runtime_tick \<Rightarrow> string \<Rightarrow> int \<Rightarrow> int \<Rightarrow> cr_output" where
  "on_runtime_tick X s e topic part offset =
     (let now = et_now e;
          stale_cutoff = now - staleness_threshold_seconds X * usec_per_sec
      in cr_build_output
           (with_staleness_check now
             (with_event_processed (et_tick_id e) topic part offset s))
           [\<lparr>in_target = ''postgres://contracts/stale'', in_correlation_id = et_correlation_id e,
             in_payload = MarkStale stale_cutoff now\<rparr>] 1)"

section \<open>Dispatch\<close>

text \<open>\<open>str(value)\<close> of a JSON value, and the tolerant reading of the Kafka coordinates.\<close>

definition json_str :: "cr_externals \<Rightarrow> json \<Rightarrow> string" where
  "json_str X v =
     (case v of
        JStr t \<Rightarrow> t | JNull \<Rightarrow> ''None'' | JBool b \<Rightarrow> (if b then ''True'' else ''False'')
      | JInt i \<Rightarrow> string_of_int i | _ \<Rightarrow> py_repr X v)"

definition json_int_or_zero :: "json option \<Rightarrow> infra_error + int" where
  "json_int_or_zero v =
     (case v of
        Some (JInt i) \<Rightarrow> Ok i
      | Some (JBool b) \<Rightarrow> Ok (if b then 1 else 0)
      | Some (JStr t) \<Rightarrow> (case py_int t of None \<Rightarrow> Err PyValueError | Some i \<Rightarrow> Ok i)
      | _ \<Rightarrow> Ok 0)"

definition valid_provenance :: "string set" where
  "valid_provenance =
     {''demo_seeded'', ''demo_projected_shortcut'', ''measured'', ''estimated'', ''unknown''}"

definition read_provenance :: "json option \<Rightarrow> string" where
  "read_provenance v =
     (case v of
        Some (JStr t) \<Rightarrow> if t \<in> valid_provenance then t else ''unknown''
      | _ \<Rightarrow> ''unknown'')"

definition cr_reduce ::
  "cr_externals \<Rightarrow> cr_state \<Rightarrow> cr_event \<Rightarrow> (string, json) py_dict \<Rightarrow> infra_error + cr_output" where
  "cr_reduce X s event event_metadata =
     (let topic = (case dict_get event_metadata ''topic'' of None \<Rightarrow> [] | Some v \<Rightarrow> json_str X v);
          data_provenance = read_provenance (dict_get event_metadata ''data_provenance'')
      in case json_int_or_zero (dict_get event_metadata ''partition'') of
           Err err \<Rightarrow> Err err
         | Ok part \<Rightarrow>
             (case json_int_or_zero (dict_get event_metadata ''offset'') of
                Err err \<Rightarrow> Err err
              | Ok offset \<Rightarrow>
                  if is_duplicate_position s topic part offset then Ok (cr_build_output s [] 0)
                  else
                    (case event of
                       ContractRegistered e \<Rightarrow>
                         on_contract_registered X s e topic part offset data_provenance
                     | ContractDeregistered e \<Rightarrow>
                         Ok (on_contract_deregistered s e topic part offset)
                     | NodeHeartbeat e \<Rightarrow> on_heartbeat s e topic part offset
                     | RuntimeTick e \<Rightarrow> Ok (on_runtime_tick X s e topic part offset))))"

lemmas cr_ops =
  on_contract_registered_def on_contract_deregistered_def on_heartbeat_def on_runtime_tick_def
  with_event_processed_def with_contract_registered_def with_heartbeat_processed_def
  with_deregistration_processed_def with_staleness_check_def cr_build_output_def

text \<open>\<open>Some\<close> of the coordinates and whether the handler raises; neither depends on the state.\<close>

definition position_of ::
  "cr_externals \<Rightarrow> (string, json) py_dict \<Rightarrow> (string \<times> int \<times> int) option" where
  "position_of X md =
     (case (json_int_or_zero (dict_get md ''partition''), json_int_or_zero (dict_get md ''offset'')) of
        (Ok p, Ok n) \<Rightarrow>
          Some ((case dict_get md ''topic'' of None \<Rightarrow> [] | Some v \<Rightarrow> json_str X v), p, n)
      | _ \<Rightarrow> None)"

definition raises :: "cr_externals \<Rightarrow> cr_event \<Rightarrow> bool" where
  "raises X event =
     (case event of
        ContractRegistered e \<Rightarrow>
          isl (build_topic_update_intents X e (resolve_correlation_id (ev_event_id e) (ev_correlation_id e)))
      | NodeHeartbeat e \<Rightarrow>
          (case eh_uptime_seconds e of None \<Rightarrow> False | Some u \<Rightarrow> u < 0) \<or>
          (case eh_sequence_number e of None \<Rightarrow> False | Some n \<Rightarrow> n < 0)
      | _ \<Rightarrow> False)"

lemma raises_handlers:
  "raises X event \<Longrightarrow> position_of X md = Some (t, p, n) \<Longrightarrow>
     isl (cr_reduce X s event md) \<or> cr_reduce X s event md = Ok (cr_build_output s [] 0)"
  by (cases event)
     (auto simp: raises_def position_of_def cr_reduce_def on_contract_registered_def on_heartbeat_def
       Let_def isl_def split: sum.splits if_splits)

definition cr_step :: "cr_externals \<Rightarrow> cr_state \<Rightarrow> cr_event \<times> (string, json) py_dict \<Rightarrow> cr_state \<times> cr_intent list"
  where
  "cr_step X s m =
     (case cr_reduce X s (fst m) (snd m) of
        Err _ \<Rightarrow> (s, [])
      | Ok r \<Rightarrow> (co_state r, co_intents r))"

definition cr_seen :: "cr_externals \<Rightarrow> cr_state \<Rightarrow> cr_event \<times> (string, json) py_dict \<Rightarrow> bool" where
  "cr_seen X s m =
     (case position_of X (snd m) of
        None \<Rightarrow> True
      | Some (t, p, n) \<Rightarrow> raises X (fst m) \<or> is_duplicate_position s t p n)"

lemma cr_seen_noop: "cr_seen X s m \<Longrightarrow> cr_step X s m = (s, [])"
proof -
  assume seen: "cr_seen X s m"
  show ?thesis
  proof (cases "position_of X (snd m)")
    case None
    then have "isl (cr_reduce X s (fst m) (snd m))"
      by (auto simp: position_of_def cr_reduce_def Let_def split: sum.splits)
    then show ?thesis by (auto simp: cr_step_def isl_def)
  next
    case (Some q)
    then obtain t p n where q: "position_of X (snd m) = Some (t, p, n)" by (cases q) auto
    show ?thesis
    proof (cases "raises X (fst m)")
      case True
      from raises_handlers [OF True q, of s] show ?thesis
        by (auto simp: cr_step_def isl_def cr_build_output_def)
    next
      case False
      then have "is_duplicate_position s t p n" using seen q by (simp add: cr_seen_def)
      then have "cr_reduce X s (fst m) (snd m) = Ok (cr_build_output s [] 0)"
        using q by (auto simp: position_of_def cr_reduce_def Let_def split: sum.splits)
      then show ?thesis by (simp add: cr_step_def cr_build_output_def)
    qed
  qed
qed

lemma cr_step_accepts:
  assumes "position_of X (snd m) = Some (t, p, n)" "\<not> cr_seen X s m"
  shows "cr_positions (fst (cr_step X s m)) = dict_put (position_key t p) n (cr_positions s) \<and>
    snd (cr_step X s m) \<noteq> []"
proof -
  have "\<not> raises X (fst m)" "\<not> is_duplicate_position s t p n"
    using assms by (simp_all add: cr_seen_def)
  then show ?thesis
    using assms(1)
    by (cases "fst m")
       (auto simp: cr_step_def cr_reduce_def position_of_def raises_def cr_ops Let_def
         split: sum.splits if_splits)
qed

lemma cr_duplicate_mono:
  assumes "is_duplicate_position s t p n"
  shows "is_duplicate_position (fst (cr_step X s m)) t p n"
proof (cases "cr_seen X s m")
  case True
  then show ?thesis using assms by (simp add: cr_seen_noop)
next
  case False
  then obtain t' p' n' where m: "position_of X (snd m) = Some (t', p', n')"
    by (auto simp: cr_seen_def split: option.splits)
  then have "\<not> is_duplicate_position s t' p' n'" using False by (simp add: cr_seen_def)
  with cr_step_accepts [OF m False] assms show ?thesis
    by (cases "position_key t p = position_key t' p'")
       (auto simp: is_duplicate_position_def dict_get_put split: option.splits)
qed

interpretation cr_log: log_reducer "cr_step X" "cr_seen X"
proof unfold_locales
  fix s m
  show "cr_seen X s m \<Longrightarrow> cr_step X s m = (s, [])" by (rule cr_seen_noop)
  show "cr_seen X (fst (cr_step X s m)) m"
  proof (cases "cr_seen X s m")
    case True
    then show ?thesis by (simp add: cr_seen_noop)
  next
    case False
    then obtain t p n where m: "position_of X (snd m) = Some (t, p, n)"
      by (auto simp: cr_seen_def split: option.splits)
    with cr_step_accepts [OF m False] show ?thesis
      by (simp add: cr_seen_def is_duplicate_position_def dict_get_put)
  qed
next
  fix s m m'
  show "cr_seen X s m \<Longrightarrow> cr_seen X (fst (cr_step X s m')) m"
    by (auto simp: cr_seen_def cr_duplicate_mono split: option.splits)
qed

section \<open>Properties\<close>

text \<open>
  C7: the projection tolerates at-least-once delivery across interleaved topics: feeding any
  events a second time, in any order and number, after a stream that contained them, changes
  neither the state nor the intents sent to PostgreSQL.
\<close>
theorem contract_replay:
  assumes "set ys \<subseteq> set xs"
  shows "run_reducer (cr_step X) s (xs @ ys) = run_reducer (cr_step X) s xs"
  by (rule cr_log.run_replay [OF assms])

definition sample_cr :: cr_externals where
  "sample_cr = \<lparr>yaml_load = \<lambda>_. YAMLError, py_repr = \<lambda>_. [], staleness_threshold_seconds = 300\<rparr>"

definition tick_at :: "string \<Rightarrow> int \<Rightarrow> int \<Rightarrow> cr_event \<times> (string, json) py_dict" where
  "tick_at topic part offset =
     (RuntimeTick \<lparr>et_tick_id = 1, et_correlation_id = 2, et_now = 1000\<rparr>,
      [(''topic'', JStr topic), (''partition'', JInt part), (''offset'', JInt offset)])"

theorem contract_replay_witness:
  "run_reducer (cr_step sample_cr) initial_cr_state
     ([tick_at ''a'' 0 100, tick_at ''b'' 0 50] @ [tick_at ''a'' 0 100]) =
   run_reducer (cr_step sample_cr) initial_cr_state [tick_at ''a'' 0 100, tick_at ''b'' 0 50]"
  using contract_replay [of "[tick_at ''a'' 0 100]" "[tick_at ''a'' 0 100, tick_at ''b'' 0 50]"] by simp

lemma position_key_inject: "position_key t p = position_key t' p' \<longleftrightarrow> t = t' \<and> p = p'"
  using last_delimiter_inject [of "CHR '':''" "string_of_int p" "string_of_int p'" t t']
  by (auto simp: position_key_def)

text \<open>The offsets of a topic and partition among the events that are not refused.\<close>

definition offsets_of ::
  "cr_externals \<Rightarrow> (cr_event \<times> (string, json) py_dict) list \<Rightarrow> string \<Rightarrow> int \<Rightarrow> int list" where
  "offsets_of X es t p =
     List.map_filter (\<lambda>m. case position_of X (snd m) of
         Some (t', p', n) \<Rightarrow> if \<not> raises X (fst m) \<and> t' = t \<and> p' = p then Some n else None
       | None \<Rightarrow> None) es"

lemma offsets_of_snoc:
  "offsets_of X (es @ [m]) t p = offsets_of X es t p @
     (case position_of X (snd m) of
        Some (t', p', n) \<Rightarrow> if \<not> raises X (fst m) \<and> t' = t \<and> p' = p then [n] else []
      | None \<Rightarrow> [])"
  by (auto simp: offsets_of_def List.map_filter_def split: option.splits)

lemma run_reducer_snoc_state:
  "fst (run_reducer r s (es @ [e])) = fst (r (fst (run_reducer r s es)) e)"
  by (simp add: run_reducer_append split_beta)

text \<open>
  the stored position of a topic and partition is exactly the highest offset seen there so far
  (and absent before the first event): interleaving with other topics, whatever their names,
  never disturbs it.
\<close>
lemma position_is_highest_offset:
  "dict_get (cr_positions (fst (run_reducer (cr_step X) initial_cr_state es))) (position_key t p) =
     (if offsets_of X es t p = [] then None else Some (Max (set (offsets_of X es t p))))"
proof (induction es rule: rev_induct)
  case Nil
  then show ?case by (simp add: initial_cr_state_def offsets_of_def)
next
  case (snoc m es)
  let ?s = "fst (run_reducer (cr_step X) initial_cr_state es)"
  show ?case
  proof (cases "position_of X (snd m)")
    case None
    then have "cr_seen X ?s m" by (simp add: cr_seen_def)
    then show ?thesis
      using snoc None by (simp add: run_reducer_snoc_state cr_seen_noop offsets_of_snoc)
  next
    case (Some q)
    then obtain t' p' n where m: "position_of X (snd m) = Some (t', p', n)" by (cases q) auto
    show ?thesis
    proof (cases "raises X (fst m)")
      case True
      then have "cr_seen X ?s m" using m by (simp add: cr_seen_def)
      then show ?thesis
        using snoc True m by (simp add: run_reducer_snoc_state cr_seen_noop offsets_of_snoc)
    next
      case ok: False
      show ?thesis
      proof (cases "cr_seen X ?s m")
        case True
        then have dup: "is_duplicate_position ?s t' p' n" using m ok by (simp add: cr_seen_def)
        then have "t' = t \<Longrightarrow> p' = p \<Longrightarrow> offsets_of X es t p \<noteq> [] \<and> n \<le> Max (set (offsets_of X es t p))"
          using snoc by (auto simp: is_duplicate_position_def split: option.splits if_splits)
        then show ?thesis
          using snoc True m ok by (auto simp: run_reducer_snoc_state cr_seen_noop offsets_of_snoc)
      next
        case False
        then have fresh: "\<not> is_duplicate_position ?s t' p' n" using m by (simp add: cr_seen_def)
        then have "t' = t \<Longrightarrow> p' = p \<Longrightarrow> offsets_of X es t p \<noteq> [] \<Longrightarrow>
            \<forall>a \<in> set (offsets_of X es t p). a < n"
          using snoc by (auto simp: is_duplicate_position_def not_le)
        then show ?thesis
          using snoc cr_step_accepts [OF m False] m ok
          by (auto simp: run_reducer_snoc_state offsets_of_snoc dict_get_put position_key_inject)
      qed
    qed
  qed
qed

lemma no_dot_dec_digits: "CHR ''.'' \<notin> set (dec_digits n)" "CHR '':'' \<notin> set (dec_digits n)"
  by (simp_all add: is_dec_digit_def)

text \<open>
  the contract identity is a faithful natural key: two registrations, heartbeats or
  deregistrations address the same contract row exactly when node name and semantic version
  agree, even when node names contain colons, dots or digits.
\<close>
lemma contract_identity:
  "derive_contract_id name v = derive_contract_id name' v' \<longleftrightarrow> name = name' \<and> v = v'"
proof
  assume eq: "derive_contract_id name v = derive_contract_id name' v'"
  let ?tail = "\<lambda>v. dec_digits (sv_major v) @ ''.'' @ dec_digits (sv_minor v) @ ''.'' @ dec_digits (sv_patch v)"
  have "name = name' \<and> ?tail v = ?tail v'"
    by (rule last_delimiter_inject [of "CHR '':''"])
       (use eq no_dot_dec_digits in \<open>auto simp: derive_contract_id_def\<close>)
  then have "name = name'" and tail: "?tail v = ?tail v'" by simp_all
  have major: "sv_major v = sv_major v' \<and> dec_digits (sv_minor v) @ ''.'' @ dec_digits (sv_patch v) =
      dec_digits (sv_minor v') @ ''.'' @ dec_digits (sv_patch v')"
    using first_delimiter_inject [OF no_dot_dec_digits(1) no_dot_dec_digits(1), of "sv_major v" _ "sv_major v'"]
      tail by (metis append_Cons append_Nil dec_digits_inject)
  then have "sv_minor v = sv_minor v' \<and> sv_patch v = sv_patch v'"
    using first_delimiter_inject [OF no_dot_dec_digits(1) no_dot_dec_digits(1), of "sv_minor v" _ "sv_minor v'"]
    by (metis append_Cons append_Nil dec_digits_inject)
  with major \<open>name = name'\<close> show "name = name' \<and> v = v'" by simp
qed simp

definition event_entry :: "string \<times> string option \<Rightarrow> json" where
  "event_entry x = JObj ((''topic'', JStr (fst x)) #
     (case snd x of None \<Rightarrow> [] | Some t \<Rightarrow> [(''event_type'', JStr t)]))"

definition topic_update ::
  "contract_registered \<Rightarrow> topic_direction \<Rightarrow> string \<times> string option \<Rightarrow> cr_payload" where
  "topic_update e direction x =
     UpdateTopic (fst x) direction (derive_contract_id (ev_node_name e) (ev_node_version e))
       (ev_node_name e) (snd x) (ev_timestamp e)"

lemma section_intents_entries:
  assumes "\<forall>x \<in> set xs. fst x \<noteq> []"
  shows "map in_payload (section_intents d (derive_contract_id (ev_node_name e) (ev_node_version e)) e c
      (Some (JArr (map event_entry xs)))) = map (topic_update e d) xs"
proof -
  have "topic_intent d cid e c (event_entry x) = Some
      \<lparr>in_target = ''postgres://topics/'' @ fst x, in_correlation_id = c,
       in_payload = UpdateTopic (fst x) d cid (ev_node_name e) (snd x) (ev_timestamp e)\<rparr>"
    if "x \<in> set xs" for x cid
    using assms that by (cases "snd x") (auto simp: topic_intent_def event_entry_def)
  then show ?thesis
    by (induction xs) (simp_all add: section_intents_def topic_update_def)
qed

text \<open>
  registering a contract publishes its whole topic wiring: one upsert of the contract, then
  one update per consumed topic and one per published topic, in the order of the contract, with
  its direction, event type and contract identity, and nothing else; and it advances the
  statistics and the position by exactly this event.
\<close>
lemma registration_wires_topics:
  assumes "ev_contract_yaml e = JObj [(''consumed_events'', JArr (map event_entry cs)),
      (''published_events'', JArr (map event_entry ps))]"
    and "\<forall>x \<in> set cs \<union> set ps. fst x \<noteq> []"
  shows "\<exists>r up. on_contract_registered X s e topic part offset prov = Ok r \<and>
    map in_payload (co_intents r) = up # map (topic_update e Subscribe) cs @ map (topic_update e Publish) ps \<and>
    up = UpsertContract (derive_contract_id (ev_node_name e) (ev_node_version e)) (ev_node_name e)
      (ev_node_version e) (ev_contract_hash e) (ev_contract_yaml e)
      (map_option uuid_str (ev_source_node_id e)) prov (ev_timestamp e) \<and>
    cr_contracts_processed (co_state r) = cr_contracts_processed s + 1 \<and>
    dict_get (cr_positions (co_state r)) (position_key topic part) = Some offset"
  using assms(2)
  by (auto simp: on_contract_registered_def build_topic_update_intents_def assms(1) cr_build_output_def
      build_upsert_contract_intent_def with_contract_registered_def with_event_processed_def
      section_intents_entries dict_get_put Let_def)

definition sample_contract :: contract_registered where
  "sample_contract = \<lparr>ev_event_id = 1, ev_correlation_id = None, ev_node_name = ''node'',
     ev_node_version = \<lparr>sv_major = 1, sv_minor = 0, sv_patch = 2\<rparr>, ev_contract_hash = ''h'',
     ev_contract_yaml = JObj [(''consumed_events'', JArr (map event_entry [(''t.in'', None)])),
       (''published_events'', JArr (map event_entry [(''t.out'', Some ''E'')]))],
     ev_source_node_id = None, ev_timestamp = 7\<rparr>"

end
