(* ===== verification/SessionState.thy ===== *)
theory SessionState imports Interfaces InfraErrors begin

text \<open>
  Session state: the run-id allowlist and run contexts of
  \<^verbatim>\<open>nodes/node_session_state_effect/models/model_run_context.py\<close>, the session index of
  \<^verbatim>\<open>model_session_index.py\<close>, and the lifecycle automaton of
  \<^verbatim>\<open>nodes/node_session_lifecycle_reducer/models/model_session_lifecycle_state.py\<close>.
\<close>

section \<open>Run identifiers\<close>

definition run_id_char :: "char \<Rightarrow> bool" where
  "run_id_char c \<longleftrightarrow>
     (let n = of_char c :: nat in
      97 \<le> n \<and> n \<le> 122 \<or> 65 \<le> n \<and> n \<le> 90 \<or> 48 \<le> n \<and> n \<le> 57) \<or>
     c \<in> {CHR ''.'', CHR ''_'', CHR ''-''}"

text \<open>
  \<open>re.match\<close> with a final \<open>$\<close>: the dollar also matches before one newline at the end of the text.
\<close>

definition run_id_pattern :: "string \<Rightarrow> bool" where
  "run_id_pattern value =
     (let body = (if value \<noteq> [] \<and> last value = CHR 0x0A then butlast value else value) in
      body \<noteq> [] \<and> list_all run_id_char body)"

definition validate_run_id :: "string \<Rightarrow> infra_error + string" where
  "validate_run_id value =
     (if \<not> run_id_pattern value then Err PyValueError
      else if contains_text ''..'' value then Err PyValueError
      else Ok value)"

section \<open>Lifecycle automaton\<close>

datatype session_status = S_IDLE | S_RUN_CREATED | S_RUN_ACTIVE | S_RUN_ENDED

record session_state =
  ss_status :: session_status
  ss_run_id :: "string option"
  ss_last_event :: "uuid option"

definition initial_session :: session_state where
  "initial_session = \<lparr>ss_status = S_IDLE, ss_run_id = None, ss_last_event = None\<rparr>"

definition make_transition_error :: "uuid \<Rightarrow> infra_error" where
  "make_transition_error fresh =
     RuntimeHostError (with_correlation fresh None (Some RUNTIME) (Some ''state_transition'') None)"

definition can_create_run :: "session_state \<Rightarrow> bool" where
  "can_create_run s \<longleftrightarrow> ss_status s = S_IDLE"

definition can_activate_run :: "session_state \<Rightarrow> bool" where
  "can_activate_run s \<longleftrightarrow> ss_status s = S_RUN_CREATED \<and> ss_run_id s \<noteq> None"

definition can_end_run :: "session_state \<Rightarrow> bool" where
  "can_end_run s \<longleftrightarrow> ss_status s = S_RUN_ACTIVE \<and> ss_run_id s \<noteq> None"

definition can_reset_session :: "session_state \<Rightarrow> bool" where
  "can_reset_session s \<longleftrightarrow> ss_status s = S_RUN_ENDED"

definition is_duplicate_session_event :: "session_state \<Rightarrow> uuid \<Rightarrow> bool" where
  "is_duplicate_session_event s event_id \<longleftrightarrow> ss_last_event s = Some event_id"

definition with_run_created :: "uuid \<Rightarrow> string \<Rightarrow> uuid \<Rightarrow> session_state \<Rightarrow> infra_error + session_state" where
  "with_run_created fresh run_id event_id s =
     (if \<not> can_create_run s then Err (make_transition_error fresh)
      else case validate_run_id run_id of
        Err e \<Rightarrow> Err e
      | Ok _ \<Rightarrow>
          Ok \<lparr>ss_status = S_RUN_CREATED, ss_run_id = Some run_id, ss_last_event = Some event_id\<rparr>)"

text \<open>\<open>not self.run_id\<close> holds for an absent and for an empty identifier.\<close>

definition run_id_missing :: "session_state \<Rightarrow> bool" where
  "run_id_missing s \<longleftrightarrow> ss_run_id s = None \<or> ss_run_id s = Some []"

definition with_run_activated :: "uuid \<Rightarrow> uuid \<Rightarrow> session_state \<Rightarrow> infra_error + session_state" where
  "with_run_activated fresh event_id s =
     (if ss_status s = S_RUN_CREATED \<and> run_id_missing s then Err (make_transition_error fresh)
      else if \<not> can_activate_run s then Err (make_transition_error fresh)
      else Ok \<lparr>ss_status = S_RUN_ACTIVE, ss_run_id = ss_run_id s, ss_last_event = Some event_id\<rparr>)"

definition with_run_ended :: "uuid \<Rightarrow> uuid \<Rightarrow> session_state \<Rightarrow> infra_error + session_state" where
  "with_run_ended fresh event_id s =
     (if ss_status s = S_RUN_ACTIVE \<and> run_id_missing s then Err (make_transition_error fresh)
      else if \<not> can_end_run s then Err (make_transition_error fresh)
      else Ok \<lparr>ss_status = S_RUN_ENDED, ss_run_id = ss_run_id s, ss_last_event = Some event_id\<rparr>)"

definition with_session_reset :: "uuid \<Rightarrow> uuid \<Rightarrow> session_state \<Rightarrow> infra_error + session_state" where
  "with_session_reset fresh event_id s =
     (if \<not> can_reset_session s then Err (make_transition_error fresh)
      else Ok \<lparr>ss_status = S_IDLE, ss_run_id = None, ss_last_event = Some event_id\<rparr>)"

datatype session_op =
    CreateRun string uuid | ActivateRun uuid | EndRun uuid | ResetRun uuid

fun session_apply :: "uuid \<Rightarrow> session_op \<Rightarrow> session_state \<Rightarrow> infra_error + session_state" where
  "session_apply fresh (CreateRun run_id u) s = with_run_created fresh run_id u s"
| "session_apply fresh (ActivateRun u) s = with_run_activated fresh u s"
| "session_apply fresh (EndRun u) s = with_run_ended fresh u s"
| "session_apply fresh (ResetRun u) s = with_session_reset fresh u s"

fun session_run :: "uuid \<Rightarrow> session_op list \<Rightarrow> session_state \<Rightarrow> infra_error + session_state" where
  "session_run fresh [] s = Ok s"
| "session_run fresh (op # ops) s =
     (case session_apply fresh op s of Err e \<Rightarrow> Err e | Ok s' \<Rightarrow> session_run fresh ops s')"

lemmas session_ops =
  with_run_created_def with_run_activated_def with_run_ended_def with_session_reset_def
  can_create_run_def can_activate_run_def can_end_run_def can_reset_session_def run_id_missing_def

section \<open>Run contexts\<close>

record run_context =
  rc_run_id :: string
  rc_status :: session_status
  rc_created_at :: timestamp
  rc_updated_at :: timestamp
  rc_metadata :: "(string, json) py_dict"

text \<open>
  Construction validates the run id and copies the metadata (a value here, so the copy is the
  value itself). A validator's error surfaces as pydantic's validation error.
\<close>

definition mk_run_context :: "run_context \<Rightarrow> infra_error + run_context" where
  "mk_run_context c =
     (case validate_run_id (rc_run_id c) of Err _ \<Rightarrow> Err ValidationError | Ok _ \<Rightarrow> Ok c)"

definition rc_with_status :: "timestamp \<Rightarrow> session_status \<Rightarrow> run_context \<Rightarrow> infra_error + run_context" where
  "rc_with_status now status c = mk_run_context (c\<lparr>rc_status := status, rc_updated_at := now\<rparr>)"

definition rc_with_metadata ::
  "timestamp \<Rightarrow> string \<Rightarrow> json \<Rightarrow> run_context \<Rightarrow> infra_error + run_context" where
  "rc_with_metadata now key v c =
     mk_run_context (c\<lparr>rc_updated_at := now, rc_metadata := dict_put key v (rc_metadata c)\<rparr>)"

definition rc_is_stale :: "timestamp \<Rightarrow> seconds \<Rightarrow> run_context \<Rightarrow> bool" where
  "rc_is_stale now ttl_seconds c \<longleftrightarrow>
     real_of_int (now - rc_updated_at c) / real_of_int usec_per_sec \<ge> ttl_seconds"

section \<open>Session index\<close>

record session_index =
  si_active_run_id :: "string option"
  si_recent_run_ids :: "string list"
  si_updated_at :: timestamp

text \<open>\<open>dict.fromkeys\<close>: the first occurrence of every element, in order.\<close>

definition first_occurrences :: "'a list \<Rightarrow> 'a list" where
  "first_occurrences xs = rev (remdups (rev xs))"

definition run_id_ok :: "string \<Rightarrow> bool" where
  "run_id_ok v \<longleftrightarrow> \<not> isl (validate_run_id v)"

definition mk_session_index :: "session_index \<Rightarrow> infra_error + session_index" where
  "mk_session_index i =
     (if (case si_active_run_id i of None \<Rightarrow> False | Some a \<Rightarrow> \<not> run_id_ok a) \<or>
         \<not> list_all run_id_ok (si_recent_run_ids i)
      then Err ValidationError
      else Ok (i\<lparr>si_recent_run_ids := first_occurrences (si_recent_run_ids i)\<rparr>))"

definition max_recent_runs :: nat where
  "max_recent_runs = 1000"

definition with_run_added ::
  "timestamp \<Rightarrow> string \<Rightarrow> bool \<Rightarrow> session_index \<Rightarrow> infra_error + session_index" where
  "with_run_added now run_id set_active i =
     (case validate_run_id run_id of
        Err e \<Rightarrow> Err e
      | Ok _ \<Rightarrow>
          let ids = take max_recent_runs
                (run_id # filter (\<lambda>rid. rid \<noteq> run_id) (si_recent_run_ids i));
              active = (if set_active then Some run_id else si_active_run_id i);
              active' = (case active of None \<Rightarrow> None | Some a \<Rightarrow> if a \<notin> set ids then None else active)
          in mk_session_index
               \<lparr>si_active_run_id = active', si_recent_run_ids = ids, si_updated_at = now\<rparr>)"

definition with_run_removed :: "timestamp \<Rightarrow> string \<Rightarrow> session_index \<Rightarrow> infra_error + session_index" where
  "with_run_removed now run_id i =
     mk_session_index
       \<lparr>si_active_run_id = (if si_active_run_id i = Some run_id then None else si_active_run_id i),
        si_recent_run_ids = filter (\<lambda>rid. rid \<noteq> run_id) (si_recent_run_ids i), si_updated_at = now\<rparr>"

definition with_active_run :: "timestamp \<Rightarrow> string \<Rightarrow> session_index \<Rightarrow> infra_error + session_index" where
  "with_active_run now run_id i =
     (if run_id \<notin> set (si_recent_run_ids i) then Err PyValueError
      else mk_session_index
        \<lparr>si_active_run_id = Some run_id, si_recent_run_ids = si_recent_run_ids i, si_updated_at = now\<rparr>)"

datatype index_op = AddRun string bool | RemoveRun string | SelectRun string

inductive index_step :: "index_op \<Rightarrow> session_index \<Rightarrow> session_index \<Rightarrow> bool" where
  add: "with_run_added now r act i = Ok i' \<Longrightarrow> index_step (AddRun r act) i i'"
| remove: "with_run_removed now r i = Ok i' \<Longrightarrow> index_step (RemoveRun r) i i'"
| select: "with_active_run now r i = Ok i' \<Longrightarrow> index_step (SelectRun r) i i'"

definition empty_index :: "session_index \<Rightarrow> bool" where
  "empty_index i \<longleftrightarrow> si_active_run_id i = None \<and> si_recent_run_ids i = []"

definition index_inv :: "session_index \<Rightarrow> bool" where
  "index_inv i \<longleftrightarrow>
     distinct (si_recent_run_ids i) \<and> length (si_recent_run_ids i) \<le> max_recent_runs \<and>
     list_all run_id_ok (si_recent_run_ids i) \<and>
     (\<forall>a. si_active_run_id i = Some a \<longrightarrow> a \<in> set (si_recent_run_ids i))"

lemma first_occurrences_distinct [simp]: "distinct xs \<Longrightarrow> first_occurrences xs = xs"
  by (simp add: first_occurrences_def distinct_remdups_id)

lemma index_inv_mk:
  "mk_session_index i = Ok i' \<Longrightarrow> index_inv i \<Longrightarrow> i' = i"
  by (auto simp: mk_session_index_def index_inv_def split: if_splits)

lemma index_inv_added:
  assumes "index_inv i" "with_run_added now r act i = Ok i'"
  shows "index_inv i'"
proof -
  let ?ids = "take max_recent_runs (r # filter (\<lambda>rid. rid \<noteq> r) (si_recent_run_ids i))"
  have r: "run_id_ok r"
    using assms(2) by (auto simp: with_run_added_def run_id_ok_def split: sum.splits)
  have ids: "distinct ?ids" "length ?ids \<le> max_recent_runs" "list_all run_id_ok ?ids"
    using assms(1) r by (auto simp: index_inv_def list_all_iff dest!: set_take_subset [THEN subsetD])
  then show ?thesis
    using assms(2)
    by (auto simp: with_run_added_def mk_session_index_def index_inv_def Let_def
        split: sum.splits if_splits option.splits)
qed

lemma index_inv_removed:
  assumes "index_inv i" "with_run_removed now r i = Ok i'"
  shows "index_inv i'"
proof -
  let ?j = "\<lparr>si_active_run_id = (if si_active_run_id i = Some r then None else si_active_run_id i),
        si_recent_run_ids = filter (\<lambda>rid. rid \<noteq> r) (si_recent_run_ids i), si_updated_at = now\<rparr>"
  have "index_inv ?j"
    using assms(1) by (auto simp: index_inv_def list_all_iff intro: order_trans [OF length_filter_le])
  then show ?thesis using assms(2) index_inv_mk [of ?j i'] by (simp add: with_run_removed_def)
qed

lemma index_inv_selected:
  assumes "index_inv i" "with_active_run now r i = Ok i'"
  shows "index_inv i'"
proof -
  let ?j = "\<lparr>si_active_run_id = Some r, si_recent_run_ids = si_recent_run_ids i, si_updated_at = now\<rparr>"
  have "r \<in> set (si_recent_run_ids i)" "mk_session_index ?j = Ok i'"
    using assms(2) by (simp_all add: with_active_run_def split: if_splits)
  moreover from this(1) have "index_inv ?j" using assms(1) by (simp add: index_inv_def)
  ultimately show ?thesis using index_inv_mk [of ?j i'] by simp
qed

interpretation index_machine: invariant_machine empty_index index_step index_inv
proof unfold_locales
  show "empty_index i \<Longrightarrow> index_inv i" for i by (simp add: empty_index_def index_inv_def)
next
  fix op i i'
  assume "index_step op i i'" "index_inv i"
  then show "index_inv i'"
    by (cases rule: index_step.cases)
       (auto intro: index_inv_added index_inv_removed index_inv_selected)
qed

section \<open>Properties\<close>

text \<open>
  C39: the session index stays tidy under any sequence of additions, removals and selections that
  starts from an empty index: no run is listed twice, at most a thousand are kept, every
  listed id passes the allowlist, and the active run is always one of the listed ones.
\<close>
theorem session_index_ok:
  assumes "reach empty_index index_step i"
  shows "distinct (si_recent_run_ids i) \<and> length (si_recent_run_ids i) \<le> 1000 \<and>
    (\<forall>r \<in> set (si_recent_run_ids i). validate_run_id r = Ok r) \<and>
    (\<forall>a. si_active_run_id i = Some a \<longrightarrow> a \<in> set (si_recent_run_ids i))"
proof -
  have "validate_run_id r = Ok r" if "run_id_ok r" for r
    using that by (auto simp: run_id_ok_def validate_run_id_def split: if_splits)
  then show ?thesis
    using index_machine.reach_inv [OF assms]
    by (auto simp: index_inv_def max_recent_runs_def list_all_iff)
qed

definition no_runs :: session_index where
  "no_runs = \<lparr>si_active_run_id = None, si_recent_run_ids = [], si_updated_at = 0\<rparr>"

lemma run_id_a: "validate_run_id ''a'' = Ok ''a''"
  by (simp add: validate_run_id_def run_id_pattern_def run_id_char_def)

theorem session_index_ok_witness:
  "\<exists>i. with_run_added 5 ''a'' True no_runs = Ok i \<and> si_active_run_id i = Some ''a'' \<and>
     ''a'' \<in> set (si_recent_run_ids i) \<and> distinct (si_recent_run_ids i)"
proof -
  obtain i where i: "with_run_added 5 ''a'' True no_runs = Ok i" "si_active_run_id i = Some ''a''"
    by (simp add: with_run_added_def run_id_a no_runs_def mk_session_index_def run_id_ok_def
        max_recent_runs_def Let_def)
  have "empty_index no_runs" by (simp add: empty_index_def no_runs_def)
  then have "reach empty_index index_step i"
    by (rule reach.reach_step [where e = "AddRun ''a'' True", OF reach.reach_init])
       (rule index_step.add [OF i(1)])
  from session_index_ok [OF this] i show ?thesis by blast
qed

text \<open>The phase an operation belongs to.\<close>

fun op_phase :: "session_op \<Rightarrow> nat" where
  "op_phase (CreateRun r u) = 0"
| "op_phase (ActivateRun u) = 1"
| "op_phase (EndRun u) = 2"
| "op_phase (ResetRun u) = 3"

fun status_phase :: "session_status \<Rightarrow> nat" where
  "status_phase S_IDLE = 0"
| "status_phase S_RUN_CREATED = 1"
| "status_phase S_RUN_ACTIVE = 2"
| "status_phase S_RUN_ENDED = 3"

definition session_inv :: "session_state \<Rightarrow> bool" where
  "session_inv s \<longleftrightarrow>
     (case ss_run_id s of
        None \<Rightarrow> ss_status s = S_IDLE
      | Some r \<Rightarrow> ss_status s \<noteq> S_IDLE \<and> run_id_ok r)"

lemma session_apply_ok:
  assumes "session_inv s"
  shows "(\<exists>s'. session_apply fresh op s = Ok s') \<longleftrightarrow>
      op_phase op = status_phase (ss_status s) \<and>
      (\<forall>r u. op = CreateRun r u \<longrightarrow> run_id_ok r)"
    and "session_apply fresh op s = Ok s' \<Longrightarrow>
      session_inv s' \<and> status_phase (ss_status s') = (status_phase (ss_status s) + 1) mod 4 \<and>
      (ss_run_id s' = (case op of CreateRun r u \<Rightarrow> Some r | ResetRun u \<Rightarrow> None | _ \<Rightarrow> ss_run_id s))"
proof -
  have ne: "run_id_ok r \<Longrightarrow> r \<noteq> []" for r
    by (auto simp: run_id_ok_def validate_run_id_def run_id_pattern_def)
  show "(\<exists>s'. session_apply fresh op s = Ok s') \<longleftrightarrow>
      op_phase op = status_phase (ss_status s) \<and>
      (\<forall>r u. op = CreateRun r u \<longrightarrow> run_id_ok r)"
    using assms ne
    by (cases op; cases "ss_status s")
       (auto simp: session_ops session_inv_def run_id_ok_def isl_def split: sum.splits option.splits)
  show "session_apply fresh op s = Ok s' \<Longrightarrow>
      session_inv s' \<and> status_phase (ss_status s') = (status_phase (ss_status s) + 1) mod 4 \<and>
      (ss_run_id s' = (case op of CreateRun r u \<Rightarrow> Some r | ResetRun u \<Rightarrow> None | _ \<Rightarrow> ss_run_id s))"
    using assms
    by (cases op; cases "ss_status s")
       (auto simp: session_ops session_inv_def run_id_ok_def split: sum.splits option.splits if_splits)
qed

lemma session_run_iff:
  assumes "session_inv s"
  shows "(\<exists>s'. session_run fresh ops s = Ok s') \<longleftrightarrow>
    (\<forall>i < length ops. op_phase (ops ! i) = (status_phase (ss_status s) + i) mod 4 \<and>
       (\<forall>r u. ops ! i = CreateRun r u \<longrightarrow> run_id_ok r))"
  using assms
proof (induction ops arbitrary: s)
  case (Cons op ops)
  have phase: "status_phase (ss_status s) < 4" by (cases "ss_status s") auto
  show ?case
  proof (cases "\<exists>s'. session_apply fresh op s = Ok s'")
    case True
    then obtain s1 where s1: "session_apply fresh op s = Ok s1" by blast
    note ok = session_apply_ok(2) [OF Cons.prems s1]
    have "(\<forall>i < length (op # ops). op_phase ((op # ops) ! i) = (status_phase (ss_status s) + i) mod 4 \<and>
         (\<forall>r u. (op # ops) ! i = CreateRun r u \<longrightarrow> run_id_ok r)) \<longleftrightarrow>
      (\<forall>i < length ops. op_phase (ops ! i) = (status_phase (ss_status s1) + i) mod 4 \<and>
         (\<forall>r u. ops ! i = CreateRun r u \<longrightarrow> run_id_ok r))"
      using session_apply_ok(1) [OF Cons.prems, of fresh op] True phase ok
      by (auto simp: All_less_Suc2 mod_simps)
    then show ?thesis using Cons.IH [of s1] ok s1 by simp
  next
    case False
    then have "\<not> (op_phase op = status_phase (ss_status s) \<and> (\<forall>r u. op = CreateRun r u \<longrightarrow> run_id_ok r))"
      using session_apply_ok(1) [OF Cons.prems] by blast
    then show ?thesis using False phase by (auto split: sum.splits)
  qed
qed simp

text \<open>
  the lifecycle is a strict cycle: from the initial state a sequence of operations succeeds
  exactly when its i-th operation is create, activate, end or reset according to i modulo 4, with
  every created run id passing the allowlist; anything out of order, repeated or skipped raises.
\<close>
lemma session_lifecycle_cycle:
  "(\<exists>s. session_run fresh ops initial_session = Ok s) \<longleftrightarrow>
     (\<forall>i < length ops. op_phase (ops ! i) = i mod 4 \<and>
        (\<forall>r u. ops ! i = CreateRun r u \<longrightarrow> validate_run_id r = Ok r))"
proof -
  have "session_inv initial_session" by (simp add: session_inv_def initial_session_def)
  moreover have "run_id_ok r \<longleftrightarrow> validate_run_id r = Ok r" for r
    by (auto simp: run_id_ok_def validate_run_id_def)
  ultimately show ?thesis
    using session_run_iff [of initial_session fresh ops] by (simp add: initial_session_def)
qed

lemma run_id_body:
  assumes "validate_run_id v = Ok w"
  shows "w = v \<and> \<not> contains_text ''..'' v \<and>
    (\<exists>t. t \<noteq> [] \<and> list_all run_id_char t \<and> (v = t \<or> v = t @ [CHR 0x0A]))"
proof -
  have v: "w = v" "\<not> contains_text ''..'' v" "run_id_pattern v"
    using assms by (auto simp: validate_run_id_def split: if_splits)
  moreover have "v = butlast v @ [CHR 0x0A]" if "v \<noteq> []" "last v = CHR 0x0A"
    using that by (metis append_butlast_last_id)
  ultimately show ?thesis by (auto simp: run_id_pattern_def Let_def split: if_splits)
qed

text \<open>
  an accepted run id is safe as a file name component: it is returned unchanged and contains
  neither a slash, nor a NUL, nor two dots in a row. But the pattern admits more than its message
  says: every accepted id followed by one newline, when it has none yet, is accepted as well.
\<close>
lemma run_id_is_path_safe:
  assumes "validate_run_id v = Ok w"
  shows "w = v \<and> CHR ''/'' \<notin> set v \<and> CHR 0x00 \<notin> set v \<and> \<not> contains_text ''..'' v \<and>
    (CHR 0x0A \<notin> set v \<longrightarrow> validate_run_id (v @ [CHR 0x0A]) = Ok (v @ [CHR 0x0A]))"
proof -
  obtain t where t: "w = v" "\<not> contains_text ''..'' v" "t \<noteq> []" "list_all run_id_char t"
    "v = t \<or> v = t @ [CHR 0x0A]"
    using run_id_body [OF assms] by blast
  have chars: "CHR ''/'' \<notin> set t" "CHR 0x00 \<notin> set t"
    using t(4) by (auto simp: list_all_iff run_id_char_def Let_def)
  have app: "contains_text ''..'' (x @ [CHR 0x0A]) \<Longrightarrow> contains_text ''..'' x" for x
    by (induction x) (auto simp: take_Cons' split: if_splits)
  have "validate_run_id (v @ [CHR 0x0A]) = Ok (v @ [CHR 0x0A])" if "CHR 0x0A \<notin> set v"
    using t that app [of v] by (auto simp: validate_run_id_def run_id_pattern_def Let_def)
  with t chars show ?thesis by auto
qed

end
