(* ===== verification/IdempotencyStore.thy ===== *)
theory IdempotencyStore imports Infra_Prelude begin

text \<open>
  Message deduplication: the in-memory store of \<^verbatim>\<open>idempotency/store_inmemory.py\<close>. Every method holds
  the store's lock from its first to its last access of the dictionary, so it is one atomic
  function on the dictionary; the clock is read before the lock and is the argument \<open>now\<close>.
  The contract a consumer relies on is the locale \<open>idempotency_store\<close>, extended by
  \<open>expiring_store\<close> with the clean-up of old records.
\<close>

section \<open>Contract\<close>

text \<open>A delivery asks whether to process a message; the accepted ones are those told to.\<close>

fun deliver_all :: "('k \<Rightarrow> timestamp \<Rightarrow> 's \<Rightarrow> bool \<times> 's) \<Rightarrow> ('k \<times> timestamp) list \<Rightarrow> 's \<Rightarrow> 'k list" where
  "deliver_all check [] s = []"
| "deliver_all check ((k, now) # ds) s =
     (let (fresh, s') = check k now s in (if fresh then [k] else []) @ deliver_all check ds s')"

locale idempotency_store =
  fixes check :: "'k \<Rightarrow> timestamp \<Rightarrow> 's \<Rightarrow> bool \<times> 's"
    and stamp :: "'s \<Rightarrow> 'k \<Rightarrow> timestamp option"
  assumes check_fresh: "fst (check k now s) \<longleftrightarrow> stamp s k = None"
    and check_stamp: "stamp (snd (check k now s)) k' =
      (if k' = k \<and> stamp s k = None then Some now else stamp s k')"
begin

lemma deliver_exactly_once:
  "distinct (deliver_all check ds s) \<and>
   set (deliver_all check ds s) = {k \<in> fst ` set ds. stamp s k = None}"
proof (induction ds arbitrary: s)
  case (Cons d ds)
  obtain k now where d: "d = (k, now)" by (cases d)
  obtain fresh s' where c: "check k now s = (fresh, s')" by (cases "check k now s")
  have "fresh \<longleftrightarrow> stamp s k = None" using check_fresh [of k now s] c by simp
  moreover have "stamp s' k' = (if k' = k \<and> stamp s k = None then Some now else stamp s k')" for k'
    using check_stamp [of k now s k'] c by simp
  ultimately show ?case using Cons.IH [of s'] d c by auto
qed simp

end

text \<open>Deliveries and clean-ups in the order in which the store sees them.\<close>

datatype 'k store_event = Deliver 'k timestamp | Cleanup timestamp

fun event_time :: "'k store_event \<Rightarrow> timestamp" where
  "event_time (Deliver k t) = t"
| "event_time (Cleanup t) = t"

text \<open>The accepted deliveries with their times.\<close>

fun accepted ::
  "('k \<Rightarrow> timestamp \<Rightarrow> 's \<Rightarrow> bool \<times> 's) \<Rightarrow> (int \<Rightarrow> timestamp \<Rightarrow> 's \<Rightarrow> 's) \<Rightarrow> int \<Rightarrow>
   'k store_event list \<Rightarrow> 's \<Rightarrow> ('k \<times> timestamp) list" where
  "accepted check expire ttl [] s = []"
| "accepted check expire ttl (Deliver k t # es) s =
     (let (fresh, s') = check k t s
      in (if fresh then [(k, t)] else []) @ accepted check expire ttl es s')"
| "accepted check expire ttl (Cleanup t # es) s = accepted check expire ttl es (expire ttl t s)"

lemma accepted_times:
  "(k, t) \<in> set (accepted check expire ttl es s) \<Longrightarrow> t \<in> event_time ` set es"
proof (induction es arbitrary: s)
  case (Cons e es)
  then show ?case by (cases e) (auto simp: split_beta split: if_splits)
qed simp

locale expiring_store = idempotency_store check stamp
  for check :: "'k \<Rightarrow> timestamp \<Rightarrow> 's \<Rightarrow> bool \<times> 's" and stamp :: "'s \<Rightarrow> 'k \<Rightarrow> timestamp option" +
  fixes expire :: "int \<Rightarrow> timestamp \<Rightarrow> 's \<Rightarrow> 's"
    and inv :: "'s \<Rightarrow> bool"
  assumes check_inv: "inv s \<Longrightarrow> inv (snd (check k now s))"
    and expire_inv: "inv s \<Longrightarrow> inv (expire ttl now s)"
    and expire_stamp: "inv s \<Longrightarrow> stamp (expire ttl now s) k =
      (case stamp s k of
         None \<Rightarrow> None
       | Some t \<Rightarrow> if now - t > ttl * usec_per_sec then None else Some t)"
begin

lemma accepted_after_stamp:
  assumes "inv s" "stamp s k = Some t0" "\<forall>e \<in> set es. t0 \<le> event_time e" "0 \<le> ttl"
    and "sorted (map event_time es)" "(k, t) \<in> set (accepted check expire ttl es s)"
  shows "t - t0 > ttl * usec_per_sec"
  using assms
proof (induction es arbitrary: s)
  case (Cons e es)
  show ?case
  proof (cases e)
    case (Deliver k' t')
    obtain fresh s' where c: "check k' t' s = (fresh, s')" by (cases "check k' t' s")
    have "inv s'" using check_inv [of s k' t'] c Cons.prems(1) by simp
    moreover have "stamp s' k = Some t0" using check_stamp [of k' t' s k] c Cons.prems(2) by auto
    moreover have "fresh \<Longrightarrow> k' \<noteq> k" using check_fresh [of k' t' s] c Cons.prems(2) by auto
    ultimately show ?thesis using Cons.IH [of s'] Cons.prems Deliver c by (auto split: if_splits)
  next
    case (Cleanup t')
    show ?thesis
    proof (cases "t' - t0 > ttl * usec_per_sec")
      case True
      have "t' \<le> t"
      proof -
        have "t \<in> event_time ` set es"
          using accepted_times [of k t check expire ttl es] Cons.prems(6) Cleanup by simp
        then show ?thesis using Cons.prems(5) Cleanup by auto
      qed
      with True show ?thesis by simp
    next
      case False
      then have "stamp (expire ttl t' s) k = Some t0" using Cons.prems(1,2) expire_stamp by simp
      then show ?thesis
        using Cons.IH [of "expire ttl t' s"] expire_inv [OF Cons.prems(1)] Cons.prems Cleanup by simp
    qed
  qed
qed simp

lemma accepted_spaced:
  assumes "0 \<le> ttl" "sorted (map event_time es)" "inv s"
  shows "sorted_wrt (\<lambda>a b. fst a = fst b \<longrightarrow> snd b - snd a > ttl * usec_per_sec)
    (accepted check expire ttl es s)"
  using assms(2,3)
proof (induction es arbitrary: s)
  case (Cons e es)
  show ?case
  proof (cases e)
    case (Deliver k t)
    obtain fresh s' where c: "check k t s = (fresh, s')" by (cases "check k t s")
    have inv': "inv s'" using check_inv [OF Cons.prems(2), of k t] c by simp
    have rest: "sorted_wrt (\<lambda>a b. fst a = fst b \<longrightarrow> snd b - snd a > ttl * usec_per_sec)
        (accepted check expire ttl es s')"
      using Cons.IH [OF _ inv'] Cons.prems by simp
    show ?thesis
    proof (cases fresh)
      case True
      then have "stamp s' k = Some t"
        using check_fresh [of k t s] check_stamp [of k t s k] c by simp
      moreover have "\<forall>e \<in> set es. t \<le> event_time e" "sorted (map event_time es)"
        using Cons.prems Deliver by auto
      ultimately have "\<forall>b \<in> set (accepted check expire ttl es s').
          fst b = k \<longrightarrow> snd b - t > ttl * usec_per_sec"
        using accepted_after_stamp [OF inv', of k t es ttl] assms(1) by force
      with rest True Deliver c show ?thesis by auto
    qed (use rest Deliver c in simp)
  next
    case (Cleanup t)
    then show ?thesis using Cons.IH [of "expire ttl t s"] expire_inv Cons.prems by simp
  qed
qed simp

end

section \<open>The in-memory store\<close>

record idempotency_record =
  ir_id :: uuid
  ir_domain :: "string option"
  ir_message_id :: uuid
  ir_correlation_id :: "uuid option"
  ir_processed_at :: timestamp
  ir_handler_type :: "string option"

type_synonym message_key = "string option \<times> uuid"

record idempotency_store_state =
  st_storage :: "(message_key, idempotency_record) py_dict"

definition empty_store :: idempotency_store_state where
  "empty_store = \<lparr>st_storage = []\<rparr>"

definition mk_idempotency_record ::
  "uuid \<Rightarrow> uuid \<Rightarrow> string option \<Rightarrow> uuid option \<Rightarrow> timestamp \<Rightarrow> idempotency_record" where
  "mk_idempotency_record fresh message_id domain correlation_id processed_at =
     \<lparr>ir_id = fresh, ir_domain = domain, ir_message_id = message_id,
      ir_correlation_id = correlation_id, ir_processed_at = processed_at, ir_handler_type = None\<rparr>"

definition check_and_record ::
  "uuid \<Rightarrow> timestamp \<Rightarrow> uuid \<Rightarrow> string option \<Rightarrow> uuid option \<Rightarrow> idempotency_store_state
     \<Rightarrow> bool \<times> idempotency_store_state" where
  "check_and_record fresh now message_id domain correlation_id s =
     (let key = (domain, message_id) in
      if dict_get (st_storage s) key \<noteq> None then (False, s)
      else (True, s\<lparr>st_storage := dict_put key
              (mk_idempotency_record fresh message_id domain correlation_id now) (st_storage s)\<rparr>))"

definition is_processed :: "uuid \<Rightarrow> string option \<Rightarrow> idempotency_store_state \<Rightarrow> bool" where
  "is_processed message_id domain s \<longleftrightarrow> dict_get (st_storage s) (domain, message_id) \<noteq> None"

definition mark_processed ::
  "uuid \<Rightarrow> timestamp \<Rightarrow> uuid \<Rightarrow> string option \<Rightarrow> uuid option \<Rightarrow> timestamp option
     \<Rightarrow> idempotency_store_state \<Rightarrow> idempotency_store_state" where
  "mark_processed fresh now message_id domain correlation_id processed_at s =
     (let processed = (case processed_at of None \<Rightarrow> now | Some t \<Rightarrow> t) in
      s\<lparr>st_storage := dict_put (domain, message_id)
          (mk_idempotency_record fresh message_id domain correlation_id processed) (st_storage s)\<rparr>)"

definition cleanup_expired ::
  "int \<Rightarrow> timestamp \<Rightarrow> idempotency_store_state \<Rightarrow> int \<times> idempotency_store_state" where
  "cleanup_expired ttl_seconds now s =
     (let expired_keys = map fst (filter (\<lambda>(key, rec).
            now - ir_processed_at rec > ttl_seconds * usec_per_sec) (st_storage s))
      in (int (length expired_keys),
          s\<lparr>st_storage := foldl (\<lambda>d key. dict_del key d) (st_storage s) expired_keys\<rparr>))"

definition clear_store :: "idempotency_store_state \<Rightarrow> idempotency_store_state" where
  "clear_store s = s\<lparr>st_storage := []\<rparr>"

definition get_record_count :: "idempotency_store_state \<Rightarrow> int" where
  "get_record_count s = int (length (st_storage s))"

definition get_all_records :: "idempotency_store_state \<Rightarrow> idempotency_record list" where
  "get_all_records s = map snd (st_storage s)"

definition get_record :: "uuid \<Rightarrow> string option \<Rightarrow> idempotency_store_state \<Rightarrow> idempotency_record option"
  where
  "get_record message_id domain s = dict_get (st_storage s) (domain, message_id)"

lemma wf_foldl_del: "wf_dict d \<Longrightarrow> wf_dict (foldl (\<lambda>d key. dict_del key d) d ks)"
  by (induction ks arbitrary: d) auto

lemma get_foldl_del:
  "dict_get (foldl (\<lambda>d key. dict_del key d) d ks) k = (if k \<in> set ks then None else dict_get d k)"
  by (induction ks arbitrary: d) (auto simp: dict_get_del)

lemma wf_check_and_record:
  "wf_dict (st_storage s) \<Longrightarrow> wf_dict (st_storage (snd (check_and_record f now m d c s)))"
  by (simp add: check_and_record_def Let_def)

lemma wf_cleanup_expired:
  "wf_dict (st_storage s) \<Longrightarrow> wf_dict (st_storage (snd (cleanup_expired ttl now s)))"
  by (simp add: cleanup_expired_def Let_def wf_foldl_del)

lemma cleanup_get:
  assumes "wf_dict (st_storage s)"
  shows "dict_get (st_storage (snd (cleanup_expired ttl now s))) k =
    (case dict_get (st_storage s) k of
       None \<Rightarrow> None
     | Some r \<Rightarrow> if now - ir_processed_at r > ttl * usec_per_sec then None else Some r)"
  using assms
  by (cases k) (auto simp: cleanup_expired_def get_foldl_del dict_in image_iff split: option.splits)

definition stored_stamp :: "idempotency_store_state \<Rightarrow> message_key \<Rightarrow> timestamp option" where
  "stored_stamp s k = map_option ir_processed_at (dict_get (st_storage s) k)"

interpretation memory_store: expiring_store
    "\<lambda>k now s. check_and_record fresh now (snd k) (fst k) cid s" stored_stamp
    "\<lambda>ttl now s. snd (cleanup_expired ttl now s)" "\<lambda>s. wf_dict (st_storage s)"
proof unfold_locales
  fix k k' :: message_key and now s
  show "fst (check_and_record fresh now (snd k) (fst k) cid s) = (stored_stamp s k = None)"
    by (simp add: check_and_record_def stored_stamp_def Let_def)
  show "stored_stamp (snd (check_and_record fresh now (snd k) (fst k) cid s)) k' =
      (if k' = k \<and> stored_stamp s k = None then Some now else stored_stamp s k')"
    by (auto simp: check_and_record_def stored_stamp_def mk_idempotency_record_def dict_get_put Let_def)
next
  fix s :: idempotency_store_state and ttl now and k :: message_key
  assume "wf_dict (st_storage s)"
  then show "stored_stamp (snd (cleanup_expired ttl now s)) k = (case stored_stamp s k of
      None \<Rightarrow> None | Some t \<Rightarrow> if now - t > ttl * usec_per_sec then None else Some t)"
    by (simp add: stored_stamp_def cleanup_get split: option.split)
qed (simp_all add: wf_check_and_record wf_cleanup_expired)

section \<open>Properties\<close>


text \<open>
  clean-up never lets a message through too early: in any interleaving of deliveries and
  clean-ups of a new store with a clock that does not run backwards, two deliveries of the same
  key that are both told to process it are more than the time-to-live apart.
\<close>
lemma reprocessing_respects_ttl:
  assumes "0 \<le> ttl" "sorted (map event_time es)"
    and "accepted (\<lambda>k now s. check_and_record fresh now (snd k) (fst k) cid s)
        (\<lambda>ttl now s. snd (cleanup_expired ttl now s)) ttl es empty_store = xs @ (k, t1) # ys @ (k, t2) # zs"
  shows "t2 - t1 > ttl * usec_per_sec"
  using memory_store.accepted_spaced [OF assms(1,2), of empty_store fresh cid] assms(3)
  by (simp add: empty_store_def sorted_wrt_append)

end
