(* ===== verification/Chunking.thy ===== *)
theory Chunking imports InfraErrors "HOL-Library.Multiset" begin

text \<open>
  Splitting large envelopes into wire chunks and putting them together again:
  \<^verbatim>\<open>gateways/chunking/chunking_gateway.py\<close>, \<^verbatim>\<open>default_chunker.py\<close> and \<^verbatim>\<open>reassembly_gateway.py\<close>.
  SHA-256 is the argument \<open>sha256\<close> (bytes to hexadecimal text), the envelope's own decoder is the
  argument \<open>from_bytes\<close>, which returns an envelope or the message of a \<^verbatim>\<open>ValueError\<close>. Byte counts
  are far below the limit where Python's float division in \<open>math.ceil(total / max)\<close> would round.
\<close>

type_synonym bytes = "8 word list"

section \<open>Chunker\<close>

record chunk_metadata =
  cm_series_id :: uuid
  cm_index :: int
  cm_count :: int
  cm_size :: int
  cm_total_size :: int
  cm_payload_checksum :: string
  cm_chunk_checksum :: string
  cm_reassembly_strategy :: string
  cm_expiry_timestamp :: "timestamp option"

record chunked_envelope =
  ce_metadata :: chunk_metadata
  ce_payload :: bytes

definition sha256_hex :: "(bytes \<Rightarrow> string) \<Rightarrow> bytes \<Rightarrow> string" where
  "sha256_hex sha256 data = ''sha256:'' @ sha256 data"

definition chunk_count_of :: "nat \<Rightarrow> nat \<Rightarrow> nat" where
  "chunk_count_of total_size max_size = max 1 ((total_size + max_size - 1) div max_size)"

definition chunk ::
  "(bytes \<Rightarrow> string) \<Rightarrow> uuid \<Rightarrow> bytes \<Rightarrow> int \<Rightarrow> infra_error + chunked_envelope list" where
  "chunk sha256 series_id payload max_chunk_size =
     (if max_chunk_size \<le> 0 then Err PyValueError
      else
        let m = nat max_chunk_size; total_size = length payload;
            chunk_count = chunk_count_of total_size m
        in Ok (map (\<lambda>index.
             let start = index * m; stop = min (start + m) total_size;
                 chunk_payload = take (stop - start) (drop start payload)
             in \<lparr>ce_metadata =
                   \<lparr>cm_series_id = series_id, cm_index = int index, cm_count = int chunk_count,
                    cm_size = int (length chunk_payload), cm_total_size = int total_size,
                    cm_payload_checksum = sha256_hex sha256 payload,
                    cm_chunk_checksum = sha256_hex sha256 chunk_payload,
                    cm_reassembly_strategy = ''any_order'',
                    cm_expiry_timestamp = None\<rparr>,
                 ce_payload = chunk_payload\<rparr>) [0..<chunk_count]))"

text \<open>The first chunk whose checksum is wrong, in arrival order, decides the message.\<close>

fun first_bad_chunk :: "(bytes \<Rightarrow> string) \<Rightarrow> chunked_envelope list \<Rightarrow> string option" where
  "first_bad_chunk sha256 [] = None"
| "first_bad_chunk sha256 (c # cs) =
     (let expected = sha256_hex sha256 (ce_payload c) in
      if cm_chunk_checksum (ce_metadata c) \<noteq> expected
      then Some (''checksum mismatch on chunk '' @ string_of_int (cm_index (ce_metadata c)) @
        '': expected '' @ expected @ '', got '' @ cm_chunk_checksum (ce_metadata c))
      else first_bad_chunk sha256 cs)"

definition reassemble ::
  "(bytes \<Rightarrow> string) \<Rightarrow> (bytes \<Rightarrow> string + 'e) \<Rightarrow> chunked_envelope list \<Rightarrow> string + 'e" where
  "reassemble sha256 from_bytes chunks =
     (if chunks = [] then Inl ''Cannot reassemble empty chunk list.''
      else case first_bad_chunk sha256 chunks of
        Some msg \<Rightarrow> Inl msg
      | None \<Rightarrow>
          let sorted_chunks = sort_key (\<lambda>c. cm_index (ce_metadata c)) chunks;
              full_payload = concat (map ce_payload sorted_chunks)
          in if sha256_hex sha256 full_payload \<noteq> cm_payload_checksum (ce_metadata (hd sorted_chunks))
             then Inl ''Full payload checksum mismatch after reassembly.''
             else from_bytes full_payload)"

section \<open>Gateways\<close>

record chunk_policy =
  cp_enabled :: bool
  cp_max_payload_size_bytes :: int
  cp_chunk_target_size_bytes :: int

definition evaluate_and_chunk ::
  "(bytes \<Rightarrow> string) \<Rightarrow> chunk_policy \<Rightarrow> uuid \<Rightarrow> bytes \<Rightarrow> infra_error + chunked_envelope list" where
  "evaluate_and_chunk sha256 policy series_id payload =
     (if \<not> cp_enabled policy then Ok []
      else if int (length payload) \<le> cp_max_payload_size_bytes policy then Ok []
      else chunk sha256 series_id payload (cp_chunk_target_size_bytes policy))"

datatype failure_kind = TIMEOUT | CHECKSUM_MISMATCH | CORRUPT_CHUNK

record series_failed =
  sf_series_id :: uuid
  sf_reason :: failure_kind
  sf_received :: int
  sf_expected :: int
  sf_failed_at :: timestamp

datatype 'e receive_result = Incomplete | Reassembled 'e | SeriesFailed series_failed

record reassembly_state =
  ra_buffer :: "(uuid, chunked_envelope list) py_dict"
  ra_count :: "(uuid, int) py_dict"

definition empty_reassembly :: reassembly_state where
  "empty_reassembly = \<lparr>ra_buffer = [], ra_count = []\<rparr>"

definition is_checksum_message :: "string \<Rightarrow> bool" where
  "is_checksum_message msg \<longleftrightarrow> contains_text ''checksum'' (map (\<lambda>c.
     let n = of_char c :: nat in if 65 \<le> n \<and> n \<le> 90 then char_of (n + 32) else c) msg)"

definition receive ::
  "(bytes \<Rightarrow> string) \<Rightarrow> (bytes \<Rightarrow> string + 'e) \<Rightarrow> timestamp \<Rightarrow> chunked_envelope \<Rightarrow> reassembly_state
     \<Rightarrow> 'e receive_result \<times> reassembly_state" where
  "receive sha256 from_bytes now c st =
     (let meta = ce_metadata c; series_id = cm_series_id meta;
          counts = (case dict_get (ra_count st) series_id of
              None \<Rightarrow> dict_put series_id (cm_count meta) (ra_count st)
            | Some _ \<Rightarrow> ra_count st);
          canonical_chunk_count = the (dict_get counts series_id);
          buffered = (case dict_get (ra_buffer st) series_id of None \<Rightarrow> [] | Some cs \<Rightarrow> cs)
      in
      if (case cm_expiry_timestamp meta of None \<Rightarrow> False | Some t \<Rightarrow> now > t) then
        (SeriesFailed \<lparr>sf_series_id = series_id, sf_reason = TIMEOUT,
           sf_received = int (length buffered), sf_expected = canonical_chunk_count,
           sf_failed_at = now\<rparr>,
         \<lparr>ra_buffer = dict_del series_id (ra_buffer st), ra_count = dict_del series_id counts\<rparr>)
      else
        let received = buffered @ [c] in
        if int (length received) < canonical_chunk_count then
          (Incomplete, \<lparr>ra_buffer = dict_put series_id received (ra_buffer st), ra_count = counts\<rparr>)
        else
          (case reassemble sha256 from_bytes received of
             Inl msg \<Rightarrow>
               SeriesFailed \<lparr>sf_series_id = series_id,
                 sf_reason = (if is_checksum_message msg then CHECKSUM_MISMATCH else CORRUPT_CHUNK),
                 sf_received = int (length received), sf_expected = canonical_chunk_count,
                 sf_failed_at = now\<rparr>
           | Inr envelope \<Rightarrow> Reassembled envelope,
           \<lparr>ra_buffer = dict_del series_id (ra_buffer st), ra_count = dict_del series_id counts\<rparr>))"

section \<open>Splitting\<close>

lemma chunk_payloads:
  assumes "chunk sha256 sid payload m = Ok cs"
  shows "map ce_payload cs = map (\<lambda>i. take (nat m) (drop (i * nat m) payload))
      [0..<chunk_count_of (length payload) (nat m)] \<and> 0 < m"
proof -
  have "take (min (i * k + k) (length payload) - i * k) (drop (i * k) payload) =
      take k (drop (i * k) payload)" for i k
    by (rule nth_equalityI) (auto simp: min_def)
  then show ?thesis using assms by (auto simp: chunk_def Let_def comp_def split: if_splits)
qed

lemma concat_slices:
  assumes "0 < k"
  shows "concat (map (\<lambda>i. take k (drop (i * k) xs)) [0..<n]) = take (n * k) xs"
proof (induction n)
  case (Suc n)
  have "take (Suc n * k) xs = take (n * k) xs @ take k (drop (n * k) xs)"
    unfolding mult_Suc by (subst add.commute) (rule take_add)
  then show ?case using Suc by simp
qed simp

lemma chunk_count_covers:
  assumes "0 < k"
  shows "n \<le> chunk_count_of n k * k"
proof -
  have "n \<le> (n + k - 1) div k * k"
  proof -
    have "n + k - 1 = (n + k - 1) div k * k + (n + k - 1) mod k" by simp
    moreover have "(n + k - 1) mod k < k" using assms by simp
    ultimately show ?thesis by linarith
  qed
  also have "\<dots> \<le> chunk_count_of n k * k" by (simp add: chunk_count_of_def)
  finally show ?thesis .
qed

lemma chunk_concat:
  assumes "chunk sha256 sid payload m = Ok cs"
  shows "concat (map ce_payload cs) = payload"
  using chunk_payloads [OF assms] concat_slices [of "nat m" payload]
    chunk_count_covers [of "nat m" "length payload"] by simp

lemma chunk_meta:
  assumes "chunk sha256 sid payload m = Ok cs" "c \<in> set cs"
  shows "cm_series_id (ce_metadata c) = sid \<and> cm_count (ce_metadata c) = int (length cs) \<and>
    cm_payload_checksum (ce_metadata c) = sha256_hex sha256 payload \<and>
    cm_chunk_checksum (ce_metadata c) = sha256_hex sha256 (ce_payload c) \<and>
    cm_expiry_timestamp (ce_metadata c) = None"
  using assms by (auto simp: chunk_def Let_def split: if_splits)

lemma chunk_indices:
  assumes "chunk sha256 sid payload m = Ok cs"
  shows "map (\<lambda>c. cm_index (ce_metadata c)) cs = map int [0..<length cs] \<and> cs \<noteq> []"
  using assms by (auto simp: chunk_def Let_def comp_def chunk_count_of_def split: if_splits)

lemma first_bad_chunk_None:
  "first_bad_chunk sha256 cs = None \<longleftrightarrow>
     (\<forall>c \<in> set cs. cm_chunk_checksum (ce_metadata c) = sha256_hex sha256 (ce_payload c))"
  by (induction cs) (auto simp: Let_def)

lemma sort_chunks:
  assumes "chunk sha256 sid payload m = Ok cs" "mset ds = mset cs"
  shows "sort_key (\<lambda>c. cm_index (ce_metadata c)) ds = cs"
proof (rule sort_key_inj_key_eq [OF assms(2)])
  let ?key = "\<lambda>c. cm_index (ce_metadata c)"
  have keys: "map ?key cs = map int [0..<length cs]" using chunk_indices [OF assms(1)] by simp
  then have "distinct (map ?key cs)" by (simp add: distinct_map)
  then show "inj_on ?key (set ds)" using mset_eq_setD [OF assms(2)] by (simp add: distinct_map)
  show "sorted (map ?key cs)" unfolding keys by (simp add: sorted_iff_nth_mono)
qed

lemma reassemble_any_order:
  assumes "chunk sha256 sid payload m = Ok cs" "mset ds = mset cs"
  shows "reassemble sha256 from_bytes ds = from_bytes payload"
proof -
  have "ds \<noteq> []" using chunk_indices [OF assms(1)] assms(2) by auto
  moreover have "first_bad_chunk sha256 ds = None"
    unfolding first_bad_chunk_None using chunk_meta [OF assms(1)] mset_eq_setD [OF assms(2)] by auto
  moreover have "cm_payload_checksum (ce_metadata (hd cs)) = sha256_hex sha256 payload"
    using chunk_meta [OF assms(1)] chunk_indices [OF assms(1)] by simp
  ultimately show ?thesis
    by (simp add: reassemble_def Let_def sort_chunks [OF assms] chunk_concat [OF assms(1)])
qed

section \<open>Streams of arrivals\<close>

text \<open>
  The chunks a consumer hands to one gateway, each with the clock at its arrival; the results are
  tagged with the series of the chunk that produced them.
\<close>

fun receive_all ::
  "(bytes \<Rightarrow> string) \<Rightarrow> (bytes \<Rightarrow> string + 'e) \<Rightarrow> (timestamp \<times> chunked_envelope) list \<Rightarrow> reassembly_state
     \<Rightarrow> (uuid \<times> 'e receive_result) list \<times> reassembly_state" where
  "receive_all sha256 from_bytes [] st = ([], st)"
| "receive_all sha256 from_bytes ((now, c) # arrivals) st =
     (let (r, st') = receive sha256 from_bytes now c st;
          (rs, st'') = receive_all sha256 from_bytes arrivals st'
      in ((cm_series_id (ce_metadata c), r) # rs, st''))"

abbreviation series_of :: "chunked_envelope \<Rightarrow> uuid" where
  "series_of c \<equiv> cm_series_id (ce_metadata c)"

definition series_view ::
  "uuid \<Rightarrow> reassembly_state \<Rightarrow> chunked_envelope list option \<times> int option" where
  "series_view sid st = (dict_get (ra_buffer st) sid, dict_get (ra_count st) sid)"

definition arrivals_of :: "uuid \<Rightarrow> (timestamp \<times> chunked_envelope) list \<Rightarrow> chunked_envelope list" where
  "arrivals_of sid arrivals = filter (\<lambda>c. series_of c = sid) (map snd arrivals)"

definition results_of :: "uuid \<Rightarrow> (uuid \<times> 'e receive_result) list \<Rightarrow> 'e receive_result list" where
  "results_of sid results = map snd (filter (\<lambda>p. fst p = sid) results)"

text \<open>What the gateway answers once the expected number of chunks is buffered.\<close>

definition resolve ::
  "(bytes \<Rightarrow> string) \<Rightarrow> (bytes \<Rightarrow> string + 'e) \<Rightarrow> timestamp \<Rightarrow> uuid \<Rightarrow> chunked_envelope list \<Rightarrow> int
     \<Rightarrow> 'e receive_result" where
  "resolve sha256 from_bytes now sid cs expected =
     (case reassemble sha256 from_bytes cs of
        Inl msg \<Rightarrow> SeriesFailed \<lparr>sf_series_id = sid,
          sf_reason = (if is_checksum_message msg then CHECKSUM_MISMATCH else CORRUPT_CHUNK),
          sf_received = int (length cs), sf_expected = expected, sf_failed_at = now\<rparr>
      | Inr envelope \<Rightarrow> Reassembled envelope)"

lemmas receive_defs = receive_def Let_def series_view_def dict_get_put dict_get_del

lemma receive_other:
  "series_of c \<noteq> sid \<Longrightarrow>
     series_view sid (snd (receive sha256 from_bytes now c st)) = series_view sid st"
  by (auto simp: receive_defs split: option.splits)

text \<open>The state of a series of \<open>n\<close> chunks of which \<open>pre\<close> have been buffered.\<close>

definition gathering :: "uuid \<Rightarrow> nat \<Rightarrow> chunked_envelope list \<Rightarrow> reassembly_state \<Rightarrow> bool" where
  "gathering sid n pre st \<longleftrightarrow>
     series_view sid st = (if pre = [] then (None, None) else (Some pre, Some (int n)))"

lemma receive_own:
  assumes "gathering (series_of c) n pre st" "cm_count (ce_metadata c) = int n"
    "cm_expiry_timestamp (ce_metadata c) = None" "length pre < n"
    "receive sha256 from_bytes now c st = (r, st')"
  shows "if Suc (length pre) < n then r = Incomplete \<and> gathering (series_of c) n (pre @ [c]) st'
    else r = resolve sha256 from_bytes now (series_of c) (pre @ [c]) (int n) \<and>
      gathering (series_of c) n [] st'"
  using assms
  by (cases "pre = []") (auto simp: receive_defs gathering_def resolve_def split: option.splits if_splits sum.splits)

lemma receive_all_others:
  "arrivals_of sid arrivals = [] \<Longrightarrow> receive_all sha256 from_bytes arrivals st = (rs, st') \<Longrightarrow>
     results_of sid rs = [] \<and> series_view sid st' = series_view sid st"
proof (induction arrivals arbitrary: st rs)
  case (Cons a arrivals)
  then show ?case
    using receive_other [of "snd a" sid sha256 from_bytes "fst a" st]
    by (cases a) (fastforce simp: arrivals_of_def results_of_def split: prod.splits if_splits)
qed (simp add: results_of_def)

lemma gathering_frame:
  "gathering sid n pre st \<Longrightarrow> series_of c \<noteq> sid \<Longrightarrow>
     gathering sid n pre (snd (receive sha256 from_bytes now c st))"
  by (simp add: gathering_def receive_other)

text \<open>
  The first \<open>n\<close> arrivals of a series, whatever else arrives between them: all but the last are
  answered \<open>Incomplete\<close>, the last resolves the series and empties its buffer.
\<close>

lemma gather_series:
  assumes "gathering sid n pre st" "arrivals_of sid arrivals = post" "length (pre @ post) = n"
    "\<forall>c \<in> set post. cm_count (ce_metadata c) = int n \<and> cm_expiry_timestamp (ce_metadata c) = None"
    "post \<noteq> []" "receive_all sha256 from_bytes arrivals st = (rs, st')"
  shows "(\<exists>now. results_of sid rs =
      replicate (length post - 1) Incomplete @ [resolve sha256 from_bytes now sid (pre @ post) (int n)]) \<and>
    gathering sid n [] st'"
  using assms
proof (induction arrivals arbitrary: pre post st rs)
  case (Cons a arrivals)
  obtain now c where a: "a = (now, c)" by (cases a)
  obtain r st1 where step: "receive sha256 from_bytes now c st = (r, st1)" by fastforce
  obtain rs1 where rest: "receive_all sha256 from_bytes arrivals st1 = (rs1, st')"
    and rs: "rs = (series_of c, r) # rs1"
    using Cons.prems(6) a step by (auto split: prod.splits)
  show ?case
  proof (cases "series_of c = sid")
    case False
    then have "gathering sid n pre st1"
      using gathering_frame [OF Cons.prems(1), of c sha256 from_bytes now] step by simp
    moreover have "arrivals_of sid arrivals = post"
      using Cons.prems(2) False a by (simp add: arrivals_of_def)
    ultimately show ?thesis
      using Cons.IH [OF _ _ Cons.prems(3-5) rest] rs False by (simp add: results_of_def)
  next
    case own: True
    then obtain post1 where post: "post = c # post1" "arrivals_of sid arrivals = post1"
      using Cons.prems(2) a by (auto simp: arrivals_of_def)
    have *: "if Suc (length pre) < n then r = Incomplete \<and> gathering sid n (pre @ [c]) st1
        else r = resolve sha256 from_bytes now sid (pre @ [c]) (int n) \<and> gathering sid n [] st1"
      using receive_own [OF _ _ _ _ step, of n pre] Cons.prems(1,3,4) own post by (auto split: if_splits)
    show ?thesis
    proof (cases "post1 = []")
      case True
      with * have "r = resolve sha256 from_bytes now sid (pre @ post) (int n)" "gathering sid n [] st1"
        using Cons.prems(3) post by auto
      then show ?thesis
        using receive_all_others [OF _ rest, of sid] True post rs own
        by (auto simp: results_of_def gathering_def)
    next
      case False
      with * have "r = Incomplete" "gathering sid n (pre @ [c]) st1"
        using Cons.prems(3) post by (auto split: if_splits)
      then show ?thesis
        using Cons.IH [OF _ post(2) _ _ False rest, of "pre @ [c]"] Cons.prems(3,4) post rs own False
        by (cases post1) (auto simp: results_of_def)
    qed
  qed
qed (simp add: arrivals_of_def)

lemma receive_all_series:
  "receive_all sha256 from_bytes arrivals st = (rs, st') \<Longrightarrow>
     map fst rs = map (\<lambda>a. series_of (snd a)) arrivals"
  by (induction arrivals arbitrary: st rs) (auto split: prod.splits)

lemma receive_all_append:
  "receive_all sha256 from_bytes (xs @ ys) st =
     (let (rs, st') = receive_all sha256 from_bytes xs st;
          (rs', st'') = receive_all sha256 from_bytes ys st' in (rs @ rs', st''))"
  by (induction xs arbitrary: st) (auto simp: Let_def split: prod.splits)

section \<open>Properties\<close>

text \<open>cutting an envelope gives numbered chunks of at most the configured size which all carry the
  number of chunks, and putting them together in any order gives the envelope's own bytes to its
  decoder, whatever the hash function is.\<close>
lemma chunk_roundtrip:
  assumes "chunk sha256 sid payload m = Ok cs" "mset ds = mset cs"
  shows "reassemble sha256 from_bytes ds = from_bytes payload \<and>
    map (\<lambda>c. cm_index (ce_metadata c)) cs = map int [0..<length cs] \<and>
    (\<forall>c \<in> set cs. int (length (ce_payload c)) \<le> m \<and> cm_count (ce_metadata c) = int (length cs))"
proof -
  have "length (ce_payload c) \<le> nat m" if "c \<in> set cs" for c
  proof -
    have "ce_payload c \<in> set (map ce_payload cs)" using that by simp
    then show ?thesis using chunk_payloads [OF assms(1)] by auto
  qed
  then show ?thesis
    using reassemble_any_order [OF assms] chunk_indices [OF assms(1)] chunk_meta [OF assms(1)]
      chunk_payloads [OF assms(1)] by (auto simp: le_nat_iff)
qed

text \<open>C8: a consumer that receives every chunk of a series once, in any order, at any times and with
  any other series in between, gets no answer for the series but the last one, which is the original
  envelope, and the gateway keeps nothing of the series.\<close>
theorem gateway_delivers:
  assumes "chunk sha256 sid payload m = Ok cs" "from_bytes payload = Inr envelope"
    "mset (arrivals_of sid arrivals) = mset cs" "series_view sid st = (None, None)"
    "receive_all sha256 from_bytes arrivals st = (rs, st')"
  shows "results_of sid rs = replicate (length cs - 1) Incomplete @ [Reassembled envelope] \<and>
    series_view sid st' = (None, None)"
proof -
  let ?post = "arrivals_of sid arrivals"
  have len: "length ?post = length cs" using assms(3) by (rule mset_eq_length)
  have "?post \<noteq> []" using len chunk_indices [OF assms(1)] by auto
  moreover have "\<forall>c \<in> set ?post. cm_count (ce_metadata c) = int (length cs) \<and>
      cm_expiry_timestamp (ce_metadata c) = None"
    using chunk_meta [OF assms(1)] mset_eq_setD [OF assms(3)] by auto
  moreover have "resolve sha256 from_bytes now sid ([] @ ?post) (int (length cs)) = Reassembled envelope" for now
    by (simp add: resolve_def reassemble_any_order [OF assms(1,3)] assms(2))
  ultimately show ?thesis
    using gather_series [of sid "length cs" "[]" st arrivals ?post sha256 from_bytes rs st'] assms(4,5) len
    by (auto simp: gathering_def)
qed

theorem gateway_delivers_witness:
  "\<exists>rs st'. receive_all (\<lambda>_. []) Inr
      (map (\<lambda>c. (0, c)) (rev (projr (chunk (\<lambda>_. []) 7 [1, 2, 3] 2)))) empty_reassembly = (rs, st') \<and>
     results_of 7 rs = [Incomplete, Reassembled ([1, 2, 3] :: bytes)] \<and> series_view 7 st' = (None, None)"
proof -
  obtain cs where cs: "chunk (\<lambda>_. []) 7 [1, 2, 3] 2 = Ok cs" "length cs = 2"
    by (simp add: chunk_def chunk_count_of_def)
  let ?arrivals = "map (\<lambda>c. (0, c)) (rev cs)"
  obtain rs st' where run: "receive_all (\<lambda>_. []) Inr ?arrivals empty_reassembly = (rs, st')"
    by fastforce
  have "arrivals_of 7 ?arrivals = rev cs"
    using chunk_meta [OF cs(1)] by (simp add: arrivals_of_def comp_def rev_filter [symmetric])
  then have "results_of 7 rs = replicate (length cs - 1) Incomplete @ [Reassembled ([1, 2, 3] :: bytes)] \<and>
      series_view 7 st' = (None, None)"
    by (intro gateway_delivers [OF cs(1) _ _ _ run]) (simp_all add: series_view_def empty_reassembly_def)
  then show ?thesis using run cs by simp
qed

text \<open>The chunks of one series, when its first chunk is delivered twice.\<close>

lemma duplicate_fills_the_buffer:
  assumes "chunk sha256 sid payload m = Ok cs" "2 \<le> length cs"
    "sha256 (concat (map ce_payload (hd cs # butlast cs))) \<noteq> sha256 payload"
  shows "reassemble sha256 from_bytes (hd cs # butlast cs) =
    Inl ''Full payload checksum mismatch after reassembly.''"
proof -
  let ?key = "\<lambda>c. cm_index (ce_metadata c)" and ?ds = "hd cs # butlast cs"
  have cs: "cs = hd cs # tl cs" "butlast cs \<noteq> []" using assms(2) by (cases cs; cases "tl cs"; simp)+
  have sub: "set ?ds \<subseteq> set cs" using cs by (metis hd_in_set in_set_butlastD insert_subset list.simps(3,15) subsetI)
  have "sorted (map ?key cs)"
    using chunk_indices [OF assms(1)] by (simp add: sorted_iff_nth_mono)
  then have "sorted (map ?key (butlast cs))"
    by (simp add: map_butlast sorted_butlast)
  moreover have "hd (butlast cs) = hd cs" using cs by (cases cs) auto
  ultimately have "sorted (map ?key ?ds)" using cs(2) by (cases "butlast cs") auto
  then have "sort_key ?key ?ds = ?ds" by (rule sort_key_id_if_sorted)
  moreover have "first_bad_chunk sha256 ?ds = None"
    unfolding first_bad_chunk_None using chunk_meta [OF assms(1)] sub by blast
  moreover have "cm_payload_checksum (ce_metadata (hd cs)) = sha256_hex sha256 payload"
    using chunk_meta [OF assms(1)] sub by auto
  ultimately show ?thesis using assms(3) by (simp add: reassemble_def Let_def sha256_hex_def del: sort_key_simps)
qed

lemma checksum_message: "is_checksum_message ''Full payload checksum mismatch after reassembly.''"
  by (simp add: is_checksum_message_def Let_def)

text \<open>the gateway counts arrivals and not distinct chunks: when the first chunk of a series of at
  least two is delivered twice, the series fails as a checksum mismatch although no chunk is damaged,
  and its last chunk stays in the buffer, under a series that nothing will complete.\<close>
lemma duplicate_delivery_fails_series:
  assumes "chunk sha256 sid payload m = Ok cs" "2 \<le> length cs"
    "sha256 (concat (map ce_payload (hd cs # butlast cs))) \<noteq> sha256 payload"
    "map snd arrivals = hd cs # cs" "series_view sid st = (None, None)"
    "receive_all sha256 from_bytes arrivals st = (rs, st')"
  shows "(\<exists>failed. map snd rs = replicate (length cs - 1) Incomplete @ [SeriesFailed failed, Incomplete] \<and>
      sf_reason failed = CHECKSUM_MISMATCH \<and> sf_received failed = sf_expected failed) \<and>
    series_view sid st' = (Some [last cs], Some (int (length cs)))"
proof -
  let ?n = "length cs" and ?ds = "hd cs # butlast cs"
  have "hd cs # cs = ?ds @ [last cs]" using assms(2) by (cases cs) auto
  then have "map snd arrivals = ?ds @ [last cs]" using assms(4) by simp
  then obtain xs t where arr: "arrivals = xs @ [(t, last cs)]" and xs: "map snd xs = ?ds"
    by (auto simp: map_eq_append_conv)
  have ds: "length ?ds = ?n" "set ?ds \<subseteq> set cs" "last cs \<in> set cs"
    using assms(2) by (cases cs; auto dest: in_set_butlastD)+
  have meta: "series_of c = sid \<and> cm_count (ce_metadata c) = int ?n \<and>
      cm_expiry_timestamp (ce_metadata c) = None" if "c \<in> set cs" for c
    using chunk_meta [OF assms(1) that] by simp
  have own: "arrivals_of sid xs = ?ds" using xs ds(2) meta by (auto simp: arrivals_of_def filter_id_conv)
  have good: "\<forall>c \<in> set ?ds. cm_count (ce_metadata c) = int ?n \<and> cm_expiry_timestamp (ce_metadata c) = None"
    using ds(2) meta by blast
  obtain rs1 st1 where front: "receive_all sha256 from_bytes xs st = (rs1, st1)" by fastforce
  obtain r where step: "receive sha256 from_bytes t (last cs) st1 = (r, st')" and rs: "rs = rs1 @ [(sid, r)]"
    using assms(6) front meta [OF ds(3)] unfolding arr receive_all_append
    by (auto simp: Let_def split: prod.splits)
  have start: "gathering sid ?n [] st" using assms(5) by (simp add: gathering_def)
  obtain now where first: "results_of sid rs1 = replicate (?n - 1) Incomplete @
      [resolve sha256 from_bytes now sid ?ds (int ?n)]" "gathering sid ?n [] st1"
    using gather_series [OF start own _ good _ front] ds(1) by auto
  have lastc: "series_of (last cs) = sid" "cm_count (ce_metadata (last cs)) = int ?n"
    "cm_expiry_timestamp (ce_metadata (last cs)) = None" using meta [OF ds(3)] by auto
  have "gathering (series_of (last cs)) ?n [] st1" using first(2) lastc(1) by simp
  moreover have "cs \<noteq> []" using assms(2) by auto
  ultimately have "r = Incomplete \<and> gathering sid ?n [last cs] st'"
    using receive_own [OF _ lastc(2,3) _ step, of "[]"] assms(2) by (simp add: lastc(1) split: if_splits)
  then
  have last: "r = Incomplete" "gathering sid ?n [last cs] st'" by simp_all
  have "map fst rs1 = map series_of ?ds"
    unfolding xs [symmetric] using receive_all_series [OF front] by simp
  then have "fst ` set rs1 = series_of ` set ?ds" by (metis image_set)
  then have "fst p = sid" if "p \<in> set rs1" for p using that ds(2) meta by force
  then have "filter (\<lambda>p. fst p = sid) rs1 = rs1" by (simp add: filter_id_conv)
  then have "map snd rs1 = results_of sid rs1" by (simp add: results_of_def)
  then show ?thesis
    using first(1) last rs checksum_message ds(1)
      duplicate_fills_the_buffer [OF assms(1-3), of from_bytes]
    by (simp add: resolve_def gathering_def)
qed

end
