(* ===== verification/RegistrationReducer.thy ===== *)
theory RegistrationReducer imports Interfaces InfraErrors begin

text \<open>
  The node registration workflow: \<^verbatim>\<open>nodes/node_registration_reducer/registration_reducer.py\<close> and
  its state model \<^verbatim>\<open>models/model_registration_state.py\<close>. The reducer is pure: each entry point maps
  a state and an event to a new state, the intents to publish and the number of items processed.
  RFC 4122 name-based UUIDs and the ISO text of a timestamp are arguments (\<open>uuid5\<close>, \<open>isoformat\<close>).
\<close>

section \<open>Data\<close>

datatype registration_status = IDLE | PENDING | PARTIAL | COMPLETE | FAILED

datatype failure_reason =
    Validation_failed | Consul_failed | Postgres_failed | Both_failed | Invalid_reset_state

record reg_state =
  rg_status :: registration_status
  rg_node_id :: "uuid option"
  rg_consul_confirmed :: bool
  rg_postgres_confirmed :: bool
  rg_last_event :: "uuid option"
  rg_failure :: "failure_reason option"

definition initial_reg_state :: reg_state where
  "initial_reg_state =
     \<lparr>rg_status = IDLE, rg_node_id = None, rg_consul_confirmed = False,
      rg_postgres_confirmed = False, rg_last_event = None, rg_failure = None\<rparr>"

datatype node_kind = EFFECT | COMPUTE | REDUCER | ORCHESTRATOR | RUNTIME_HOST

fun node_kind_value :: "node_kind \<Rightarrow> string" where
  "node_kind_value EFFECT = ''effect''"
| "node_kind_value COMPUTE = ''compute''"
| "node_kind_value REDUCER = ''reducer''"
| "node_kind_value ORCHESTRATOR = ''orchestrator''"
| "node_kind_value RUNTIME_HOST = ''runtime_host''"

text \<open>The fields of an introspection event the reducer reads; the guards allow them to be absent.\<close>

record introspection =
  ie_node_id :: "uuid option"
  ie_node_type :: "node_kind option"
  ie_node_version :: string
  ie_capabilities :: "json option"
  ie_endpoints :: "(string, string) py_dict"
  ie_metadata :: json
  ie_correlation_id :: "uuid option"
  ie_timestamp :: timestamp

datatype confirmation_type = POSTGRES_REGISTRATION_UPSERTED

fun confirmation_type_value :: "confirmation_type \<Rightarrow> string" where
  "confirmation_type_value POSTGRES_REGISTRATION_UPSERTED = ''postgres.registration_upserted''"

record confirmation =
  cf_event_type :: confirmation_type
  cf_correlation_id :: uuid
  cf_node_id :: uuid
  cf_success :: bool
  cf_error_message :: "string option"
  cf_timestamp :: timestamp

text \<open>The model validator of a confirmation.\<close>

definition mk_confirmation :: "confirmation \<Rightarrow> infra_error + confirmation" where
  "mk_confirmation c =
     (if cf_success c \<and> cf_error_message c \<noteq> None then Err ValidationError else Ok c)"

record registration_record =
  rr_node_id :: "uuid option"
  rr_node_type :: "node_kind option"
  rr_node_version :: string
  rr_capabilities :: json
  rr_endpoints :: "(string, string) py_dict"
  rr_metadata :: json
  rr_health_endpoint :: "string option"
  rr_registered_at :: timestamp
  rr_updated_at :: timestamp

record postgres_intent =
  pi_target :: string
  pi_correlation_id :: uuid
  pi_record :: registration_record

record id_functions =
  uuid5 :: "uuid \<Rightarrow> string \<Rightarrow> uuid"
  isoformat :: "timestamp \<Rightarrow> string"

definition namespace_registration :: uuid where
  "namespace_registration = 0xf47ac10b58cc4372a5670d02b2c3d479"

section \<open>State transitions\<close>

definition with_pending_registration :: "uuid option \<Rightarrow> uuid \<Rightarrow> reg_state \<Rightarrow> reg_state" where
  "with_pending_registration node_id event_id s =
     \<lparr>rg_status = PENDING, rg_node_id = node_id, rg_consul_confirmed = False,
      rg_postgres_confirmed = False, rg_last_event = Some event_id, rg_failure = None\<rparr>"

definition with_postgres_confirmed :: "uuid \<Rightarrow> reg_state \<Rightarrow> reg_state" where
  "with_postgres_confirmed event_id s =
     \<lparr>rg_status = COMPLETE, rg_node_id = rg_node_id s, rg_consul_confirmed = rg_consul_confirmed s,
      rg_postgres_confirmed = True, rg_last_event = Some event_id, rg_failure = None\<rparr>"

definition with_failure :: "failure_reason \<Rightarrow> uuid \<Rightarrow> reg_state \<Rightarrow> reg_state" where
  "with_failure reason event_id s =
     \<lparr>rg_status = FAILED, rg_node_id = rg_node_id s, rg_consul_confirmed = rg_consul_confirmed s,
      rg_postgres_confirmed = rg_postgres_confirmed s, rg_last_event = Some event_id,
      rg_failure = Some reason\<rparr>"

definition is_duplicate_event :: "reg_state \<Rightarrow> uuid \<Rightarrow> bool" where
  "is_duplicate_event s event_id \<longleftrightarrow> rg_last_event s = Some event_id"

definition with_reset :: "uuid \<Rightarrow> reg_state \<Rightarrow> reg_state" where
  "with_reset event_id s =
     \<lparr>rg_status = IDLE, rg_node_id = None, rg_consul_confirmed = False,
      rg_postgres_confirmed = False, rg_last_event = Some event_id, rg_failure = None\<rparr>"

definition can_reset :: "reg_state \<Rightarrow> bool" where
  "can_reset s \<longleftrightarrow> rg_status s \<in> {FAILED, COMPLETE}"

section \<open>The reducer\<close>

datatype validation_error = Missing_node_id | Missing_node_type | Invalid_node_type

definition validate_event :: "introspection \<Rightarrow> validation_error option" where
  "validate_event e =
     (if ie_node_id e = None then Some Missing_node_id
      else case ie_node_type e of
        None \<Rightarrow> Some Missing_node_type
      | Some k \<Rightarrow>
          if node_kind_value k \<notin> {node_kind_value EFFECT, node_kind_value COMPUTE,
               node_kind_value REDUCER, node_kind_value ORCHESTRATOR}
          then Some Invalid_node_type else None)"

definition is_valid :: "introspection \<Rightarrow> bool" where
  "is_valid e \<longleftrightarrow> validate_event e = None"

text \<open>An f-string renders an absent id as \<open>None\<close>; reading \<open>.value\<close> of an absent type raises.\<close>

definition opt_uuid_str :: "uuid option \<Rightarrow> string" where
  "opt_uuid_str u = (case u of None \<Rightarrow> ''None'' | Some v \<Rightarrow> uuid_str v)"

definition derive_deterministic_event_id :: "id_functions \<Rightarrow> introspection \<Rightarrow> infra_error + uuid" where
  "derive_deterministic_event_id F e =
     (case ie_node_type e of
        None \<Rightarrow> Err PyAttributeError
      | Some k \<Rightarrow>
          Ok (uuid5 F namespace_registration
            (opt_uuid_str (ie_node_id e) @ ''|'' @ node_kind_value k @ ''|'' @
             isoformat F (ie_timestamp e))))"

definition build_postgres_intent :: "timestamp \<Rightarrow> introspection \<Rightarrow> uuid \<Rightarrow> postgres_intent" where
  "build_postgres_intent now e correlation_id =
     \<lparr>pi_target = ''postgres://node_registrations/'' @ opt_uuid_str (ie_node_id e),
      pi_correlation_id = correlation_id,
      pi_record =
        \<lparr>rr_node_id = ie_node_id e, rr_node_type = ie_node_type e,
         rr_node_version = ie_node_version e,
         rr_capabilities = (case ie_capabilities e of None \<Rightarrow> JObj [] | Some c \<Rightarrow> c),
         rr_endpoints = ie_endpoints e, rr_metadata = ie_metadata e,
         rr_health_endpoint = dict_get (ie_endpoints e) ''health'',
         rr_registered_at = now, rr_updated_at = now\<rparr>\<rparr>"

record reg_output =
  ro_state :: reg_state
  ro_intents :: "postgres_intent list"
  ro_items_processed :: int

definition build_output :: "reg_state \<Rightarrow> postgres_intent list \<Rightarrow> int \<Rightarrow> reg_output" where
  "build_output s intents items =
     \<lparr>ro_state = s, ro_intents = intents, ro_items_processed = items\<rparr>"

definition event_id_of :: "id_functions \<Rightarrow> introspection \<Rightarrow> infra_error + uuid" where
  "event_id_of F e =
     (case ie_correlation_id e of
        Some c \<Rightarrow> Ok c
      | None \<Rightarrow> derive_deterministic_event_id F e)"

definition reduce_introspection ::
  "id_functions \<Rightarrow> timestamp \<Rightarrow> reg_state \<Rightarrow> introspection \<Rightarrow> infra_error + reg_output" where
  "reduce_introspection F now s e =
     (case event_id_of F e of
        Err err \<Rightarrow> Err err
      | Ok event_id \<Rightarrow>
          if is_duplicate_event s event_id then Ok (build_output s [] 0)
          else if validate_event e \<noteq> None then
            Ok (build_output (with_failure Validation_failed event_id s) [] 0)
          else
            let correlation_id = or_else (ie_correlation_id e) event_id in
            Ok (build_output (with_pending_registration (ie_node_id e) event_id s)
                  [build_postgres_intent now e correlation_id] 1))"

definition confirmation_payload :: "confirmation \<Rightarrow> string" where
  "confirmation_payload c =
     uuid_str (cf_correlation_id c) @ '':'' @ confirmation_type_value (cf_event_type c) @ '':'' @
     uuid_str (cf_node_id c)"

definition derive_confirmation_event_id :: "id_functions \<Rightarrow> confirmation \<Rightarrow> uuid" where
  "derive_confirmation_event_id F c = uuid5 F namespace_registration (confirmation_payload c)"

text \<open>
  The enumeration has one member, so the look-up in the failure map and the comparison on the
  success path always succeed.
\<close>

definition reduce_confirmation :: "id_functions \<Rightarrow> reg_state \<Rightarrow> confirmation \<Rightarrow> reg_output" where
  "reduce_confirmation F s c =
     (case rg_node_id s of
        None \<Rightarrow> build_output s [] 0
      | Some node_id \<Rightarrow>
          if cf_node_id c \<noteq> node_id then build_output s [] 0
          else if rg_status s \<in> {COMPLETE, FAILED} then build_output s [] 0
          else
            let event_id = derive_confirmation_event_id F c in
            if is_duplicate_event s event_id then build_output s [] 0
            else if \<not> cf_success c then
              (case cf_event_type c of
                 POSTGRES_REGISTRATION_UPSERTED \<Rightarrow>
                   build_output (with_failure Postgres_failed event_id s) [] 1)
            else
              (case cf_event_type c of
                 POSTGRES_REGISTRATION_UPSERTED \<Rightarrow>
                   build_output (with_postgres_confirmed event_id s) [] 1))"

definition reduce_reset :: "reg_state \<Rightarrow> uuid \<Rightarrow> reg_output" where
  "reduce_reset s reset_event_id =
     (if is_duplicate_event s reset_event_id then build_output s [] 0
      else if \<not> can_reset s then
        build_output (with_failure Invalid_reset_state reset_event_id s) [] 1
      else build_output (with_reset reset_event_id s) [] 1)"

lemmas reg_ops =
  with_pending_registration_def with_postgres_confirmed_def with_failure_def with_reset_def
  is_duplicate_event_def can_reset_def build_output_def

section \<open>The reducer over its event stream\<close>

text \<open>
  The runtime routes three kinds of event to the reducer and persists the returned state; when an
  entry point raises, nothing is persisted.
\<close>

datatype reg_event =
    Introspected introspection timestamp | Confirmed confirmation | ResetRequested uuid

fun reg_reduce :: "id_functions \<Rightarrow> reg_state \<Rightarrow> reg_event \<Rightarrow> reg_state \<times> postgres_intent list" where
  "reg_reduce F s (Introspected e now) =
     (case reduce_introspection F now s e of Err _ \<Rightarrow> (s, []) | Ok r \<Rightarrow> (ro_state r, ro_intents r))"
| "reg_reduce F s (Confirmed c) =
     (ro_state (reduce_confirmation F s c), ro_intents (reduce_confirmation F s c))"
| "reg_reduce F s (ResetRequested u) = (ro_state (reduce_reset s u), ro_intents (reduce_reset s u))"

lemma reg_redelivery: "reg_reduce F (fst (reg_reduce F s e)) e = (fst (reg_reduce F s e), [])"
proof (cases e)
  case (Introspected i now)
  then show ?thesis
    by (cases "event_id_of F i")
       (auto simp: reduce_introspection_def reg_ops Let_def)
next
  case (Confirmed c)
  then show ?thesis
    by (cases "cf_event_type c")
       (auto simp: reduce_confirmation_def reg_ops Let_def split: option.splits)
next
  case (ResetRequested u)
  then show ?thesis by (auto simp: reduce_reset_def reg_ops)
qed

interpretation reg_log: redelivery_safe "reg_reduce F"
  by unfold_locales (rule reg_redelivery)

text \<open>Each status fixes what the other fields may be; the deprecated values never appear.\<close>

definition reg_inv :: "reg_state \<Rightarrow> bool" where
  "reg_inv s \<longleftrightarrow>
     \<not> rg_consul_confirmed s \<and>
     (rg_failure s \<noteq> None \<longleftrightarrow> rg_status s = FAILED) \<and>
     (case rg_status s of
        IDLE \<Rightarrow> rg_node_id s = None \<and> \<not> rg_postgres_confirmed s
      | PENDING \<Rightarrow> rg_node_id s \<noteq> None \<and> \<not> rg_postgres_confirmed s
      | PARTIAL \<Rightarrow> False
      | COMPLETE \<Rightarrow> rg_node_id s \<noteq> None \<and> rg_postgres_confirmed s
      | FAILED \<Rightarrow> rg_failure s \<in> {Some Validation_failed, Some Postgres_failed, Some Invalid_reset_state})"

lemma reg_inv_transitions [preserve]:
  "reg_inv (with_pending_registration (Some n) u s)"
  "reg_inv s \<Longrightarrow> rg_node_id s \<noteq> None \<Longrightarrow> reg_inv (with_postgres_confirmed u s)"
  "reg_inv s \<Longrightarrow> reg_inv (with_failure Validation_failed u s)"
  "reg_inv s \<Longrightarrow> reg_inv (with_failure Postgres_failed u s)"
  "reg_inv s \<Longrightarrow> reg_inv (with_failure Invalid_reset_state u s)"
  "reg_inv (with_reset u s)"
  by (simp_all add: reg_inv_def with_pending_registration_def with_postgres_confirmed_def
      with_failure_def with_reset_def)

lemma reg_inv_introspection:
  "reduce_introspection F now s e = Ok r \<Longrightarrow> reg_inv s \<Longrightarrow> reg_inv (ro_state r)"
  by (auto simp: reduce_introspection_def validate_event_def build_output_def Let_def preserve
      split: sum.splits if_splits)

lemma reg_inv_confirmation: "reg_inv s \<Longrightarrow> reg_inv (ro_state (reduce_confirmation F s c))"
  by (cases "cf_event_type c")
     (auto simp: reduce_confirmation_def build_output_def Let_def preserve split: option.splits)

lemma reg_inv_reset: "reg_inv s \<Longrightarrow> reg_inv (ro_state (reduce_reset s u))"
  by (simp add: reduce_reset_def build_output_def preserve)

lemma reg_inv_step: "reg_inv s \<Longrightarrow> reg_inv (fst (reg_reduce F s e))"
  by (cases e)
     (auto simp: reg_inv_introspection reg_inv_confirmation reg_inv_reset split: sum.splits)

interpretation reg_machine: invariant_machine "\<lambda>s. s = initial_reg_state"
    "\<lambda>e s t. t = fst (reg_reduce F s e)" reg_inv
  by unfold_locales (auto simp: reg_inv_step, simp add: initial_reg_state_def reg_inv_def)

section \<open>Properties\<close>


text \<open>
  every state the workflow can reach is well formed: a pending or complete registration names
  its node, exactly the complete ones are confirmed by PostgreSQL among those two, a failure
  reason is present exactly in the failed status and is one the reducer emits, and neither
  the partial status nor the Consul flag ever appears.
\<close>
lemma registration_state_ok:
  assumes "reach (\<lambda>s. s = initial_reg_state) (\<lambda>e s t. t = fst (reg_reduce F s e)) s"
  shows "rg_status s \<noteq> PARTIAL \<and> \<not> rg_consul_confirmed s \<and>
    (rg_status s = PENDING \<longrightarrow> rg_node_id s \<noteq> None \<and> \<not> rg_postgres_confirmed s) \<and>
    (rg_status s = COMPLETE \<longrightarrow> rg_node_id s \<noteq> None \<and> rg_postgres_confirmed s) \<and>
    (rg_status s = FAILED \<longleftrightarrow> rg_failure s \<noteq> None) \<and>
    rg_failure s \<notin> {Some Consul_failed, Some Both_failed}"
  using reg_machine.reach_inv [OF assms] by (auto simp: reg_inv_def split: registration_status.splits)

definition sample_node :: introspection where
  "sample_node = \<lparr>ie_node_id = Some 11, ie_node_type = Some EFFECT, ie_node_version = ''1.0.0'',
     ie_capabilities = None, ie_endpoints = [(''health'', ''http://n/health'')], ie_metadata = JNull,
     ie_correlation_id = Some 21, ie_timestamp = 0\<rparr>"

definition sample_confirmation :: confirmation where
  "sample_confirmation = \<lparr>cf_event_type = POSTGRES_REGISTRATION_UPSERTED, cf_correlation_id = 21,
     cf_node_id = 11, cf_success = True, cf_error_message = None, cf_timestamp = 1\<rparr>"

definition sample_ids :: id_functions where
  "sample_ids = \<lparr>uuid5 = \<lambda>ns s. of_nat (length s), isoformat = \<lambda>t. []\<rparr>"

lemma reduce_introspection_cases:
  assumes "reg_reduce F s (Introspected e now) = (t, is)"
  obtains (kept) "t = s" "is = []"
  | (rejected) "rg_status t = FAILED" "is = []"
  | (started) corr where "rg_status t = PENDING" "rg_node_id t = ie_node_id e" "ie_node_id e \<noteq> None"
      "is = [build_postgres_intent now e corr]" "event_id_of F e = Ok corr"
  using assms
  by (cases "event_id_of F e"; cases "ie_correlation_id e")
     (auto simp: reduce_introspection_def reg_ops Let_def validate_event_def event_id_of_def
       split: if_splits)

lemma reduce_confirmation_cases:
  assumes "reg_reduce F s (Confirmed c) = (t, is)"
  obtains (kept) "t = s" "is = []"
  | (failed) "rg_status t = FAILED" "is = []" "\<not> cf_success c" "rg_node_id s = Some (cf_node_id c)"
  | (completed) "rg_status t = COMPLETE" "is = []" "cf_success c" "rg_node_id s = Some (cf_node_id c)"
      "rg_node_id t = rg_node_id s" "rg_status s \<notin> {COMPLETE, FAILED}"
  using assms
  by (cases "cf_event_type c")
     (auto simp: reduce_confirmation_def reg_ops Let_def split: option.splits if_splits)

lemma reduce_reset_cases:
  assumes "reg_reduce F s (ResetRequested u) = (t, is)"
  obtains (kept) "t = s" "is = []"
  | (idle) "rg_status t = IDLE" "is = []" "rg_status s \<in> {COMPLETE, FAILED}"
  | (refused) "rg_status t = FAILED" "is = []" "rg_status s \<notin> {COMPLETE, FAILED}"
  using assms by (auto simp: reduce_reset_def reg_ops split: if_splits)

lemma run_reg_inv: "reg_inv s \<Longrightarrow> reg_inv (fst (run_reducer (reg_reduce F) s es))"
  by (induction es arbitrary: s) (simp_all add: split_beta reg_inv_step)

lemma run_snoc:
  "run_reducer r s (es @ [e]) =
     (fst (r (fst (run_reducer r s es)) e),
      snd (run_reducer r s es) @ snd (r (fst (run_reducer r s es)) e))"
  by (simp add: run_reducer_append split_beta)

definition started_for :: "reg_event list \<Rightarrow> postgres_intent list \<Rightarrow> uuid \<Rightarrow> bool" where
  "started_for es is n \<longleftrightarrow>
     (\<exists>e now corr. Introspected e now \<in> set es \<and> ie_node_id e = Some n \<and>
        build_postgres_intent now e corr \<in> set is)"

lemma pending_history:
  assumes "rg_status (fst (run_reducer (reg_reduce F) initial_reg_state es)) = PENDING"
    and "rg_node_id (fst (run_reducer (reg_reduce F) initial_reg_state es)) = Some n"
  shows "started_for es (snd (run_reducer (reg_reduce F) initial_reg_state es)) n"
  using assms
proof (induction es rule: rev_induct)
  case Nil
  then show ?case by (simp add: initial_reg_state_def)
next
  case (snoc ev es)
  let ?s = "fst (run_reducer (reg_reduce F) initial_reg_state es)"
  obtain t "is" where step: "reg_reduce F ?s ev = (t, is)" by fastforce
  have t: "rg_status t = PENDING" "rg_node_id t = Some n"
    using snoc.prems step by (simp_all add: run_snoc)
  have keep: "started_for (es @ [ev]) (snd (run_reducer (reg_reduce F) initial_reg_state (es @ [ev]))) n"
    if "t = ?s"
    using snoc.IH t that by (auto simp: started_for_def run_snoc)
  show ?case
  proof (cases ev)
    case (Introspected e now)
    from step [unfolded Introspected] show ?thesis
    proof (cases rule: reduce_introspection_cases)
      case (started corr)
      then have "snd (run_reducer (reg_reduce F) initial_reg_state (es @ [ev])) =
          snd (run_reducer (reg_reduce F) initial_reg_state es) @ [build_postgres_intent now e corr]"
        using step by (simp add: run_snoc)
      then show ?thesis using started t Introspected by (auto simp: started_for_def)
    qed (use t keep in auto)
  next
    case (Confirmed c)
    from step [unfolded Confirmed] show ?thesis
      by (cases rule: reduce_confirmation_cases) (use t keep in auto)
  next
    case (ResetRequested u)
    from step [unfolded ResetRequested] show ?thesis
      by (cases rule: reduce_reset_cases) (use t keep in auto)
  qed
qed

text \<open>
  a registration is complete only for a reason: when the workflow ends in the complete status,
  the stream of events contains an introspection event of that very node for which an upsert
  intent was published, and later a successful confirmation for the same node.
\<close>
lemma completion_has_a_history:
  assumes "rg_status (fst (run_reducer (reg_reduce F) initial_reg_state es)) = COMPLETE"
  shows "\<exists>n c xs ys. rg_node_id (fst (run_reducer (reg_reduce F) initial_reg_state es)) = Some n \<and>
    es = xs @ Confirmed c # ys \<and> cf_success c \<and> cf_node_id c = n \<and>
    started_for xs (snd (run_reducer (reg_reduce F) initial_reg_state xs)) n"
  using assms
proof (induction es rule: rev_induct)
  case Nil
  then show ?case by (simp add: initial_reg_state_def)
next
  case (snoc ev es)
  let ?s = "fst (run_reducer (reg_reduce F) initial_reg_state es)"
  obtain t "is" where step: "reg_reduce F ?s ev = (t, is)" by fastforce
  have t: "fst (run_reducer (reg_reduce F) initial_reg_state (es @ [ev])) = t" "rg_status t = COMPLETE"
    using snoc.prems step by (simp_all add: run_snoc)
  have keep: ?case if "t = ?s"
    using snoc.IH t that by (auto simp: t(1)) (metis append_Cons append_assoc)
  show ?case
  proof (cases ev)
    case (Introspected e now)
    from step [unfolded Introspected] show ?thesis
      by (cases rule: reduce_introspection_cases) (use t keep in auto)
  next
    case (Confirmed c)
    from step [unfolded Confirmed] show ?thesis
    proof (cases rule: reduce_confirmation_cases)
      case completed
      have "reg_inv ?s" by (rule run_reg_inv) (simp add: initial_reg_state_def reg_inv_def)
      then have "rg_status ?s = PENDING"
        using completed by (auto simp: reg_inv_def split: registration_status.splits)
      from pending_history [OF this completed(4)] show ?thesis
        using completed t Confirmed by (auto simp: t(1))
    qed (use t keep in auto)
  next
    case (ResetRequested u)
    from step [unfolded ResetRequested] show ?thesis
      by (cases rule: reduce_reset_cases) (use t keep in auto)
  qed
qed

text \<open>
  the duplicate check remembers one event only: after a registration has completed, the same
  introspection event delivered again takes the workflow back to pending and publishes a second
  upsert intent.
\<close>
lemma late_redelivery_restarts:
  assumes "ie_correlation_id e = Some a" "is_valid e" "ie_node_id e = Some n"
    and "cf_node_id c = n" "cf_success c"
    and "derive_confirmation_event_id F c \<noteq> a"
  shows "rg_status (fst (run_reducer (reg_reduce F) initial_reg_state
        [Introspected e t1, Confirmed c])) = COMPLETE \<and>
    rg_status (fst (run_reducer (reg_reduce F) initial_reg_state
        [Introspected e t1, Confirmed c, Introspected e t2])) = PENDING \<and>
    length (snd (run_reducer (reg_reduce F) initial_reg_state
        [Introspected e t1, Confirmed c, Introspected e t2])) = 2"
  using assms
  by (cases "cf_event_type c")
     (simp add: reduce_introspection_def reduce_confirmation_def event_id_of_def is_valid_def
       initial_reg_state_def reg_ops Let_def)

end
