(* ===== verification/RegistrationDecision.thy ===== *)
theory RegistrationDecision imports RegistrationReducer begin

text \<open>
  Decisions of the registration orchestrator: the workflow states of
  \<^verbatim>\<open>enums/enum_registration_state.py\<close>, the read model
  \<^verbatim>\<open>models/projection/model_registration_projection.py\<close> with its position
  \<^verbatim>\<open>model_sequence_info.py\<close>, and the four decision functions of
  \<^verbatim>\<open>nodes/node_registration_orchestrator/services/registration_reducer_service.py\<close>. Datetimes are
  microseconds. The feature flags of the projection are left out: no decision reads them.
\<close>

section \<open>Workflow states\<close>

datatype registration_state =
    PENDING_REGISTRATION | ACCEPTED | AWAITING_ACK | REJECTED | ACK_TIMED_OUT | ACK_RECEIVED | ACTIVE
  | LIVENESS_EXPIRED

fun registration_state_value :: "registration_state \<Rightarrow> string" where
  "registration_state_value PENDING_REGISTRATION = ''pending_registration''"
| "registration_state_value ACCEPTED = ''accepted''"
| "registration_state_value AWAITING_ACK = ''awaiting_ack''"
| "registration_state_value REJECTED = ''rejected''"
| "registration_state_value ACK_TIMED_OUT = ''ack_timed_out''"
| "registration_state_value ACK_RECEIVED = ''ack_received''"
| "registration_state_value ACTIVE = ''active''"
| "registration_state_value LIVENESS_EXPIRED = ''liveness_expired''"

definition is_terminal :: "registration_state \<Rightarrow> bool" where
  "is_terminal s \<longleftrightarrow> s \<in> {REJECTED, LIVENESS_EXPIRED}"

definition is_active :: "registration_state \<Rightarrow> bool" where
  "is_active s \<longleftrightarrow> s = ACTIVE"

definition requires_ack :: "registration_state \<Rightarrow> bool" where
  "requires_ack s \<longleftrightarrow> s \<in> {ACCEPTED, AWAITING_ACK}"

definition requires_liveness :: "registration_state \<Rightarrow> bool" where
  "requires_liveness s \<longleftrightarrow> s = ACTIVE"

definition can_retry :: "registration_state \<Rightarrow> bool" where
  "can_retry s \<longleftrightarrow> s = ACK_TIMED_OUT"

fun valid_transitions :: "registration_state \<Rightarrow> registration_state set" where
  "valid_transitions PENDING_REGISTRATION = {ACCEPTED, REJECTED}"
| "valid_transitions ACCEPTED = {AWAITING_ACK}"
| "valid_transitions AWAITING_ACK = {ACK_RECEIVED, ACK_TIMED_OUT}"
| "valid_transitions ACK_RECEIVED = {ACTIVE}"
| "valid_transitions ACTIVE = {LIVENESS_EXPIRED}"
| "valid_transitions ACK_TIMED_OUT = {PENDING_REGISTRATION}"
| "valid_transitions REJECTED = {}"
| "valid_transitions LIVENESS_EXPIRED = {}"

definition can_transition_to :: "registration_state \<Rightarrow> registration_state \<Rightarrow> bool" where
  "can_transition_to s target \<longleftrightarrow> target \<in> valid_transitions s"

lemmas state_predicates =
  is_terminal_def is_active_def requires_ack_def requires_liveness_def can_retry_def can_transition_to_def

section \<open>Positions in the event stream\<close>

datatype sequence_info =
  SequenceInfo (sq_sequence: int) (sq_partition: "string option") (sq_offset: "int option")

definition is_stale_compared_to :: "sequence_info \<Rightarrow> sequence_info \<Rightarrow> bool" where
  "is_stale_compared_to x y \<longleftrightarrow>
     (if sq_sequence x < sq_sequence y then True
      else if sq_sequence x = sq_sequence y then
        (case (sq_offset x, sq_offset y) of
           (Some i, Some j) \<Rightarrow> if sq_partition x = sq_partition y then i < j else False
         | _ \<Rightarrow> False)
      else False)"

definition is_newer_than :: "sequence_info \<Rightarrow> sequence_info \<Rightarrow> bool" where
  "is_newer_than x y \<longleftrightarrow> is_stale_compared_to y x"

definition from_kafka :: "int \<Rightarrow> int \<Rightarrow> sequence_info" where
  "from_kafka part off = SequenceInfo off (Some (string_of_int part)) (Some off)"

definition from_sequence :: "int \<Rightarrow> sequence_info" where
  "from_sequence n = SequenceInfo n None None"

text \<open>Staleness is the strict part of a partial order on positions.\<close>

instantiation sequence_info :: order
begin

definition less_sequence_info :: "sequence_info \<Rightarrow> sequence_info \<Rightarrow> bool" where
  "less_sequence_info x y \<longleftrightarrow> is_stale_compared_to x y"

definition less_eq_sequence_info :: "sequence_info \<Rightarrow> sequence_info \<Rightarrow> bool" where
  "less_eq_sequence_info x y \<longleftrightarrow> x = y \<or> is_stale_compared_to x y"

instance
  by standard
    (auto simp: less_sequence_info_def less_eq_sequence_info_def is_stale_compared_to_def
       split: option.splits if_splits)

end

section \<open>The registration projection\<close>

record registration_projection =
  rp_entity_id :: uuid
  rp_domain :: string
  rp_current_state :: registration_state
  rp_node_type :: node_kind
  rp_node_version :: string
  rp_capabilities :: json
  rp_contract_type :: "string option"
  rp_intent_types :: "string list"
  rp_protocols :: "string list"
  rp_capability_tags :: "string list"
  rp_contract_version :: "string option"
  rp_ack_deadline :: "timestamp option"
  rp_liveness_deadline :: "timestamp option"
  rp_last_heartbeat_at :: "timestamp option"
  rp_ack_timeout_emitted_at :: "timestamp option"
  rp_liveness_timeout_emitted_at :: "timestamp option"
  rp_last_applied_event_id :: uuid
  rp_last_applied_offset :: int
  rp_last_applied_sequence :: "int option"
  rp_last_applied_partition :: "string option"
  rp_registered_at :: timestamp
  rp_updated_at :: timestamp
  rp_correlation_id :: "uuid option"

text \<open>A partition that is absent or empty is falsy.\<close>

definition get_sequence_info :: "registration_projection \<Rightarrow> sequence_info" where
  "get_sequence_info p =
     SequenceInfo
       (case rp_last_applied_sequence p of None \<Rightarrow> rp_last_applied_offset p | Some n \<Rightarrow> n)
       (rp_last_applied_partition p)
       (if rp_last_applied_partition p \<in> {None, Some []} then None else Some (rp_last_applied_offset p))"

definition is_stale :: "registration_projection \<Rightarrow> sequence_info \<Rightarrow> bool" where
  "is_stale p incoming \<longleftrightarrow> is_stale_compared_to incoming (get_sequence_info p)"

definition has_ack_deadline_passed :: "registration_projection \<Rightarrow> timestamp \<Rightarrow> bool" where
  "has_ack_deadline_passed p now \<longleftrightarrow>
     (case rp_ack_deadline p of None \<Rightarrow> False | Some d \<Rightarrow> now > d)"

definition has_liveness_deadline_passed :: "registration_projection \<Rightarrow> timestamp \<Rightarrow> bool" where
  "has_liveness_deadline_passed p now \<longleftrightarrow>
     (case rp_liveness_deadline p of None \<Rightarrow> False | Some d \<Rightarrow> now > d)"

definition needs_ack_timeout_event :: "registration_projection \<Rightarrow> timestamp \<Rightarrow> bool" where
  "needs_ack_timeout_event p now \<longleftrightarrow>
     (if \<not> has_ack_deadline_passed p now then False
      else if rp_ack_timeout_emitted_at p \<noteq> None then False
      else requires_ack (rp_current_state p))"

definition needs_liveness_timeout_event :: "registration_projection \<Rightarrow> timestamp \<Rightarrow> bool" where
  "needs_liveness_timeout_event p now \<longleftrightarrow>
     (if \<not> has_liveness_deadline_passed p now then False
      else if rp_liveness_timeout_emitted_at p \<noteq> None then False
      else is_active (rp_current_state p))"

section \<open>Events and intents\<close>

record node_introspection =
  ni_node_id :: uuid
  ni_node_type :: node_kind
  ni_node_version :: string
  ni_declared_capabilities :: json
  ni_correlation_id :: uuid

record registration_acked =
  ra_command_id :: uuid
  ra_node_id :: uuid

datatype registration_event =
    RegistrationInitiated (ev_node: uuid) (ev_correlation: uuid) (ev_causation: uuid)
      (ev_emitted_at: timestamp) (ev_attempt: uuid)
  | BecameActive (ev_node: uuid) (ev_correlation: uuid) (ev_causation: uuid)
      (ev_emitted_at: timestamp) (ev_capabilities: json)
  | AckReceived (ev_node: uuid) (ev_correlation: uuid) (ev_causation: uuid)
      (ev_emitted_at: timestamp) (ev_liveness_deadline: timestamp)
  | AckTimedOut (ev_node: uuid) (ev_correlation: uuid) (ev_causation: uuid)
      (ev_emitted_at: timestamp) (ev_deadline_at: timestamp)
      (ev_previous_state: "registration_state option")
  | LivenessExpired (ev_node: uuid) (ev_correlation: uuid) (ev_causation: uuid)
      (ev_emitted_at: timestamp) (ev_last_heartbeat_at: "timestamp option")

text \<open>
  The payloads of the intents. A projection record is the row it writes, column by column; the
  state is kept as such where the code writes the text of its value.
\<close>

record projection_record =
  pr_entity_id :: uuid
  pr_domain :: string
  pr_current_state :: registration_state
  pr_node_type :: node_kind
  pr_node_version :: string
  pr_capabilities :: json
  pr_liveness_deadline :: timestamp
  pr_last_applied_event_id :: uuid
  pr_registered_at :: timestamp
  pr_updated_at :: timestamp
  pr_last_heartbeat_at :: timestamp
  pr_correlation_id :: uuid

datatype registration_updates =
    AckUpdate registration_state timestamp timestamp
  | HeartbeatUpdate timestamp timestamp timestamp

datatype registration_payload =
    UpsertRegistration uuid projection_record
  | UpdateRegistration uuid uuid string registration_updates

record registration_intent =
  in_target :: string
  in_payload :: registration_payload

definition mk_registration_intent :: "uuid \<Rightarrow> registration_payload \<Rightarrow> registration_intent" where
  "mk_registration_intent node_id payload =
     \<lparr>in_target = ''postgres://node_registrations/'' @ uuid_str node_id, in_payload = payload\<rparr>"

datatype decision_action = Emit | No_op

record reducer_decision =
  rd_action :: decision_action
  rd_new_state :: "registration_state option"
  rd_events :: "registration_event list"
  rd_intents :: "registration_intent list"

definition no_op :: reducer_decision where
  "no_op = \<lparr>rd_action = No_op, rd_new_state = None, rd_events = [], rd_intents = []\<rparr>"

section \<open>The decision service\<close>

record reducer_service =
  rs_liveness_interval_seconds :: int
  rs_liveness_window_seconds :: seconds

text \<open>\<open>timedelta(seconds=x)\<close> in microseconds, rounded half to even.\<close>

definition round_half_even :: "real \<Rightarrow> int" where
  "round_half_even x =
     (let n = \<lfloor>x\<rfloor>; frac = x - real_of_int n in
      if frac < 1 / 2 then n else if frac > 1 / 2 then n + 1 else if even n then n else n + 1)"

definition timedelta_seconds :: "seconds \<Rightarrow> int" where
  "timedelta_seconds x = round_half_even (x * real_of_int usec_per_sec)"

definition retriable_states :: "registration_state set" where
  "retriable_states = {LIVENESS_EXPIRED, REJECTED, ACK_TIMED_OUT, AWAITING_ACK}"

definition blocking_states :: "registration_state set" where
  "blocking_states = {PENDING_REGISTRATION, ACCEPTED, ACK_RECEIVED, ACTIVE}"

text \<open>The registration attempt identifier (\<open>uuid4()\<close>) is the argument \<open>attempt\<close>.\<close>

definition decide_introspection ::
  "reducer_service \<Rightarrow> uuid \<Rightarrow> registration_projection option \<Rightarrow> node_introspection \<Rightarrow> uuid \<Rightarrow>
   timestamp \<Rightarrow> reducer_decision" where
  "decide_introspection svc attempt projection event cid now =
     (let should_initiate = (case projection of
            None \<Rightarrow> True
          | Some p \<Rightarrow>
              if rp_current_state p \<in> retriable_states then True
              else if rp_current_state p \<in> blocking_states then False
              else False)
      in
      if \<not> should_initiate then no_op
      else
        let node_id = ni_node_id event;
            initiated = RegistrationInitiated node_id cid (ni_correlation_id event) now attempt;
            capabilities = ni_declared_capabilities event;
            liveness_deadline = now + rs_liveness_interval_seconds svc * usec_per_sec;
            became_active = BecameActive node_id cid (ni_correlation_id event) now capabilities;
            row = \<lparr>pr_entity_id = node_id, pr_domain = ''registration'', pr_current_state = ACTIVE,
              pr_node_type = ni_node_type event, pr_node_version = ni_node_version event,
              pr_capabilities = capabilities, pr_liveness_deadline = liveness_deadline,
              pr_last_applied_event_id = attempt, pr_registered_at = now, pr_updated_at = now,
              pr_last_heartbeat_at = now, pr_correlation_id = cid\<rparr>
        in \<lparr>rd_action = Emit, rd_new_state = Some ACTIVE, rd_events = [initiated, became_active],
            rd_intents = [mk_registration_intent node_id (UpsertRegistration cid row)]\<rparr>)"

definition decide_ack ::
  "reducer_service \<Rightarrow> registration_projection option \<Rightarrow> registration_acked \<Rightarrow> uuid \<Rightarrow> timestamp \<Rightarrow>
   reducer_decision" where
  "decide_ack svc projection command cid now =
     (case projection of
        None \<Rightarrow> no_op
      | Some p \<Rightarrow>
          let current_state = rp_current_state p; node_id = ra_node_id command in
          if current_state \<in> {ACCEPTED, AWAITING_ACK} then
            let liveness_deadline = now + rs_liveness_interval_seconds svc * usec_per_sec;
                ack_received = AckReceived node_id cid (ra_command_id command) now liveness_deadline;
                became_active = BecameActive node_id cid (ra_command_id command) now (rp_capabilities p)
            in \<lparr>rd_action = Emit, rd_new_state = Some ACTIVE, rd_events = [ack_received, became_active],
                rd_intents = [mk_registration_intent node_id
                  (UpdateRegistration cid node_id ''registration'' (AckUpdate ACTIVE liveness_deadline now))]\<rparr>
          else if current_state \<in> {ACK_RECEIVED, ACTIVE} then no_op
          else if current_state = PENDING_REGISTRATION then no_op
          else if current_state = ACK_TIMED_OUT then no_op
          else if is_terminal current_state then no_op
          else no_op)"

record reducer_context =
  rc_correlation_id :: uuid
  rc_now :: timestamp
  rc_tick_id :: "uuid option"

definition decide_heartbeat ::
  "reducer_service \<Rightarrow> registration_projection option \<Rightarrow> uuid \<Rightarrow> timestamp \<Rightarrow> reducer_context \<Rightarrow>
   reducer_decision" where
  "decide_heartbeat svc projection node_id heartbeat_timestamp ctx =
     (case projection of
        None \<Rightarrow> no_op
      | Some p \<Rightarrow>
          if is_terminal (rp_current_state p) then no_op
          else
            let deadline = heartbeat_timestamp + timedelta_seconds (rs_liveness_window_seconds svc)
            in \<lparr>rd_action = Emit, rd_new_state = None, rd_events = [],
                rd_intents = [mk_registration_intent node_id
                  (UpdateRegistration (rc_correlation_id ctx) node_id ''registration''
                    (HeartbeatUpdate heartbeat_timestamp deadline (rc_now ctx)))]\<rparr>)"

text \<open>
  The timeout events require the identifier of the tick that caused them: without one their model
  rejects the first event to be built.
\<close>

definition decide_timeout ::
  "registration_projection list \<Rightarrow> registration_projection list \<Rightarrow> reducer_context \<Rightarrow>
   infra_error + reducer_decision" where
  "decide_timeout overdue_ack overdue_liveness ctx =
     (let acks = [p \<leftarrow> overdue_ack. needs_ack_timeout_event p (rc_now ctx) \<and> rp_ack_deadline p \<noteq> None];
          expired = [p \<leftarrow> overdue_liveness. needs_liveness_timeout_event p (rc_now ctx)]
      in
      if acks = [] \<and> expired = [] then Ok no_op
      else case rc_tick_id ctx of
        None \<Rightarrow> Err ValidationError
      | Some tick \<Rightarrow> Ok \<lparr>rd_action = Emit, rd_new_state = None,
          rd_events =
            map (\<lambda>p. AckTimedOut (rp_entity_id p) (rc_correlation_id ctx) tick (rc_now ctx)
                   (the (rp_ack_deadline p)) None) acks @
            map (\<lambda>p. LivenessExpired (rp_entity_id p) (rc_correlation_id ctx) tick (rc_now ctx)
                   (rp_last_heartbeat_at p)) expired,
          rd_intents = []\<rparr>)"

end
