(* ===== verification/ProjectionTable.thy ===== *)
theory ProjectionTable imports RegistrationDecision CircuitBreaker begin

text \<open>
  The table \<^verbatim>\<open>registration_projections\<close> and the code that writes and reads it: the intent effects
  \<^verbatim>\<open>runtime/intent_effects/intent_effect_postgres_upsert.py\<close> and \<^verbatim>\<open>intent_effect_postgres_update.py\<close>,
  the marker update \<open>_partial_update\<close> of \<^verbatim>\<open>runtime/mixins/mixin_projector_sql_operations.py\<close>, and the
  queries of \<^verbatim>\<open>projectors/projection_reader_registration.py\<close>. The schema makes \<open>entity_id\<close> unique, so
  the table is a dictionary on it. The SQL statements are modelled by their effect on the table;
  whether the database answers is an argument.
\<close>

type_synonym projection_table = "(uuid, registration_projection) py_dict"

definition db_context :: "string \<Rightarrow> uuid \<Rightarrow> error_context" where
  "db_context oper cid = \<lparr>ctx_transport = Some DATABASE, ctx_operation = Some oper, ctx_target = None,
     ctx_correlation = cid\<rparr>"

text \<open>How the database answers a statement.\<close>

datatype db_outcome = Answered | UnreadableRows | ConnectionLost | QueryCanceled | OtherDbError

text \<open>
  The errors the projector raises from \<open>upsert_partial\<close> and \<open>partial_update\<close>
  (\<^verbatim>\<open>runtime/projector_shell.py\<close>).
\<close>

definition projector_error :: "string \<Rightarrow> uuid \<Rightarrow> db_outcome \<Rightarrow> infra_error" where
  "projector_error oper cid outcome =
     (let ctx = \<lparr>ctx_transport = Some DATABASE, ctx_operation = Some oper,
            ctx_target = Some ''projector.registration-projector'', ctx_correlation = cid\<rparr>
      in case outcome of
        ConnectionLost \<Rightarrow> InfraConnectionError ctx
      | QueryCanceled \<Rightarrow> InfraTimeoutError ctx None
      | _ \<Rightarrow> RuntimeHostError ctx)"

section \<open>Writing\<close>

text \<open>The columns an upsert writes; the ones the record leaves constant are NULL or empty.\<close>

definition upsert_columns ::
  "projection_record \<Rightarrow> registration_projection \<Rightarrow> registration_projection" where
  "upsert_columns r row = row\<lparr>
     rp_current_state := pr_current_state r, rp_node_type := pr_node_type r,
     rp_node_version := pr_node_version r, rp_capabilities := pr_capabilities r,
     rp_contract_type := None, rp_intent_types := [], rp_protocols := [], rp_capability_tags := [],
     rp_contract_version := None, rp_liveness_deadline := Some (pr_liveness_deadline r),
     rp_last_heartbeat_at := Some (pr_last_heartbeat_at r),
     rp_last_applied_event_id := pr_last_applied_event_id r, rp_registered_at := pr_registered_at r,
     rp_updated_at := pr_updated_at r, rp_correlation_id := Some (pr_correlation_id r)\<rparr>"

text \<open>A new row takes the schema's defaults in the other columns.\<close>

definition inserted_row :: "projection_record \<Rightarrow> registration_projection" where
  "inserted_row r =
     \<lparr>rp_entity_id = pr_entity_id r, rp_domain = pr_domain r, rp_current_state = pr_current_state r,
      rp_node_type = pr_node_type r, rp_node_version = pr_node_version r,
      rp_capabilities = pr_capabilities r, rp_contract_type = None, rp_intent_types = [],
      rp_protocols = [], rp_capability_tags = [], rp_contract_version = None, rp_ack_deadline = None,
      rp_liveness_deadline = Some (pr_liveness_deadline r),
      rp_last_heartbeat_at = Some (pr_last_heartbeat_at r), rp_ack_timeout_emitted_at = None,
      rp_liveness_timeout_emitted_at = None, rp_last_applied_event_id = pr_last_applied_event_id r,
      rp_last_applied_offset = 0, rp_last_applied_sequence = None, rp_last_applied_partition = None,
      rp_registered_at = pr_registered_at r, rp_updated_at = pr_updated_at r,
      rp_correlation_id = Some (pr_correlation_id r)\<rparr>"

text \<open>
  The conflict target is \<open>(entity_id, domain)\<close>: a row of the same entity in another domain breaks
  the uniqueness of \<open>entity_id\<close> instead.
\<close>

definition execute_upsert ::
  "db_outcome \<Rightarrow> uuid option \<Rightarrow> registration_payload \<Rightarrow> projection_table \<Rightarrow> infra_error + projection_table" where
  "execute_upsert outcome cid payload tbl =
     (case payload of
        UpdateRegistration pcid _ _ _ \<Rightarrow>
          Err (RuntimeHostError (db_context ''intent_effect_postgres_upsert'' (or_else cid pcid)))
      | UpsertRegistration pcid r \<Rightarrow>
          if outcome \<noteq> Answered then Err (projector_error ''upsert_partial'' (or_else cid pcid) outcome)
          else case dict_get tbl (pr_entity_id r) of
            None \<Rightarrow> Ok (dict_put (pr_entity_id r) (inserted_row r) tbl)
          | Some row \<Rightarrow>
              if rp_domain row \<noteq> pr_domain r
              then Err (projector_error ''upsert_partial'' (or_else cid pcid) OtherDbError)
              else Ok (dict_put (pr_entity_id r) (upsert_columns r row) tbl))"

fun update_columns :: "registration_updates \<Rightarrow> registration_projection \<Rightarrow> registration_projection" where
  "update_columns (AckUpdate st deadline updated) row =
     row\<lparr>rp_current_state := st, rp_liveness_deadline := Some deadline, rp_updated_at := updated\<rparr>"
| "update_columns (HeartbeatUpdate heartbeat deadline updated) row =
     row\<lparr>rp_last_heartbeat_at := Some heartbeat, rp_liveness_deadline := Some deadline,
       rp_updated_at := updated\<rparr>"

text \<open>The guard in the WHERE clause: only a heartbeat newer than the stored one is written.\<close>

fun heartbeat_guard :: "registration_updates \<Rightarrow> registration_projection \<Rightarrow> bool" where
  "heartbeat_guard (AckUpdate _ _ _) row = True"
| "heartbeat_guard (HeartbeatUpdate heartbeat _ _) row =
     (case rp_last_heartbeat_at row of None \<Rightarrow> True | Some t \<Rightarrow> t < heartbeat)"

definition execute_update ::
  "db_outcome \<Rightarrow> uuid option \<Rightarrow> registration_payload \<Rightarrow> projection_table \<Rightarrow> infra_error + projection_table" where
  "execute_update outcome cid payload tbl =
     (case payload of
        UpsertRegistration pcid _ \<Rightarrow>
          Err (RuntimeHostError (db_context ''intent_effect_postgres_update'' (or_else cid pcid)))
      | UpdateRegistration pcid entity_id domain updates \<Rightarrow>
          if outcome \<noteq> Answered then
            Err (RuntimeHostError (db_context ''intent_effect_postgres_update'' (or_else cid pcid)))
          else Ok (case dict_get tbl entity_id of
            None \<Rightarrow> tbl
          | Some row \<Rightarrow>
              if rp_domain row = domain \<and> heartbeat_guard updates row
              then dict_put entity_id (update_columns updates row) tbl else tbl))"

text \<open>The effect registered for a payload executes it.\<close>

definition execute_intent ::
  "db_outcome \<Rightarrow> registration_payload \<Rightarrow> projection_table \<Rightarrow> infra_error + projection_table" where
  "execute_intent outcome payload tbl =
     (case payload of
        UpsertRegistration cid _ \<Rightarrow> execute_upsert outcome (Some cid) payload tbl
      | UpdateRegistration cid _ _ _ \<Rightarrow> execute_update outcome (Some cid) payload tbl)"

datatype emission_marker = ACK_TIMEOUT_EMITTED_AT | LIVENESS_TIMEOUT_EMITTED_AT

fun marker_of :: "emission_marker \<Rightarrow> registration_projection \<Rightarrow> timestamp option" where
  "marker_of ACK_TIMEOUT_EMITTED_AT row = rp_ack_timeout_emitted_at row"
| "marker_of LIVENESS_TIMEOUT_EMITTED_AT row = rp_liveness_timeout_emitted_at row"

fun set_marker :: "emission_marker \<Rightarrow> timestamp \<Rightarrow> registration_projection \<Rightarrow> registration_projection" where
  "set_marker ACK_TIMEOUT_EMITTED_AT at_time row =
     row\<lparr>rp_ack_timeout_emitted_at := Some at_time, rp_updated_at := at_time\<rparr>"
| "set_marker LIVENESS_TIMEOUT_EMITTED_AT at_time row =
     row\<lparr>rp_liveness_timeout_emitted_at := Some at_time, rp_updated_at := at_time\<rparr>"

text \<open>
  \<open>partial_update\<close> with the two columns of an emission marker; \<open>primary_key\<close> is the key of the
  projector's contract, which must be a single column.
\<close>

definition partial_update ::
  "string list \<Rightarrow> db_outcome \<Rightarrow> uuid \<Rightarrow> emission_marker \<Rightarrow> timestamp \<Rightarrow> uuid \<Rightarrow> projection_table \<Rightarrow>
   infra_error + bool \<times> projection_table" where
  "partial_update primary_key outcome aggregate_id marker at_time cid tbl =
     (if length primary_key > 1 then
        Err (ProtocolConfigurationError \<lparr>ctx_transport = Some RUNTIME,
          ctx_operation = Some ''partial_update'', ctx_target = None, ctx_correlation = cid\<rparr> None None)
      else if outcome \<noteq> Answered then Err (projector_error ''partial_update'' cid outcome)
      else Ok (case dict_get tbl aggregate_id of
        None \<Rightarrow> (False, tbl)
      | Some row \<Rightarrow> (True, dict_put aggregate_id (set_marker marker at_time row) tbl)))"

section \<open>Reading\<close>

definition entity_state_row :: "uuid \<Rightarrow> string \<Rightarrow> projection_table \<Rightarrow> registration_projection option" where
  "entity_state_row entity_id domain tbl =
     (case dict_get tbl entity_id of
        None \<Rightarrow> None
      | Some row \<Rightarrow> if rp_domain row = domain then Some row else None)"

text \<open>
  The rows the statements select. Rows with a NULL deadline do not satisfy the comparison. Rows with equal deadlines come in
  the order of the table, a choice the database is free to make otherwise.
\<close>

definition overdue_ack_rows ::
  "timestamp \<Rightarrow> string \<Rightarrow> nat \<Rightarrow> projection_table \<Rightarrow> registration_projection list" where
  "overdue_ack_rows now domain limit tbl =
     take limit (sort_key (\<lambda>row. the (rp_ack_deadline row))
       [row \<leftarrow> map snd tbl. rp_domain row = domain \<and>
          (case rp_ack_deadline row of None \<Rightarrow> False | Some d \<Rightarrow> d < now) \<and>
          rp_ack_timeout_emitted_at row = None \<and> rp_current_state row \<in> {ACCEPTED, AWAITING_ACK}])"

definition overdue_liveness_rows ::
  "timestamp \<Rightarrow> string \<Rightarrow> nat \<Rightarrow> projection_table \<Rightarrow> registration_projection list" where
  "overdue_liveness_rows now domain limit tbl =
     take limit (sort_key (\<lambda>row. the (rp_liveness_deadline row))
       [row \<leftarrow> map snd tbl. rp_domain row = domain \<and>
          (case rp_liveness_deadline row of None \<Rightarrow> False | Some d \<Rightarrow> d < now) \<and>
          rp_liveness_timeout_emitted_at row = None \<and> rp_current_state row = ACTIVE])"

text \<open>
  Every query of the reader runs under its circuit breaker: it is checked before the query, reset
  once the rows are fetched, and charged with a failure on every exception. A row that cannot be
  converted raises after the reset. \<open>before\<close> and \<open>after\<close> are the clock at the check and at the end.
\<close>

record query_env =
  qe_fresh :: uuid
  qe_before :: seconds
  qe_after :: seconds
  qe_outcome :: db_outcome

definition guarded_query ::
  "string \<Rightarrow> uuid \<Rightarrow> query_env \<Rightarrow> 'r \<Rightarrow> breaker \<Rightarrow> (infra_error + 'r) \<times> breaker" where
  "guarded_query oper cid env rows b =
     (let ctx = \<lparr>ctx_transport = Some DATABASE, ctx_operation = Some oper,
            ctx_target = Some ''projection_reader.registration'', ctx_correlation = cid\<rparr>
      in case check_circuit_breaker oper (Some cid) (qe_fresh env) (qe_before env) b of
        Err e \<Rightarrow> (Err e, b)
      | Ok b1 \<Rightarrow>
          (case qe_outcome env of
             Answered \<Rightarrow> (Ok rows, reset_circuit_breaker b1)
           | UnreadableRows \<Rightarrow> (Err (RuntimeHostError ctx),
               record_circuit_failure (qe_after env) (reset_circuit_breaker b1))
           | ConnectionLost \<Rightarrow> (Err (InfraConnectionError ctx), record_circuit_failure (qe_after env) b1)
           | QueryCanceled \<Rightarrow> (Err (InfraTimeoutError ctx None), record_circuit_failure (qe_after env) b1)
           | OtherDbError \<Rightarrow> (Err (RuntimeHostError ctx), record_circuit_failure (qe_after env) b1)))"

definition get_entity_state ::
  "uuid \<Rightarrow> string \<Rightarrow> uuid \<Rightarrow> query_env \<Rightarrow> projection_table \<Rightarrow> breaker \<Rightarrow>
   (infra_error + registration_projection option) \<times> breaker" where
  "get_entity_state entity_id domain cid env tbl =
     guarded_query ''get_entity_state'' cid env (entity_state_row entity_id domain tbl)"

definition get_overdue_ack_registrations ::
  "timestamp \<Rightarrow> string \<Rightarrow> nat \<Rightarrow> uuid \<Rightarrow> query_env \<Rightarrow> projection_table \<Rightarrow> breaker \<Rightarrow>
   (infra_error + registration_projection list) \<times> breaker" where
  "get_overdue_ack_registrations now domain limit cid env tbl =
     guarded_query ''get_overdue_ack_registrations'' cid env (overdue_ack_rows now domain limit tbl)"

definition get_overdue_liveness_registrations ::
  "timestamp \<Rightarrow> string \<Rightarrow> nat \<Rightarrow> uuid \<Rightarrow> query_env \<Rightarrow> projection_table \<Rightarrow> breaker \<Rightarrow>
   (infra_error + registration_projection list) \<times> breaker" where
  "get_overdue_liveness_registrations now domain limit cid env tbl =
     guarded_query ''get_overdue_liveness_registrations'' cid env
       (overdue_liveness_rows now domain limit tbl)"

section \<open>What writing leaves alone\<close>

text \<open>Every row is stored under its own entity.\<close>

definition keyed :: "projection_table \<Rightarrow> bool" where
  "keyed tbl \<longleftrightarrow> wf_dict tbl \<and> (\<forall>k row. dict_get tbl k = Some row \<longrightarrow> rp_entity_id row = k)"

lemma keyed_get: "keyed tbl \<Longrightarrow> dict_get tbl k = Some row \<Longrightarrow> rp_entity_id row = k"
  by (simp add: keyed_def)

lemma keyed_put: "keyed tbl \<Longrightarrow> rp_entity_id row = k \<Longrightarrow> keyed (dict_put k row tbl)"
  by (simp add: keyed_def dict_get_put)

lemma keyed_row: "keyed tbl \<Longrightarrow> row \<in> set (map snd tbl) \<Longrightarrow> dict_get tbl (rp_entity_id row) = Some row"
  by (auto simp: keyed_def dict_in)

lemma entity_id_kept [simp]:
  "rp_entity_id (upsert_columns r row) = rp_entity_id row"
  "rp_entity_id (update_columns u row) = rp_entity_id row"
  "rp_entity_id (set_marker m t row) = rp_entity_id row"
  "rp_entity_id (inserted_row r) = pr_entity_id r"
  by (simp_all add: upsert_columns_def inserted_row_def) (cases u; cases m; simp)+

lemma markers_kept [simp]:
  "marker_of m (upsert_columns r row) = marker_of m row"
  "marker_of m (update_columns u row) = marker_of m row"
  "marker_of m (inserted_row r) = None"
  by (cases m; cases u; simp add: upsert_columns_def inserted_row_def)+

lemma marker_set:
  "marker_of m (set_marker m' t row) = (if m = m' then Some t else marker_of m row)"
  by (cases m; cases m'; simp)

lemma execute_intent_cases:
  assumes "execute_intent outcome payload tbl = Ok tbl'"
  obtains "tbl' = tbl"
  | r where "dict_get tbl (pr_entity_id r) = None" "tbl' = dict_put (pr_entity_id r) (inserted_row r) tbl"
  | r row where "dict_get tbl (pr_entity_id r) = Some row"
      "tbl' = dict_put (pr_entity_id r) (upsert_columns r row) tbl"
  | k u row where "dict_get tbl k = Some row" "heartbeat_guard u row" "tbl' = dict_put k (update_columns u row) tbl"
proof (cases payload)
  case (UpsertRegistration c r)
  have eff: "execute_upsert outcome (Some c) (UpsertRegistration c r) tbl = Ok tbl'"
    using assms UpsertRegistration by (simp add: execute_intent_def)
  show thesis
  proof (cases "dict_get tbl (pr_entity_id r)")
    case None
    then have "tbl' = dict_put (pr_entity_id r) (inserted_row r) tbl"
      using eff by (simp add: execute_upsert_def Let_def split: if_splits)
    then show thesis by (rule that(2) [OF None])
  next
    case (Some row)
    then have "tbl' = dict_put (pr_entity_id r) (upsert_columns r row) tbl"
      using eff by (simp add: execute_upsert_def Let_def split: if_splits)
    then show thesis by (rule that(3) [OF Some])
  qed
next
  case (UpdateRegistration c k d u)
  have eff: "execute_update outcome (Some c) (UpdateRegistration c k d u) tbl = Ok tbl'"
    using assms UpdateRegistration by (simp add: execute_intent_def)
  show thesis
  proof (cases "\<exists>row. dict_get tbl k = Some row \<and> rp_domain row = d \<and> heartbeat_guard u row")
    case True
    then obtain row where row: "dict_get tbl k = Some row" "rp_domain row = d" "heartbeat_guard u row"
      by blast
    then have "tbl' = dict_put k (update_columns u row) tbl"
      using eff by (simp add: execute_update_def split: if_splits)
    then show thesis by (rule that(4) [OF row(1,3)])
  next
    case False
    then have "tbl' = tbl"
      using eff by (simp add: execute_update_def split: if_splits option.splits)
    then show thesis by (rule that(1))
  qed
qed

lemma execute_intent_keyed:
  assumes "execute_intent outcome payload tbl = Ok tbl'" "keyed tbl"
  shows "keyed tbl'"
  using assms(1)
  by (rule execute_intent_cases) (use assms(2) in \<open>auto intro!: keyed_put dest: keyed_get\<close>)

lemma execute_intent_marker:
  assumes "execute_intent outcome payload tbl = Ok tbl'" "dict_get tbl k = Some row"
  shows "\<exists>row'. dict_get tbl' k = Some row' \<and> (\<forall>m. marker_of m row' = marker_of m row)"
  using assms(1)
  by (rule execute_intent_cases) (use assms(2) in \<open>auto simp: dict_get_put\<close>)

lemma partial_update_marker:
  assumes "partial_update pk outcome a m t cid tbl = Ok (found, tbl')" "dict_get tbl k = Some row"
  shows "\<exists>row'. dict_get tbl' k = Some row' \<and>
    (\<forall>m'. marker_of m' row' = (if k = a \<and> m' = m then Some t else marker_of m' row))"
  using assms
  by (auto simp: partial_update_def dict_get_put marker_set split: if_splits option.splits)

lemma partial_update_keyed:
  assumes "partial_update pk outcome a m t cid tbl = Ok (found, tbl')" "keyed tbl"
  shows "keyed tbl'"
  using assms
  by (auto simp: partial_update_def intro!: keyed_put dest: keyed_get split: if_splits option.splits)

text \<open>A query row carries an unset marker and an overdue deadline, and is in the table.\<close>

lemma overdue_liveness_row:
  assumes "row \<in> set (overdue_liveness_rows now domain limit tbl)"
  shows "row \<in> set (map snd tbl) \<and> rp_current_state row = ACTIVE \<and>
    marker_of LIVENESS_TIMEOUT_EMITTED_AT row = None \<and> (\<exists>d. rp_liveness_deadline row = Some d \<and> d < now)"
  using in_set_takeD [OF assms [unfolded overdue_liveness_rows_def]]
  by (auto split: option.splits)

lemma overdue_ack_row:
  assumes "row \<in> set (overdue_ack_rows now domain limit tbl)"
  shows "row \<in> set (map snd tbl) \<and> requires_ack (rp_current_state row) \<and>
    marker_of ACK_TIMEOUT_EMITTED_AT row = None \<and> (\<exists>d. rp_ack_deadline row = Some d \<and> d < now)"
  using in_set_takeD [OF assms [unfolded overdue_ack_rows_def]]
  by (auto simp: requires_ack_def split: option.splits)

end
