(* ===== verification/RegistrationOrchestrator.thy ===== *)
theory RegistrationOrchestrator
  imports ProjectionTable "HOL-Library.List_Lexorder" "HOL-Library.Char_ord"
begin

text \<open>
  The registration orchestrator: the handlers of \<^verbatim>\<open>nodes/node_registration_orchestrator/handlers\<close>,
  which read the projection and turn the decisions of the reducer service into events and intents,
  the topic store of \<^verbatim>\<open>services/service_introspection_topic_store.py\<close>, and the durable timeouts:
  \<^verbatim>\<open>services/service_timeout_scanner.py\<close>, \<^verbatim>\<open>services/service_timeout_emitter.py\<close> and
  \<^verbatim>\<open>timeout_coordinator.py\<close>. Handlers, the effect layer that executes the intents and the timeout
  ticks are the steps of one transition system, in which an intent may run long after the handler
  that asked for it and may run again. Timestamps are timezone-aware, so the guards against naive
  ones do not appear; processing times and logs are left out.
\<close>

section \<open>Topic store\<close>

type_synonym topic_store = "(string, string list) py_dict"

definition update_node :: "string \<Rightarrow> string list \<Rightarrow> topic_store \<Rightarrow> topic_store" where
  "update_node node_id publish_topics st = dict_put node_id (remdups publish_topics) st"

definition get_evt_topics :: "topic_store \<Rightarrow> string list" where
  "get_evt_topics st =
     sort [t \<leftarrow> remdups (concat (map snd st)). take (length ''onex.evt.'') t = ''onex.evt.'']"

definition get_node_count :: "topic_store \<Rightarrow> nat" where
  "get_node_count st = length st"

definition count_nodes_missing_event_bus :: "topic_store \<Rightarrow> nat" where
  "count_nodes_missing_event_bus st = length [e \<leftarrow> st. snd e = []]"

definition topic_snapshot :: "topic_store \<Rightarrow> string list \<times> nat \<times> nat" where
  "topic_snapshot st = (get_evt_topics st, length st, length [e \<leftarrow> st. snd e = []])"

section \<open>Handlers\<close>

record handler_output =
  ho_events :: "registration_event list"
  ho_intents :: "registration_payload list"

definition no_output :: handler_output where
  "no_output = \<lparr>ho_events = [], ho_intents = []\<rparr>"

definition output_of :: "reducer_decision \<Rightarrow> handler_output" where
  "output_of d = \<lparr>ho_events = rd_events d, ho_intents = map in_payload (rd_intents d)\<rparr>"

text \<open>
  \<open>topics\<close> are the publish topics of the event's bus configuration, \<open>None\<close> when it has none; the
  store itself is optional too.
\<close>

definition handle_introspected ::
  "reducer_service \<Rightarrow> uuid \<Rightarrow> node_introspection \<Rightarrow> string list option \<Rightarrow> uuid \<Rightarrow> timestamp \<Rightarrow> query_env \<Rightarrow>
   projection_table \<Rightarrow> topic_store option \<Rightarrow> breaker \<Rightarrow>
   (infra_error + handler_output) \<times> topic_store option \<times> breaker" where
  "handle_introspected svc attempt event topics cid now env tbl store b =
     (let node_id = ni_node_id event;
          store' = map_option (update_node (uuid_str node_id)
            (case topics of Some ts \<Rightarrow> ts | None \<Rightarrow> [])) store
      in case get_entity_state node_id ''registration'' cid env tbl b of
           (Err e, b') \<Rightarrow> (Err e, store', b')
         | (Ok projection, b') \<Rightarrow>
             let decision = decide_introspection svc attempt projection event cid now in
             if rd_action decision = No_op then (Ok no_output, store', b')
             else (Ok (output_of decision), store', b'))"

text \<open>The snapshot a successful ack publishes is best effort and leaves the output unchanged.\<close>

definition handle_registration_acked ::
  "reducer_service \<Rightarrow> registration_acked \<Rightarrow> uuid \<Rightarrow> timestamp \<Rightarrow> query_env \<Rightarrow> projection_table \<Rightarrow> breaker \<Rightarrow>
   (infra_error + handler_output) \<times> breaker" where
  "handle_registration_acked svc command cid now env tbl b =
     (case get_entity_state (ra_node_id command) ''registration'' cid env tbl b of
        (Err e, b') \<Rightarrow> (Err e, b')
      | (Ok projection, b') \<Rightarrow>
          let decision = decide_ack svc projection command cid now in
          if rd_action decision = No_op then (Ok no_output, b') else (Ok (output_of decision), b'))"

definition handle_node_heartbeat ::
  "reducer_service \<Rightarrow> uuid \<Rightarrow> timestamp \<Rightarrow> uuid \<Rightarrow> timestamp \<Rightarrow> query_env \<Rightarrow> projection_table \<Rightarrow> breaker \<Rightarrow>
   (infra_error + handler_output) \<times> breaker" where
  "handle_node_heartbeat svc node_id event_timestamp cid now env tbl b =
     (case get_entity_state node_id ''registration'' cid env tbl b of
        (Err e, b') \<Rightarrow> (Err e, b')
      | (Ok None, b') \<Rightarrow> (Ok no_output, b')
      | (Ok (Some p), b') \<Rightarrow>
          if is_terminal (rp_current_state p) then (Ok no_output, b')
          else
            let decision = decide_heartbeat svc (Some p) node_id event_timestamp
                  \<lparr>rc_correlation_id = cid, rc_now = now, rc_tick_id = None\<rparr>
            in if rd_action decision = No_op then (Ok no_output, b')
               else (Ok (output_of decision), b'))"

section \<open>Timeouts\<close>

datatype timeout_event =
    NodeAckTimedOut (te_node: uuid) (te_deadline: timestamp) (te_detected_at: timestamp)
      registration_state uuid uuid
  | NodeLivenessExpired (te_node: uuid) (te_deadline: timestamp) (te_detected_at: timestamp)
      "timestamp option" uuid uuid

text \<open>
  \<open>asyncio.gather\<close> runs both queries; the failure of one is reported after both ran, the first
  one winning. The queries run one after the other here, one of the schedules it allows.
\<close>

definition find_overdue_entities ::
  "timestamp \<Rightarrow> string \<Rightarrow> uuid \<Rightarrow> nat \<Rightarrow> query_env \<Rightarrow> query_env \<Rightarrow> projection_table \<Rightarrow> breaker \<Rightarrow>
   (infra_error + registration_projection list \<times> registration_projection list) \<times> breaker" where
  "find_overdue_entities now domain cid batch_size env1 env2 tbl b =
     (let (acks, b1) = get_overdue_ack_registrations now domain batch_size cid env1 tbl b;
          (expired, b2) = get_overdue_liveness_registrations now domain batch_size cid env2 tbl b1
      in (case acks of
            Err e \<Rightarrow> Err e
          | Ok ps \<Rightarrow> (case expired of Err e \<Rightarrow> Err e | Ok qs \<Rightarrow> Ok (ps, qs)), b2))"

text \<open>What one emission meets: the error of the publish, and the answer to the marker update.\<close>

record emit_env =
  ee_publish :: "infra_error option"
  ee_marker :: db_outcome

type_synonym emit_state = "timeout_event list \<times> projection_table"

definition publish_and_mark ::
  "string list \<Rightarrow> emit_env \<Rightarrow> uuid \<Rightarrow> emission_marker \<Rightarrow> timestamp \<Rightarrow> uuid \<Rightarrow> timeout_event \<Rightarrow> emit_state \<Rightarrow>
   (infra_error + unit) \<times> emit_state" where
  "publish_and_mark pk env node marker detected_at cid event st =
     (case ee_publish env of
        Some e \<Rightarrow> (Err e, st)
      | None \<Rightarrow>
          let published = fst st @ [event] in
          (case partial_update pk (ee_marker env) node marker detected_at cid (snd st) of
             Err e \<Rightarrow> (Err e, (published, snd st))
           | Ok (_, tbl') \<Rightarrow> (Ok (), (published, tbl'))))"

definition emit_ack_timeout ::
  "string list \<Rightarrow> emit_env \<Rightarrow> timestamp \<Rightarrow> uuid \<Rightarrow> uuid \<Rightarrow> registration_projection \<Rightarrow> emit_state \<Rightarrow>
   (infra_error + unit) \<times> emit_state" where
  "emit_ack_timeout pk env detected_at tick_id cid p st =
     (case rp_ack_deadline p of
        None \<Rightarrow> (Err (ProtocolConfigurationError
            \<lparr>ctx_transport = Some DATABASE, ctx_operation = Some ''emit_ack_timeout'',
             ctx_target = Some ''registration_projection'', ctx_correlation = cid\<rparr> None None), st)
      | Some deadline \<Rightarrow>
          publish_and_mark pk env (rp_entity_id p) ACK_TIMEOUT_EMITTED_AT detected_at cid
            (NodeAckTimedOut (rp_entity_id p) deadline detected_at (rp_current_state p) cid tick_id) st)"

definition emit_liveness_expiration ::
  "string list \<Rightarrow> emit_env \<Rightarrow> timestamp \<Rightarrow> uuid \<Rightarrow> uuid \<Rightarrow> registration_projection \<Rightarrow> emit_state \<Rightarrow>
   (infra_error + unit) \<times> emit_state" where
  "emit_liveness_expiration pk env detected_at tick_id cid p st =
     (case rp_liveness_deadline p of
        None \<Rightarrow> (Err (ProtocolConfigurationError
            \<lparr>ctx_transport = Some DATABASE, ctx_operation = Some ''emit_liveness_expiration'',
             ctx_target = Some ''registration_projection'', ctx_correlation = cid\<rparr> None None), st)
      | Some deadline \<Rightarrow>
          publish_and_mark pk env (rp_entity_id p) LIVENESS_TIMEOUT_EMITTED_AT detected_at cid
            (NodeLivenessExpired (rp_entity_id p) deadline detected_at (rp_last_heartbeat_at p) cid
               tick_id) st)"

text \<open>The loop over the rows: a failure is recorded and the next row is tried.\<close>

fun emit_each ::
  "(registration_projection \<Rightarrow> emit_state \<Rightarrow> (infra_error + unit) \<times> emit_state) \<Rightarrow>
   registration_projection list \<Rightarrow> emit_state \<Rightarrow> nat \<times> (uuid \<times> infra_error) list \<times> emit_state" where
  "emit_each emit [] st = (0, [], st)"
| "emit_each emit (p # ps) st =
     (case emit p st of
        (Ok _, st1) \<Rightarrow> (let (n, errs, st2) = emit_each emit ps st1 in (Suc n, errs, st2))
      | (Err e, st1) \<Rightarrow>
          (let (n, errs, st2) = emit_each emit ps st1 in (n, (rp_entity_id p, e) # errs, st2)))"

record emission_result =
  er_ack_timeouts_emitted :: nat
  er_liveness_expirations_emitted :: nat
  er_markers_updated :: nat
  er_errors :: "(uuid \<times> infra_error) list"

definition process_timeouts ::
  "string list \<Rightarrow> nat \<Rightarrow> (emission_marker \<Rightarrow> uuid \<Rightarrow> emit_env) \<Rightarrow> query_env \<Rightarrow> query_env \<Rightarrow> timestamp \<Rightarrow> uuid \<Rightarrow>
   uuid \<Rightarrow> string \<Rightarrow> emit_state \<Rightarrow> breaker \<Rightarrow> (infra_error + emission_result) \<times> emit_state \<times> breaker" where
  "process_timeouts pk batch_size emits env1 env2 now tick_id cid domain st b =
     (case find_overdue_entities now domain cid batch_size env1 env2 (snd st) b of
        (Err e, b') \<Rightarrow> (Err e, st, b')
      | (Ok (acks, expired), b') \<Rightarrow>
          let (n_ack, errs1, st1) = emit_each
                (\<lambda>p. emit_ack_timeout pk (emits ACK_TIMEOUT_EMITTED_AT (rp_entity_id p)) now tick_id cid p)
                acks st;
              (n_live, errs2, st2) = emit_each
                (\<lambda>p. emit_liveness_expiration pk (emits LIVENESS_TIMEOUT_EMITTED_AT (rp_entity_id p))
                   now tick_id cid p)
                expired st1
          in (Ok \<lparr>er_ack_timeouts_emitted = n_ack, er_liveness_expirations_emitted = n_live,
                er_markers_updated = n_ack + n_live, er_errors = errs1 @ errs2\<rparr>, st2, b'))"

text \<open>The coordinator counts with its own query and lets the emitter query again.\<close>

record coordination_result =
  cn_ack_timeouts_found :: nat
  cn_liveness_expirations_found :: nat
  cn_emission :: "emission_result option"
  cn_error :: "infra_error option"

definition coordinate ::
  "string list \<Rightarrow> nat \<Rightarrow> (emission_marker \<Rightarrow> uuid \<Rightarrow> emit_env) \<Rightarrow> (nat \<Rightarrow> query_env) \<Rightarrow> timestamp \<Rightarrow> uuid \<Rightarrow>
   uuid \<Rightarrow> string \<Rightarrow> emit_state \<Rightarrow> breaker \<Rightarrow> coordination_result \<times> emit_state \<times> breaker" where
  "coordinate pk batch_size emits envs now tick_id cid domain st b =
     (case find_overdue_entities now domain cid batch_size (envs 0) (envs 1) (snd st) b of
        (Err e, b1) \<Rightarrow> (\<lparr>cn_ack_timeouts_found = 0, cn_liveness_expirations_found = 0,
           cn_emission = None, cn_error = Some e\<rparr>, st, b1)
      | (Ok (acks, expired), b1) \<Rightarrow>
          (case process_timeouts pk batch_size emits (envs 2) (envs 3) now tick_id cid domain st b1 of
             (Err e, st', b2) \<Rightarrow> (\<lparr>cn_ack_timeouts_found = 0, cn_liveness_expirations_found = 0,
                cn_emission = None, cn_error = Some e\<rparr>, st', b2)
           | (Ok r, st', b2) \<Rightarrow> (\<lparr>cn_ack_timeouts_found = length acks,
                cn_liveness_expirations_found = length expired, cn_emission = Some r,
                cn_error = None\<rparr>, st', b2)))"

text \<open>
  A runtime tick without a coordinator: the events are part of the handler's output and no marker
  is written. The reader's default limit is 100 rows.
\<close>

definition handle_runtime_tick ::
  "uuid \<Rightarrow> timestamp \<Rightarrow> uuid \<Rightarrow> query_env \<Rightarrow> query_env \<Rightarrow> projection_table \<Rightarrow> breaker \<Rightarrow>
   (infra_error + handler_output) \<times> breaker" where
  "handle_runtime_tick tick_id now cid env1 env2 tbl b =
     (case get_overdue_ack_registrations now ''registration'' 100 cid env1 tbl b of
        (Err e, b1) \<Rightarrow> (Err e, b1)
      | (Ok acks, b1) \<Rightarrow>
          (case get_overdue_liveness_registrations now ''registration'' 100 cid env2 tbl b1 of
             (Err e, b2) \<Rightarrow> (Err e, b2)
           | (Ok expired, b2) \<Rightarrow>
               (case decide_timeout acks expired
                    \<lparr>rc_correlation_id = cid, rc_now = now, rc_tick_id = Some tick_id\<rparr> of
                  Err e \<Rightarrow> (Err e, b2)
                | Ok decision \<Rightarrow> (Ok (output_of decision), b2))))"

section \<open>The orchestrator as a transition system\<close>

record orchestrator_config =
  og_service :: reducer_service
  og_primary_key :: "string list"
  og_batch_size :: nat

record orchestrator =
  oc_table :: projection_table
  oc_pending :: "registration_payload list"
  oc_events :: "registration_event list"
  oc_timeouts :: "timeout_event list"
  oc_topics :: "topic_store option"
  oc_breaker :: breaker

definition absorb :: "infra_error + handler_output \<Rightarrow> breaker \<Rightarrow> orchestrator \<Rightarrow> orchestrator" where
  "absorb result b s =
     (case result of
        Err _ \<Rightarrow> s\<lparr>oc_breaker := b\<rparr>
      | Ok out \<Rightarrow> s\<lparr>oc_pending := oc_pending s @ ho_intents out, oc_events := oc_events s @ ho_events out,
          oc_breaker := b\<rparr>)"

inductive orchestrator_step :: "orchestrator_config \<Rightarrow> orchestrator \<Rightarrow> orchestrator \<Rightarrow> bool"
  for cfg :: orchestrator_config where
  introspected:
    "handle_introspected (og_service cfg) attempt event topics cid now env (oc_table s) (oc_topics s)
       (oc_breaker s) = (result, store', b') \<Longrightarrow>
     orchestrator_step cfg s (absorb result b' (s\<lparr>oc_topics := store'\<rparr>))"
| acked:
    "handle_registration_acked (og_service cfg) command cid now env (oc_table s) (oc_breaker s) =
       (result, b') \<Longrightarrow> orchestrator_step cfg s (absorb result b' s)"
| heartbeat:
    "handle_node_heartbeat (og_service cfg) node_id t cid now env (oc_table s) (oc_breaker s) =
       (result, b') \<Longrightarrow> orchestrator_step cfg s (absorb result b' s)"
| executed:
    "payload \<in> set (oc_pending s) \<Longrightarrow> execute_intent outcome payload (oc_table s) = Ok tbl' \<Longrightarrow>
     orchestrator_step cfg s (s\<lparr>oc_table := tbl',
       oc_pending := (if redelivered then oc_pending s else remove1 payload (oc_pending s))\<rparr>)"
| ticked:
    "coordinate (og_primary_key cfg) (og_batch_size cfg) emits envs now tick_id cid ''registration''
       (oc_timeouts s, oc_table s) (oc_breaker s) = (result, (timeouts', tbl'), b') \<Longrightarrow>
     orchestrator_step cfg s (s\<lparr>oc_timeouts := timeouts', oc_table := tbl', oc_breaker := b'\<rparr>)"
| ticked_inline:
    "handle_runtime_tick tick_id now cid env1 env2 (oc_table s) (oc_breaker s) = (result, b') \<Longrightarrow>
     orchestrator_step cfg s (absorb result b' s)"

definition orchestrator_runs :: "orchestrator_config \<Rightarrow> orchestrator \<Rightarrow> orchestrator \<Rightarrow> bool" where
  "orchestrator_runs cfg = (orchestrator_step cfg)\<^sup>*\<^sup>*"

inductive_cases orchestrator_stepE: "orchestrator_step cfg s s'"

lemma absorb_simps [simp]:
  "oc_table (absorb result b s) = oc_table s" "oc_timeouts (absorb result b s) = oc_timeouts s"
  by (simp_all add: absorb_def split: sum.splits)

section \<open>Emission loops\<close>

lemma emit_each_keeps:
  assumes "\<And>p st r st'. p \<in> set ps \<Longrightarrow> emit p st = (r, st') \<Longrightarrow> I st \<Longrightarrow> I st'"
    "emit_each emit ps st = (n, errs, st')" "I st"
  shows "I st'"
  using assms
proof (induction ps arbitrary: st n errs)
  case (Cons p ps)
  obtain r st1 where step: "emit p st = (r, st1)" by (cases "emit p st")
  obtain n1 errs1 st2 where rest: "emit_each emit ps st1 = (n1, errs1, st2)" by (metis prod_cases3)
  have "I st1" using Cons.prems(1) [OF _ step] Cons.prems(3) by simp
  moreover have "emit_each emit ps st1 = (n1, errs1, st')"
    using Cons.prems(2) step rest by (cases r) auto
  moreover have "I v" if "q \<in> set ps" "emit q u = (w, v)" "I u" for q u w v
    using Cons.prems(1) [OF _ that(2,3)] that(1) by simp
  ultimately show ?case by (metis Cons.IH)
qed simp

text \<open>
  A node whose liveness marker is set, and the expiry events published for it.
\<close>

definition expiry_marked :: "uuid \<Rightarrow> projection_table \<Rightarrow> bool" where
  "expiry_marked k tbl \<longleftrightarrow>
     (case dict_get tbl k of None \<Rightarrow> False | Some row \<Rightarrow> rp_liveness_timeout_emitted_at row \<noteq> None)"

fun is_expiry_of :: "uuid \<Rightarrow> timeout_event \<Rightarrow> bool" where
  "is_expiry_of k (NodeLivenessExpired node _ _ _ _ _) = (node = k)"
| "is_expiry_of k (NodeAckTimedOut _ _ _ _ _ _) = False"

definition expiries :: "uuid \<Rightarrow> timeout_event list \<Rightarrow> timeout_event list" where
  "expiries k evs = filter (is_expiry_of k) evs"

lemma expiry_marked_iff:
  "expiry_marked k tbl \<longleftrightarrow>
     (\<exists>row. dict_get tbl k = Some row \<and> marker_of LIVENESS_TIMEOUT_EMITTED_AT row \<noteq> None)"
  by (auto simp: expiry_marked_def split: option.splits)

lemma execute_intent_expiry_marked:
  "execute_intent outcome payload tbl = Ok tbl' \<Longrightarrow> expiry_marked k tbl \<Longrightarrow> expiry_marked k tbl'"
  unfolding expiry_marked_iff by (metis execute_intent_marker)

lemma partial_update_expiry_marked:
  "partial_update pk outcome a m t cid tbl = Ok (found, tbl') \<Longrightarrow> expiry_marked k tbl \<Longrightarrow> expiry_marked k tbl'"
  unfolding expiry_marked_iff by (metis option.distinct(1) partial_update_marker)

lemma publish_and_mark_keeps:
  assumes "publish_and_mark pk env node m t cid ev st = (r, st')" "\<not> is_expiry_of k ev"
  shows "(expiry_marked k (snd st) \<longrightarrow> expiry_marked k (snd st')) \<and> (keyed (snd st) \<longrightarrow> keyed (snd st')) \<and>
    expiries k (fst st') = expiries k (fst st)"
proof (cases "ee_publish env")
  case (Some e)
  then show ?thesis using assms(1) by (simp add: publish_and_mark_def)
next
  case published: None
  have evs: "expiries k (fst st @ [ev]) = expiries k (fst st)"
    using assms(2) by (simp add: expiries_def)
  show ?thesis
  proof (cases "partial_update pk (ee_marker env) node m t cid (snd st)")
    case (Inl e)
    then show ?thesis using assms(1) published evs by (simp add: publish_and_mark_def Let_def) auto
  next
    case (Inr x)
    then obtain found tbl' where upd: "partial_update pk (ee_marker env) node m t cid (snd st) = Ok (found, tbl')"
      by (cases x) auto
    then have "st' = (fst st @ [ev], tbl')"
      using assms(1) published by (simp add: publish_and_mark_def Let_def)
    then show ?thesis
      using evs partial_update_expiry_marked [OF upd] partial_update_keyed [OF upd] by simp
  qed
qed

definition quiet_about :: "uuid \<Rightarrow> timeout_event list \<Rightarrow> emit_state \<Rightarrow> bool" where
  "quiet_about k evs st \<longleftrightarrow> expiry_marked k (snd st) \<and> expiries k (fst st) = expiries k evs \<and> keyed (snd st)"

lemma emit_ack_quiet:
  "emit_ack_timeout pk env t tick cid p st = (r, st') \<Longrightarrow> quiet_about k evs st \<Longrightarrow> quiet_about k evs st'"
  using publish_and_mark_keeps [where k = k and ev = "NodeAckTimedOut (rp_entity_id p) (the (rp_ack_deadline p))
      t (rp_current_state p) cid tick"]
  by (fastforce simp: emit_ack_timeout_def quiet_about_def split: option.splits)

lemma emit_liveness_quiet:
  "emit_liveness_expiration pk env t tick cid p st = (r, st') \<Longrightarrow> rp_entity_id p \<noteq> k \<Longrightarrow>
     quiet_about k evs st \<Longrightarrow> quiet_about k evs st'"
  using publish_and_mark_keeps [where k = k and ev = "NodeLivenessExpired (rp_entity_id p)
      (the (rp_liveness_deadline p)) t (rp_last_heartbeat_at p) cid tick"]
  by (fastforce simp: emit_liveness_expiration_def quiet_about_def split: option.splits)

text \<open>A marked node is never among the rows the liveness query selects.\<close>

lemma overdue_liveness_not_marked:
  assumes "p \<in> set (overdue_liveness_rows now domain limit tbl)" "keyed tbl" "expiry_marked k tbl"
  shows "rp_entity_id p \<noteq> k"
  using overdue_liveness_row [OF assms(1)] keyed_row [OF assms(2)] assms(3)
  by (fastforce simp: expiry_marked_iff)

lemma guarded_query_rows: "guarded_query oper cid env rows b = (Ok rows', b') \<Longrightarrow> rows' = rows"
  by (auto simp: guarded_query_def Let_def split: sum.splits db_outcome.splits)

lemma find_overdue_rows:
  assumes "find_overdue_entities now domain cid n env1 env2 tbl b = (Ok (acks, expired), b')"
  shows "acks = overdue_ack_rows now domain n tbl \<and> expired = overdue_liveness_rows now domain n tbl"
  using assms
  by (auto simp: find_overdue_entities_def Let_def get_overdue_ack_registrations_def
      get_overdue_liveness_registrations_def split: prod.splits sum.splits dest: guarded_query_rows)

lemma process_timeouts_quiet:
  assumes "process_timeouts pk n emits env1 env2 now tick cid domain st b = (r, st', b')" "quiet_about k evs st"
  shows "quiet_about k evs st'"
proof -
  obtain found b1 where found: "find_overdue_entities now domain cid n env1 env2 (snd st) b = (found, b1)"
    by (cases "find_overdue_entities now domain cid n env1 env2 (snd st) b")
  show ?thesis
  proof (cases found)
    case (Inl e)
    then show ?thesis using assms found by (simp add: process_timeouts_def)
  next
    case (Inr rows)
    obtain acks expired where rows: "rows = (acks, expired)" by (cases rows)
    let ?A = "\<lambda>p. emit_ack_timeout pk (emits ACK_TIMEOUT_EMITTED_AT (rp_entity_id p)) now tick cid p"
    let ?L = "\<lambda>p. emit_liveness_expiration pk (emits LIVENESS_TIMEOUT_EMITTED_AT (rp_entity_id p)) now tick cid p"
    obtain n1 errs1 st1 where acked: "emit_each ?A acks st = (n1, errs1, st1)"
      by (cases "emit_each ?A acks st" rule: prod_cases3)
    obtain n2 errs2 st2 where live: "emit_each ?L expired st1 = (n2, errs2, st2)"
      by (cases "emit_each ?L expired st1" rule: prod_cases3)
    have acks_quiet: "quiet_about k evs st1"
      by (rule emit_each_keeps [where I = "quiet_about k evs", OF _ acked assms(2)]) (rule emit_ack_quiet)
    have other: "rp_entity_id p \<noteq> k" if "p \<in> set expired" for p
      using overdue_liveness_not_marked [of p now domain n "snd st" k] that assms(2)
        find_overdue_rows [OF found [unfolded Inr rows]] by (simp add: quiet_about_def)
    have "quiet_about k evs st2"
      by (rule emit_each_keeps [where I = "quiet_about k evs", OF _ live acks_quiet])
         (rule emit_liveness_quiet [OF _ other])
    then show ?thesis
      using assms(1) found Inr rows acked live by (simp add: process_timeouts_def)
  qed
qed

lemma coordinate_quiet:
  assumes "coordinate pk n emits envs now tick cid domain st b = (r, st', b')" "quiet_about k evs st"
  shows "quiet_about k evs st'"
  using assms process_timeouts_quiet [OF _ assms(2)]
  by (auto simp: coordinate_def split: prod.splits sum.splits)

lemma orchestrator_step_quiet:
  assumes "orchestrator_step cfg s s'" "quiet_about k evs (oc_timeouts s, oc_table s)"
  shows "quiet_about k evs (oc_timeouts s', oc_table s')"
  using assms(1)
proof cases
  case (executed payload outcome tbl' redelivered)
  then show ?thesis
    using assms(2) execute_intent_expiry_marked execute_intent_keyed by (auto simp: quiet_about_def)
next
  case ticked
  then show ?thesis using coordinate_quiet assms(2) by fastforce
qed (use assms(2) in simp_all)

section \<open>Healthy ticks\<close>

text \<open>The effect of a marker update that the database answers.\<close>

definition mark_row :: "emission_marker \<Rightarrow> timestamp \<Rightarrow> uuid \<Rightarrow> projection_table \<Rightarrow> projection_table" where
  "mark_row m t k tbl =
     (case dict_get tbl k of None \<Rightarrow> tbl | Some row \<Rightarrow> dict_put k (set_marker m t row) tbl)"

definition marked :: "emission_marker \<Rightarrow> uuid \<Rightarrow> projection_table \<Rightarrow> bool" where
  "marked m k tbl \<longleftrightarrow> (\<exists>row. dict_get tbl k = Some row \<and> marker_of m row \<noteq> None)"

definition healthy :: "string list \<Rightarrow> emit_env \<Rightarrow> bool" where
  "healthy pk env \<longleftrightarrow> length pk \<le> 1 \<and> ee_publish env = None \<and> ee_marker env = Answered"

lemma publish_and_mark_healthy:
  "healthy pk env \<Longrightarrow> publish_and_mark pk env node m t cid ev st =
     (Ok (), (fst st @ [ev], mark_row m t node (snd st)))"
  by (simp add: healthy_def publish_and_mark_def partial_update_def mark_row_def Let_def split: option.splits)

lemma emit_each_healthy:
  assumes "\<And>p st. p \<in> set ps \<Longrightarrow>
    emit p st = (Ok (), (fst st @ [ev p], mark_row m t (rp_entity_id p) (snd st)))"
  shows "emit_each emit ps st =
    (length ps, [], (fst st @ map ev ps, fold (\<lambda>p. mark_row m t (rp_entity_id p)) ps (snd st)))"
  using assms by (induction ps arbitrary: st) simp_all

lemma mark_row_get:
  "dict_get (mark_row m t k tbl) k' = (if k' = k then map_option (set_marker m t) (dict_get tbl k)
     else dict_get tbl k')"
  by (auto simp: mark_row_def dict_get_put split: option.splits)

lemma marked_mark_row: "marked m k tbl \<Longrightarrow> marked m k (mark_row m' t k' tbl)"
  by (auto simp: marked_def mark_row_get marker_set)

lemma marked_fold: "marked m k tbl \<Longrightarrow> marked m k (fold (\<lambda>p. mark_row m' t (rp_entity_id p)) ps tbl)"
  by (induction ps arbitrary: tbl) (simp_all add: marked_mark_row)

lemma fold_marks:
  "p \<in> set ps \<Longrightarrow> dict_get tbl (rp_entity_id p) \<noteq> None \<Longrightarrow>
     marked m (rp_entity_id p) (fold (\<lambda>p. mark_row m t (rp_entity_id p)) ps tbl)"
proof (induction ps arbitrary: tbl)
  case (Cons q ps)
  show ?case
  proof (cases "rp_entity_id p = rp_entity_id q")
    case True
    then have "marked m (rp_entity_id p) (mark_row m t (rp_entity_id q) tbl)"
      using Cons.prems(2) by (auto simp: marked_def mark_row_get marker_set)
    then show ?thesis by (simp add: marked_fold)
  next
    case False
    then have "p \<in> set ps" using Cons.prems(1) by auto
    then show ?thesis using Cons.IH [of "mark_row m t (rp_entity_id q) tbl"] Cons.prems(2) False
      by (simp add: mark_row_get)
  qed
qed simp

lemma fold_mark_present:
  "dict_get tbl k \<noteq> None \<Longrightarrow> dict_get (fold (\<lambda>p. mark_row m t (rp_entity_id p)) ps tbl) k \<noteq> None"
proof (induction ps arbitrary: tbl)
  case (Cons p ps)
  have "dict_get (mark_row m t (rp_entity_id p) tbl) k \<noteq> None"
    using Cons.prems by (auto simp: mark_row_get)
  then show ?case using Cons.IH by simp
qed simp

definition ack_event :: "timestamp \<Rightarrow> uuid \<Rightarrow> uuid \<Rightarrow> registration_projection \<Rightarrow> timeout_event" where
  "ack_event now tick cid p = NodeAckTimedOut (rp_entity_id p) (the (rp_ack_deadline p)) now
     (rp_current_state p) cid tick"

definition expiry_event :: "timestamp \<Rightarrow> uuid \<Rightarrow> uuid \<Rightarrow> registration_projection \<Rightarrow> timeout_event" where
  "expiry_event now tick cid p = NodeLivenessExpired (rp_entity_id p) (the (rp_liveness_deadline p)) now
     (rp_last_heartbeat_at p) cid tick"

lemma keyed_present: "keyed tbl \<Longrightarrow> row \<in> set (map snd tbl) \<Longrightarrow> dict_get tbl (rp_entity_id row) \<noteq> None"
  by (simp add: keyed_row)

section \<open>Properties\<close>


text \<open>every decision that registers a node takes it straight to ACTIVE, which the state machine of
  the enumeration allows from none of the states the decision is taken in.\<close>
lemma decisions_bypass_fsm:
  "(rd_action (decide_introspection svc attempt (Some p) event cid now) = Emit \<longrightarrow>
      rd_new_state (decide_introspection svc attempt (Some p) event cid now) = Some ACTIVE \<and>
      \<not> can_transition_to (rp_current_state p) ACTIVE) \<and>
   (rd_action (decide_ack svc (Some p) command cid now) = Emit \<longrightarrow>
      rd_new_state (decide_ack svc (Some p) command cid now) = Some ACTIVE \<and>
      \<not> can_transition_to (rp_current_state p) ACTIVE)"
  by (auto simp: decide_introspection_def decide_ack_def can_transition_to_def retriable_states_def
      blocking_states_def no_op_def Let_def)

text \<open>C11: a tick over a working bus and database publishes exactly one event for every overdue row the
  two queries select, the acks first and each group by deadline, reports no error, and leaves every
  one of those rows with its marker set, so that no later query selects it.\<close>
theorem healthy_tick_reports_all:
  assumes "process_timeouts pk n emits env1 env2 now tick cid domain (evs, tbl) b = (Ok r, (evs', tbl'), b')"
    "\<And>m k. healthy pk (emits m k)" "keyed tbl"
  defines "acks \<equiv> overdue_ack_rows now domain n tbl" and "expired \<equiv> overdue_liveness_rows now domain n tbl"
  shows "evs' = evs @ map (ack_event now tick cid) acks @ map (expiry_event now tick cid) expired \<and>
    er_errors r = [] \<and> er_ack_timeouts_emitted r = length acks \<and>
    er_liveness_expirations_emitted r = length expired \<and>
    (\<forall>p \<in> set acks. marked ACK_TIMEOUT_EMITTED_AT (rp_entity_id p) tbl') \<and>
    (\<forall>p \<in> set expired. marked LIVENESS_TIMEOUT_EMITTED_AT (rp_entity_id p) tbl')"
proof -
  obtain b1 where found: "find_overdue_entities now domain cid n env1 env2 tbl b = (Ok (acks, expired), b1)"
  proof (cases "find_overdue_entities now domain cid n env1 env2 tbl b")
    case (Pair x b1)
    then show thesis using assms(1) that find_overdue_rows [of now domain cid n env1 env2 tbl b _ _ b1]
      by (cases x) (auto simp: process_timeouts_def acks_def expired_def)
  qed
  let ?A = "\<lambda>p. emit_ack_timeout pk (emits ACK_TIMEOUT_EMITTED_AT (rp_entity_id p)) now tick cid p"
  let ?L = "\<lambda>p. emit_liveness_expiration pk (emits LIVENESS_TIMEOUT_EMITTED_AT (rp_entity_id p)) now tick cid p"
  let ?mA = "fold (\<lambda>p. mark_row ACK_TIMEOUT_EMITTED_AT now (rp_entity_id p)) acks"
  let ?mL = "fold (\<lambda>p. mark_row LIVENESS_TIMEOUT_EMITTED_AT now (rp_entity_id p)) expired"
  have "emit_each ?A acks (evs, tbl) = (length acks, [], (evs @ map (ack_event now tick cid) acks, ?mA tbl))"
    by (subst emit_each_healthy [where ev = "ack_event now tick cid"])
       (auto simp: emit_ack_timeout_def publish_and_mark_healthy [OF assms(2)] ack_event_def acks_def
          dest!: overdue_ack_row)
  moreover have "emit_each ?L expired (evs @ map (ack_event now tick cid) acks, ?mA tbl) =
      (length expired, [], ((evs @ map (ack_event now tick cid) acks) @ map (expiry_event now tick cid) expired,
       ?mL (?mA tbl)))"
    by (subst emit_each_healthy [where ev = "expiry_event now tick cid"])
       (auto simp: emit_liveness_expiration_def publish_and_mark_healthy [OF assms(2)] expiry_event_def
          expired_def dest!: overdue_liveness_row)
  ultimately have res: "evs' = evs @ map (ack_event now tick cid) acks @ map (expiry_event now tick cid) expired"
      "tbl' = ?mL (?mA tbl)" "er_errors r = []" "er_ack_timeouts_emitted r = length acks"
      "er_liveness_expirations_emitted r = length expired"
    using assms(1) found by (auto simp: process_timeouts_def)
  have present: "dict_get tbl (rp_entity_id p) \<noteq> None" if "p \<in> set acks \<or> p \<in> set expired" for p
    using that keyed_present [OF assms(3)] overdue_ack_row overdue_liveness_row
    unfolding acks_def expired_def by blast
  have "marked ACK_TIMEOUT_EMITTED_AT (rp_entity_id p) tbl'" if "p \<in> set acks" for p
    unfolding res(2) by (rule marked_fold, rule fold_marks [OF that present [OF disjI1 [OF that]]])
  moreover have "marked LIVENESS_TIMEOUT_EMITTED_AT (rp_entity_id p) tbl'" if "p \<in> set expired" for p
    unfolding res(2)
    by (rule fold_marks [OF that fold_mark_present [OF present [OF disjI2 [OF that]]]])
  ultimately show ?thesis using res by blast
qed

text \<open>The intents of a list of heartbeats, executed one after the other.\<close>

fun execute_all :: "registration_payload list \<Rightarrow> projection_table \<Rightarrow> infra_error + projection_table" where
  "execute_all [] tbl = Ok tbl"
| "execute_all (payload # payloads) tbl =
     (case execute_intent Answered payload tbl of
        Err e \<Rightarrow> Err e | Ok tbl' \<Rightarrow> execute_all payloads tbl')"

definition heartbeat_intents ::
  "reducer_service \<Rightarrow> registration_projection \<Rightarrow> uuid \<Rightarrow> (timestamp \<times> reducer_context) list \<Rightarrow>
   registration_payload list" where
  "heartbeat_intents svc p k beats =
     concat (map (\<lambda>(t, ctx). map in_payload (rd_intents (decide_heartbeat svc (Some p) k t ctx))) beats)"

text \<open>C12: heartbeats converge: executing the intents of any heartbeats of a live node, in any order and
  however late, leaves the newest heartbeat in the row, and a liveness deadline that is the
  newest heartbeat plus the window, or the old one when none of them is newer.\<close>
theorem heartbeats_converge:
  assumes "\<not> is_terminal (rp_current_state p)"
    "dict_get tbl k = Some row" "rp_domain row = ''registration''" "rp_last_heartbeat_at row = Some t0"
  shows "\<exists>tbl' row'. execute_all (heartbeat_intents svc p k beats) tbl = Ok tbl' \<and>
    dict_get tbl' k = Some row' \<and> rp_last_heartbeat_at row' = Some (fold max (map fst beats) t0) \<and>
    rp_liveness_deadline row' = (if fold max (map fst beats) t0 = t0 then rp_liveness_deadline row
      else Some (fold max (map fst beats) t0 + timedelta_seconds (rs_liveness_window_seconds svc)))"
  using assms
proof (induction beats arbitrary: tbl row t0)
  case (Cons a beats)
  obtain t ctx where a: "a = (t, ctx)" by (cases a)
  let ?d = "t + timedelta_seconds (rs_liveness_window_seconds svc)"
  let ?u = "HeartbeatUpdate t ?d (rc_now ctx)"
  have pay: "heartbeat_intents svc p k (a # beats) =
      UpdateRegistration (rc_correlation_id ctx) k ''registration'' ?u # heartbeat_intents svc p k beats"
    using Cons.prems(1) a by (simp add: heartbeat_intents_def decide_heartbeat_def mk_registration_intent_def Let_def)
  have mono: "t0 \<le> fold max (map fst beats) t0" for t0 :: int
    by (induction beats arbitrary: t0) (auto intro: order_trans [OF max.cobounded2])
  show ?case
  proof (cases "t0 < t")
    case True
    have "execute_intent Answered (UpdateRegistration (rc_correlation_id ctx) k ''registration'' ?u) tbl =
        Ok (dict_put k (update_columns ?u row) tbl)"
      using True Cons.prems by (simp add: execute_intent_def execute_update_def)
    moreover have "max t t0 = t" "fold max (map fst beats) t \<noteq> t0"
      using True mono [of t] by simp_all
    ultimately show ?thesis
      using Cons.IH [of "dict_put k (update_columns ?u row) tbl" "update_columns ?u row" t] Cons.prems
      by (auto simp: pay [unfolded a] a dict_get_put split: if_splits)
  next
    case False
    have "execute_intent Answered (UpdateRegistration (rc_correlation_id ctx) k ''registration'' ?u) tbl = Ok tbl"
      using False Cons.prems by (simp add: execute_intent_def execute_update_def)
    moreover have "max t t0 = t0" using False by simp
    ultimately show ?thesis
      using Cons.IH [OF Cons.prems(1-4)] by (cases "fold max (map fst beats) t0 = t0") (auto simp: pay [unfolded a] a)
  qed
qed (simp add: heartbeat_intents_def)

section \<open>Witnesses\<close>

definition sample_service :: reducer_service where
  "sample_service = \<lparr>rs_liveness_interval_seconds = 60, rs_liveness_window_seconds = 90\<rparr>"

definition sample_row :: "timestamp option \<Rightarrow> registration_projection" where
  "sample_row expired_at =
     \<lparr>rp_entity_id = 5, rp_domain = ''registration'', rp_current_state = ACTIVE, rp_node_type = EFFECT,
      rp_node_version = ''1.0.0'', rp_capabilities = JObj [], rp_contract_type = None,
      rp_intent_types = [], rp_protocols = [], rp_capability_tags = [], rp_contract_version = None,
      rp_ack_deadline = None, rp_liveness_deadline = Some 10, rp_last_heartbeat_at = Some 1,
      rp_ack_timeout_emitted_at = None, rp_liveness_timeout_emitted_at = expired_at,
      rp_last_applied_event_id = 1, rp_last_applied_offset = 0, rp_last_applied_sequence = None,
      rp_last_applied_partition = None, rp_registered_at = 0, rp_updated_at = 0,
      rp_correlation_id = None\<rparr>"

definition calm_query :: query_env where
  "calm_query = \<lparr>qe_fresh = 0, qe_before = 0, qe_after = 0, qe_outcome = Answered\<rparr>"

definition reader_breaker :: breaker where
  "reader_breaker = \<lparr>
     cb_failures = 0, cb_open = False, cb_open_until = 0, cb_half_open = False,
     cb_half_open_success_count = 0, cb_threshold = 5, cb_reset_timeout = 60,
     cb_half_open_successes = 1, cb_service_name = ''projection_reader.registration'',
     cb_transport_type = DATABASE, cb_enable_active_recovery = True, cb_recovery_task = None,
     cb_tasks = [], cb_next_task = 0, cb_callback = False, cb_events = []\<rparr>"

lemma calm_guarded: "guarded_query oper cid calm_query rows reader_breaker = (Ok rows, reader_breaker)"
  by (simp add: guarded_query_def Let_def check_circuit_breaker_def reset_circuit_breaker_def
      cancel_active_recovery_timer_def reader_breaker_def calm_query_def)

definition sample_orchestrator :: orchestrator where
  "sample_orchestrator = \<lparr>oc_table = [(5, sample_row (Some 20))], oc_pending = [], oc_events = [],
     oc_timeouts = [], oc_topics = None, oc_breaker = reader_breaker\<rparr>"

lemma sample_row_fields:
  "rp_entity_id (sample_row x) = 5" "rp_liveness_deadline (sample_row x) = Some 10"
  by (simp_all add: sample_row_def)

lemma sample_keyed: "keyed [(5, sample_row x)]"
  by (simp add: keyed_def wf_dict_def sample_row_def)


theorem heartbeats_converge_witness:
  "\<exists>tbl' row'. execute_all (heartbeat_intents sample_service (sample_row None) 5
      [(300, \<lparr>rc_correlation_id = 1, rc_now = 400, rc_tick_id = None\<rparr>),
       (200, \<lparr>rc_correlation_id = 2, rc_now = 401, rc_tick_id = None\<rparr>)]) [(5, sample_row None)] = Ok tbl' \<and>
    dict_get tbl' 5 = Some row' \<and> rp_last_heartbeat_at row' = Some 300"
  using heartbeats_converge [of "sample_row None" "[(5, sample_row None)]" 5 "sample_row None" 1 sample_service
      "[(300, \<lparr>rc_correlation_id = 1, rc_now = 400, rc_tick_id = None\<rparr>),
        (200, \<lparr>rc_correlation_id = 2, rc_now = 401, rc_tick_id = None\<rparr>)]"]
  by (fastforce simp: sample_row_def is_terminal_def)

theorem healthy_tick_reports_all_witness:
  "\<exists>r evs' tbl' b'. process_timeouts [''entity_id''] 100
      (\<lambda>m k. \<lparr>ee_publish = None, ee_marker = Answered\<rparr>) calm_query calm_query 50 9 7 ''registration''
      ([], [(5, sample_row None)]) reader_breaker = (Ok r, (evs', tbl'), b') \<and>
    evs' = [NodeLivenessExpired 5 10 50 (Some 1) 7 9]"
proof -
  let ?rows = "[(5, sample_row None)]" and ?E = "\<lambda>m k. \<lparr>ee_publish = None, ee_marker = Answered\<rparr>"
  have rows: "overdue_ack_rows 50 ''registration'' 100 ?rows = []"
    "overdue_liveness_rows 50 ''registration'' 100 ?rows = [sample_row None]"
    by (simp_all add: overdue_ack_rows_def overdue_liveness_rows_def sample_row_def)
  obtain r evs' tbl' b' where run: "process_timeouts [''entity_id''] 100 ?E calm_query calm_query 50 9 7
      ''registration'' ([], ?rows) reader_breaker = (Ok r, (evs', tbl'), b')"
    by (simp add: process_timeouts_def find_overdue_entities_def get_overdue_ack_registrations_def
        get_overdue_liveness_registrations_def calm_guarded Let_def rows emit_liveness_expiration_def
        publish_and_mark_healthy healthy_def sample_row_fields)
  with healthy_tick_reports_all [OF run _ sample_keyed] rows show ?thesis
    by (auto simp: healthy_def expiry_event_def sample_row_def)
qed


text \<open>A node that was rejected is registered as ACTIVE, as is one whose acknowledgement is awaited.\<close>

end
