(* ===== verification/SnapshotStore.thy ===== *)
theory SnapshotStore
  imports Interfaces InfraErrors "HOL-Library.List_Lexorder" "HOL-Library.Char_ord" "HOL-Library.Multiset"
begin

text \<open>
  Point-in-time snapshots: the models of \<^verbatim>\<open>models/snapshot\<close>, the in-memory backend
  \<^verbatim>\<open>services/snapshot/store_inmemory.py\<close>, and the service \<^verbatim>\<open>services/snapshot/service_snapshot.py\<close>
  over any backend. The digest of a snapshot's data (SHA-256 of its canonical JSON text) is the
  argument \<open>digest\<close>; identifiers and clocks are arguments. The lock of the store makes each of its
  operations atomic.
\<close>

section \<open>Subjects and snapshots\<close>

record subject_ref =
  sj_type :: string
  sj_id :: uuid

definition subject_key :: "subject_ref \<Rightarrow> string" where
  "subject_key r = sj_type r @ '':'' @ uuid_str (sj_id r)"

type_synonym snapshot_data = "(string, json) py_dict"

record snapshot =
  sn_id :: uuid
  sn_subject :: subject_ref
  sn_data :: snapshot_data
  sn_sequence_number :: int
  sn_version :: int
  sn_content_hash :: "string option"
  sn_created_at :: timestamp
  sn_parent_id :: "uuid option"

text \<open>The hash is computed after initialisation when none is given.\<close>

definition model_post_init :: "(snapshot_data \<Rightarrow> string) \<Rightarrow> snapshot \<Rightarrow> snapshot" where
  "model_post_init digest s =
     (case sn_content_hash s of None \<Rightarrow> s\<lparr>sn_content_hash := Some (digest (sn_data s))\<rparr> | Some _ \<Rightarrow> s)"

text \<open>\<open>{**data, **mutations}\<close>: existing keys keep their place and take the new value.\<close>

definition merge_data :: "snapshot_data \<Rightarrow> snapshot_data \<Rightarrow> snapshot_data" where
  "merge_data d mutations = fold (\<lambda>(k, v). dict_put k v) mutations d"

definition with_mutations ::
  "(snapshot_data \<Rightarrow> string) \<Rightarrow> uuid \<Rightarrow> timestamp \<Rightarrow> snapshot_data \<Rightarrow> int \<Rightarrow> snapshot \<Rightarrow> snapshot" where
  "with_mutations digest new_id created_at mutations sequence_number s =
     model_post_init digest
       \<lparr>sn_id = new_id, sn_subject = sn_subject s, sn_data = merge_data (sn_data s) mutations,
        sn_sequence_number = sequence_number, sn_version = 1, sn_content_hash = None,
        sn_created_at = created_at, sn_parent_id = Some (sn_id s)\<rparr>"

definition to_kafka_key :: "snapshot \<Rightarrow> string" where
  "to_kafka_key s = subject_key (sn_subject s)"

definition is_content_equal :: "snapshot \<Rightarrow> snapshot \<Rightarrow> bool" where
  "is_content_equal s t \<longleftrightarrow>
     (if sn_content_hash s = None \<or> sn_content_hash t = None then False
      else sn_content_hash s = sn_content_hash t)"

section \<open>Structural difference\<close>

text \<open>
  Python's \<open>==\<close> on JSON values: numbers and booleans compare by value across their types, NaN equals
  nothing, objects ignore the order of their keys.
\<close>

fun json_number :: "json \<Rightarrow> pyfloat option" where
  "json_number (JBool b) = Some (Finite (if b then 1 else 0))"
| "json_number (JInt i) = Some (Finite (real_of_int i))"
| "json_number (JFloat x) = Some x"
| "json_number _ = None"

function py_json_eq :: "json \<Rightarrow> json \<Rightarrow> bool" where
  "py_json_eq (JArr xs) y =
     (case y of JArr ys \<Rightarrow> length xs = length ys \<and> (\<forall>(u, v) \<in> set (zip xs ys). py_json_eq u v)
      | _ \<Rightarrow> False)"
| "py_json_eq (JObj xs) y =
     (case y of JObj ys \<Rightarrow> length xs = length ys \<and>
         (\<forall>(k, u) \<in> set xs. case map_of ys k of None \<Rightarrow> False | Some v \<Rightarrow> py_json_eq u v)
      | _ \<Rightarrow> False)"
| "py_json_eq JNull y = (y = JNull)"
| "py_json_eq (JStr s) y = (y = JStr s)"
| "py_json_eq (JBool b) y =
     (json_number y \<noteq> None \<and> json_number y = json_number (JBool b))"
| "py_json_eq (JInt i) y =
     (json_number y \<noteq> None \<and> json_number y = json_number (JInt i))"
| "py_json_eq (JFloat f) y =
     (f \<noteq> NaN \<and> json_number y = Some f)"
  by pat_completeness auto
termination
proof (relation "measure (size \<circ> fst)", goal_cases)
  case (2 xs y ys p u v)
  then have "u \<in> set xs" by (auto dest: set_zip_leftD)
  then show ?case using size_list_estimation' [of u xs "size u" size] by simp
next
  case (3 xs y ys p k u v)
  then have "size u \<le> size_prod (\<lambda>_. 0) size p" by (cases p) auto
  then show ?case using 3 size_list_estimation' [of p xs "size u" "size_prod (\<lambda>_. 0) size"] by auto
qed simp

record field_change =
  fc_from_value :: json
  fc_to_value :: json

record snapshot_diff =
  df_base_id :: uuid
  df_target_id :: uuid
  df_added :: "string list"
  df_removed :: "string list"
  df_changed :: "(string, field_change) py_dict"

definition diff_compute :: "snapshot_data \<Rightarrow> snapshot_data \<Rightarrow> uuid \<Rightarrow> uuid \<Rightarrow> snapshot_diff" where
  "diff_compute base_data target_data base_id target_id =
     (let base_keys = map fst base_data; target_keys = map fst target_data in
      \<lparr>df_base_id = base_id, df_target_id = target_id,
       df_added = sort [k \<leftarrow> target_keys. k \<notin> set base_keys],
       df_removed = sort [k \<leftarrow> base_keys. k \<notin> set target_keys],
       df_changed = List.map_filter (\<lambda>k.
          case (dict_get base_data k, dict_get target_data k) of
            (Some u, Some v) \<Rightarrow> if \<not> py_json_eq u v
                then Some (k, \<lparr>fc_from_value = u, fc_to_value = v\<rparr>) else None
          | _ \<Rightarrow> None)
          (sort [k \<leftarrow> base_keys. k \<in> set target_keys])\<rparr>)"

definition diff_is_empty :: "snapshot_diff \<Rightarrow> bool" where
  "diff_is_empty d \<longleftrightarrow> df_added d = [] \<and> df_removed d = [] \<and> df_changed d = []"

definition diff_total_changes :: "snapshot_diff \<Rightarrow> nat" where
  "diff_total_changes d = length (df_added d) + length (df_removed d) + length (df_changed d)"

section \<open>The in-memory backend\<close>

record snapshot_store =
  ss_snapshots :: "(uuid, snapshot) py_dict"
  ss_sequences :: "(string, int) py_dict"
  ss_hash_index :: "(string, uuid) py_dict"

definition empty_snapshots :: snapshot_store where
  "empty_snapshots = \<lparr>ss_snapshots = [], ss_sequences = [], ss_hash_index = []\<rparr>"

text \<open>An empty or absent hash is falsy.\<close>

definition hash_of :: "snapshot \<Rightarrow> string option" where
  "hash_of s = (case sn_content_hash s of None \<Rightarrow> None | Some h \<Rightarrow> if h = [] then None else Some h)"

definition save :: "snapshot \<Rightarrow> snapshot_store \<Rightarrow> uuid \<times> snapshot_store" where
  "save s st =
     (case (case hash_of s of None \<Rightarrow> None | Some h \<Rightarrow> dict_get (ss_hash_index st) h) of
        Some existing \<Rightarrow> (existing, st)
      | None \<Rightarrow> (sn_id s, st\<lparr>ss_snapshots := dict_put (sn_id s) s (ss_snapshots st),
          ss_hash_index := (case hash_of s of None \<Rightarrow> ss_hash_index st
             | Some h \<Rightarrow> dict_put h (sn_id s) (ss_hash_index st))\<rparr>))"

definition load :: "uuid \<Rightarrow> snapshot_store \<Rightarrow> snapshot option" where
  "load snapshot_id st = dict_get (ss_snapshots st) snapshot_id"

definition load_many :: "uuid list \<Rightarrow> snapshot_store \<Rightarrow> (uuid, snapshot) py_dict" where
  "load_many ids st = fold (\<lambda>sid d. case dict_get (ss_snapshots st) sid of
      None \<Rightarrow> d | Some s \<Rightarrow> dict_put sid s d) ids []"

text \<open>\<open>max(candidates, key=...)\<close>: the first candidate among those with the largest key.\<close>

fun latest_of :: "snapshot list \<Rightarrow> snapshot option" where
  "latest_of [] = None"
| "latest_of (s # ss) =
     (case latest_of ss of
        None \<Rightarrow> Some s
      | Some t \<Rightarrow> if sn_sequence_number s \<ge> sn_sequence_number t then Some s else Some t)"

definition of_subject :: "subject_ref option \<Rightarrow> snapshot \<Rightarrow> bool" where
  "of_subject subject s \<longleftrightarrow>
     (case subject of None \<Rightarrow> True | Some r \<Rightarrow> subject_key (sn_subject s) = subject_key r)"

definition load_latest :: "subject_ref option \<Rightarrow> snapshot_store \<Rightarrow> snapshot option" where
  "load_latest subject st = latest_of (filter (of_subject subject) (map snd (ss_snapshots st)))"

definition load_latest_many ::
  "subject_ref list \<Rightarrow> snapshot_store \<Rightarrow> (string \<times> uuid, snapshot) py_dict" where
  "load_latest_many subjects st = fold (\<lambda>r d.
      case latest_of (filter (\<lambda>s. subject_key (sn_subject s) = subject_key r) (map snd (ss_snapshots st))) of
        None \<Rightarrow> d | Some s \<Rightarrow> dict_put (sj_type r, sj_id r) s d) subjects []"

text \<open>\<open>xs[:limit]\<close> counts from the end for a negative limit; a reverse sort keeps ties in order.\<close>

definition py_prefix :: "int \<Rightarrow> 'a list \<Rightarrow> 'a list" where
  "py_prefix limit xs = (if 0 \<le> limit then take (nat limit) xs else take (nat (int (length xs) + limit)) xs)"

definition newest_first :: "snapshot list \<Rightarrow> snapshot list" where
  "newest_first ss = sort_key (\<lambda>s. - sn_sequence_number s) ss"

definition query_snapshots ::
  "subject_ref option \<Rightarrow> int \<Rightarrow> timestamp option \<Rightarrow> snapshot_store \<Rightarrow> snapshot list" where
  "query_snapshots subject limit after st =
     (let candidates = filter (of_subject subject) (map snd (ss_snapshots st));
          candidates = (case after of None \<Rightarrow> candidates | Some t \<Rightarrow> [s \<leftarrow> candidates. sn_created_at s > t])
      in py_prefix limit (newest_first candidates))"

text \<open>Deleting a stored snapshot also forgets its hash.\<close>

definition drop_snapshot :: "uuid \<Rightarrow> snapshot_store \<Rightarrow> snapshot_store" where
  "drop_snapshot snapshot_id st =
     (case dict_get (ss_snapshots st) snapshot_id of
        None \<Rightarrow> st
      | Some s \<Rightarrow> st\<lparr>ss_snapshots := dict_del snapshot_id (ss_snapshots st),
          ss_hash_index := (case hash_of s of None \<Rightarrow> ss_hash_index st
             | Some h \<Rightarrow> dict_del h (ss_hash_index st))\<rparr>)"

definition delete_snapshot :: "uuid \<Rightarrow> snapshot_store \<Rightarrow> bool \<times> snapshot_store" where
  "delete_snapshot snapshot_id st =
     (case dict_get (ss_snapshots st) snapshot_id of
        None \<Rightarrow> (False, st)
      | Some _ \<Rightarrow> (True, drop_snapshot snapshot_id st))"

definition get_next_sequence_number :: "subject_ref \<Rightarrow> snapshot_store \<Rightarrow> int \<times> snapshot_store" where
  "get_next_sequence_number r st =
     (let key = subject_key r;
          seq = (case dict_get (ss_sequences st) key of None \<Rightarrow> 0 | Some n \<Rightarrow> n) + 1
      in (seq, st\<lparr>ss_sequences := dict_put key seq (ss_sequences st)\<rparr>))"

text \<open>
  Retention: per subject, newest first; position \<open>i\<close> is spared below \<open>keep_latest_n\<close>, otherwise
  age decides, or the position alone when there is no age limit.
\<close>

definition should_delete :: "timestamp option \<Rightarrow> int option \<Rightarrow> nat \<Rightarrow> snapshot \<Rightarrow> bool" where
  "should_delete cutoff keep_latest_n i s =
     (let by_age = (case cutoff of None \<Rightarrow> False | Some t \<Rightarrow> sn_created_at s < t) in
      case keep_latest_n of
        None \<Rightarrow> by_age
      | Some n \<Rightarrow> if int i < n then False else if cutoff = None then True else by_age)"

definition expired_of_subject ::
  "timestamp option \<Rightarrow> int option \<Rightarrow> snapshot list \<Rightarrow> uuid list" where
  "expired_of_subject cutoff keep_latest_n snapshots =
     map (\<lambda>(i, s). sn_id s) (filter (\<lambda>(i, s). should_delete cutoff keep_latest_n i s)
       (enumerate 0 (newest_first snapshots)))"

definition cleanup_expired_snapshots ::
  "uuid \<Rightarrow> timestamp \<Rightarrow> int option \<Rightarrow> int option \<Rightarrow> subject_ref option \<Rightarrow> snapshot_store \<Rightarrow>
   infra_error + int \<times> snapshot_store" where
  "cleanup_expired_snapshots fresh now max_age_seconds keep_latest_n subject st =
     (if (case keep_latest_n of None \<Rightarrow> False | Some n \<Rightarrow> n < 1)
      then Err (ProtocolConfigurationError
        \<lparr>ctx_transport = None, ctx_operation = None, ctx_target = None, ctx_correlation = fresh\<rparr> None None)
      else if max_age_seconds = None \<and> keep_latest_n = None then Ok (0, st)
      else
        let cutoff = map_option (\<lambda>a. now - a * usec_per_sec) max_age_seconds;
            in_scope = filter (of_subject subject) (map snd (ss_snapshots st));
            keys = remdups (map (\<lambda>s. subject_key (sn_subject s)) in_scope);
            ids = concat (map (\<lambda>key. expired_of_subject cutoff keep_latest_n
                    [s \<leftarrow> in_scope. subject_key (sn_subject s) = key]) keys);
            present = [i \<leftarrow> remdups ids. dict_get (ss_snapshots st) i \<noteq> None]
        in Ok (int (length present), fold drop_snapshot present st))"

definition clear_snapshots :: "snapshot_store \<Rightarrow> snapshot_store" where
  "clear_snapshots st = empty_snapshots"

definition count_snapshots :: "snapshot_store \<Rightarrow> nat" where
  "count_snapshots st = length (ss_snapshots st)"

section \<open>The service\<close>

text \<open>The operations of a backend (\<open>ProtocolSnapshotStore\<close>).\<close>

record 's snapshot_iface =
  si_save :: "snapshot \<Rightarrow> 's \<Rightarrow> uuid \<times> 's"
  si_load :: "uuid \<Rightarrow> 's \<Rightarrow> snapshot option"
  si_load_many :: "uuid list \<Rightarrow> 's \<Rightarrow> (uuid, snapshot) py_dict"
  si_load_latest :: "subject_ref option \<Rightarrow> 's \<Rightarrow> snapshot option"
  si_load_latest_many :: "subject_ref list \<Rightarrow> 's \<Rightarrow> (string \<times> uuid, snapshot) py_dict"
  si_next_sequence :: "subject_ref \<Rightarrow> 's \<Rightarrow> int \<times> 's"
  si_delete :: "uuid \<Rightarrow> 's \<Rightarrow> bool \<times> 's"

definition memory_iface :: "snapshot_store snapshot_iface" where
  "memory_iface = \<lparr>si_save = save, si_load = load, si_load_many = load_many,
     si_load_latest = load_latest, si_load_latest_many = load_latest_many,
     si_next_sequence = get_next_sequence_number, si_delete = delete_snapshot\<rparr>"

datatype snapshot_error = SnapshotNotFoundError uuid

text \<open>
  \<open>create\<close> and \<open>fork\<close> first draw a sequence number and build the snapshot, then save it; other
  coroutines may run in between.
\<close>

definition prepare_create ::
  "'s snapshot_iface \<Rightarrow> (snapshot_data \<Rightarrow> string) \<Rightarrow> uuid \<Rightarrow> timestamp \<Rightarrow> subject_ref \<Rightarrow> snapshot_data \<Rightarrow>
   uuid option \<Rightarrow> 's \<Rightarrow> snapshot \<times> 's" where
  "prepare_create I digest new_id now subject data parent_id st =
     (let (n, st') = si_next_sequence I subject st in
      (model_post_init digest
        \<lparr>sn_id = new_id, sn_subject = subject, sn_data = data, sn_sequence_number = n, sn_version = 1,
         sn_content_hash = Some (digest data), sn_created_at = now, sn_parent_id = parent_id\<rparr>, st'))"

definition service_create ::
  "'s snapshot_iface \<Rightarrow> (snapshot_data \<Rightarrow> string) \<Rightarrow> uuid \<Rightarrow> timestamp \<Rightarrow> subject_ref \<Rightarrow> snapshot_data \<Rightarrow>
   uuid option \<Rightarrow> 's \<Rightarrow> uuid \<times> 's" where
  "service_create I digest new_id now subject data parent_id st =
     (let (s, st') = prepare_create I digest new_id now subject data parent_id st in si_save I s st')"

definition prepare_fork ::
  "'s snapshot_iface \<Rightarrow> (snapshot_data \<Rightarrow> string) \<Rightarrow> uuid \<Rightarrow> timestamp \<Rightarrow> uuid \<Rightarrow> snapshot_data option \<Rightarrow> 's \<Rightarrow>
   snapshot_error + snapshot \<times> 's" where
  "prepare_fork I digest new_id now snapshot_id mutations st =
     (case si_load I snapshot_id st of
        None \<Rightarrow> Err (SnapshotNotFoundError snapshot_id)
      | Some source \<Rightarrow>
          let (n, st') = si_next_sequence I (sn_subject source) st in
          Ok (with_mutations digest new_id now (case mutations of None \<Rightarrow> [] | Some m \<Rightarrow> m) n source, st'))"

definition service_fork ::
  "'s snapshot_iface \<Rightarrow> (snapshot_data \<Rightarrow> string) \<Rightarrow> uuid \<Rightarrow> timestamp \<Rightarrow> uuid \<Rightarrow> snapshot_data option \<Rightarrow> 's \<Rightarrow>
   (snapshot_error + snapshot) \<times> 's" where
  "service_fork I digest new_id now snapshot_id mutations st =
     (case prepare_fork I digest new_id now snapshot_id mutations st of
        Err e \<Rightarrow> (Err e, st)
      | Ok (forked, st') \<Rightarrow> (Ok forked, snd (si_save I forked st')))"

definition service_get :: "'s snapshot_iface \<Rightarrow> uuid \<Rightarrow> 's \<Rightarrow> snapshot option" where
  "service_get I snapshot_id st = si_load I snapshot_id st"

fun collect_found :: "bool \<Rightarrow> (uuid, snapshot) py_dict \<Rightarrow> uuid list \<Rightarrow> snapshot_error + snapshot list" where
  "collect_found skip_missing results [] = Ok []"
| "collect_found skip_missing results (i # is) =
     (case dict_get results i of
        None \<Rightarrow> if \<not> skip_missing then Err (SnapshotNotFoundError i)
          else collect_found skip_missing results is
      | Some s \<Rightarrow> (case collect_found skip_missing results is of
          Err e \<Rightarrow> Err e | Ok ss \<Rightarrow> Ok (s # ss)))"

definition service_get_many ::
  "'s snapshot_iface \<Rightarrow> uuid list \<Rightarrow> bool \<Rightarrow> 's \<Rightarrow> snapshot_error + snapshot list" where
  "service_get_many I ids skip_missing st =
     (if ids = [] then Ok [] else collect_found skip_missing (si_load_many I ids st) ids)"

definition service_get_latest_many ::
  "'s snapshot_iface \<Rightarrow> subject_ref list \<Rightarrow> 's \<Rightarrow> snapshot option list" where
  "service_get_latest_many I subjects st =
     (if subjects = [] then []
      else let results = si_load_latest_many I subjects st in
        map (\<lambda>r. dict_get results (sj_type r, sj_id r)) subjects)"

definition service_diff ::
  "'s snapshot_iface \<Rightarrow> uuid \<Rightarrow> uuid \<Rightarrow> 's \<Rightarrow> snapshot_error + snapshot_diff" where
  "service_diff I base_id target_id st =
     (case si_load I base_id st of
        None \<Rightarrow> Err (SnapshotNotFoundError base_id)
      | Some base \<Rightarrow>
          (case si_load I target_id st of
             None \<Rightarrow> Err (SnapshotNotFoundError target_id)
           | Some target \<Rightarrow> Ok (diff_compute (sn_data base) (sn_data target) base_id target_id)))"

definition service_delete :: "'s snapshot_iface \<Rightarrow> uuid \<Rightarrow> 's \<Rightarrow> bool \<times> 's" where
  "service_delete I snapshot_id st = si_delete I snapshot_id st"

section \<open>What the service relies on\<close>

text \<open>
  The contract of a backend: drawing a number loses nothing, and \<open>save\<close> is idempotent on content,
  returning the snapshot that holds the same content instead of storing a second one.
\<close>

locale snapshot_backend =
  fixes I :: "'s snapshot_iface" and ok :: "'s \<Rightarrow> bool"
  assumes next_sequence: "ok st \<Longrightarrow> si_next_sequence I r st = (n, st') \<Longrightarrow>
      ok st' \<and> (\<forall>i. si_load I i st' = si_load I i st)"
    and save_known: "ok st \<Longrightarrow> si_load I i st = Some t \<Longrightarrow> hash_of s \<noteq> None \<Longrightarrow> hash_of t = hash_of s \<Longrightarrow>
      si_save I s st = (i, st)"
    and save_new: "ok st \<Longrightarrow> si_load I (sn_id s) st = None \<Longrightarrow> hash_of s \<noteq> None \<Longrightarrow>
      (\<And>i t. si_load I i st = Some t \<Longrightarrow> hash_of t \<noteq> hash_of s) \<Longrightarrow> si_save I s st = (j, st') \<Longrightarrow>
      j = sn_id s \<and> ok st' \<and> si_load I (sn_id s) st' = Some s \<and>
      (\<forall>i. i \<noteq> sn_id s \<longrightarrow> si_load I i st' = si_load I i st)"
begin

lemma fork_of_same_content:
  assumes "ok st" "si_load I i st = Some t" "sn_content_hash t = Some (digest (sn_data t))"
    "digest (sn_data t) \<noteq> []" "digest (merge_data (sn_data t) (case m of None \<Rightarrow> [] | Some d \<Rightarrow> d)) = digest (sn_data t)"
    "si_load I new_id st = None"
  shows "\<exists>forked st'. service_fork I digest new_id now i m st = (Ok forked, st') \<and>
    sn_id forked = new_id \<and> (\<forall>j. si_load I j st' = si_load I j st)"
proof -
  obtain n st1 where nxt: "si_next_sequence I (sn_subject t) st = (n, st1)" by (cases "si_next_sequence I (sn_subject t) st")
  let ?f = "with_mutations digest new_id now (case m of None \<Rightarrow> [] | Some d \<Rightarrow> d) n t"
  have st1: "ok st1" "\<forall>j. si_load I j st1 = si_load I j st" using next_sequence [OF assms(1) nxt] by auto
  have "hash_of ?f = Some (digest (sn_data t))" "hash_of t = Some (digest (sn_data t))"
    using assms(3-5) by (simp_all add: hash_of_def with_mutations_def model_post_init_def)
  then have "si_save I ?f st1 = (i, st1)" using save_known [OF st1(1)] st1(2) assms(2) by simp
  then show ?thesis
    using nxt st1(2) assms(2)
    by (auto simp: service_fork_def prepare_fork_def with_mutations_def model_post_init_def)
qed

lemma create_new_content:
  assumes "ok st" "digest data \<noteq> []" "si_load I new_id st = None"
    "\<And>i t. si_load I i st = Some t \<Longrightarrow> hash_of t \<noteq> Some (digest data)"
    "service_create I digest new_id now subject data parent st = (j, st')"
  shows "j = new_id \<and> ok st' \<and> (\<exists>s. si_load I new_id st' = Some s \<and> sn_data s = data \<and> sn_subject s = subject) \<and>
    (\<forall>i. i \<noteq> new_id \<longrightarrow> si_load I i st' = si_load I i st)"
proof -
  obtain n st1 where nxt: "si_next_sequence I subject st = (n, st1)" by (cases "si_next_sequence I subject st")
  obtain s where s: "prepare_create I digest new_id now subject data parent st = (s, st1)"
    and fields: "sn_id s = new_id" "sn_data s = data" "sn_subject s = subject" "hash_of s = Some (digest data)"
    using nxt assms(2) by (simp add: prepare_create_def model_post_init_def hash_of_def)
  have st1: "ok st1" "\<forall>i. si_load I i st1 = si_load I i st" using next_sequence [OF assms(1) nxt] by auto
  have "si_save I s st1 = (j, st')" using assms(5) s by (simp add: service_create_def)
  with save_new [OF st1(1), of s] show ?thesis using st1(2) fields assms(3,4) by fastforce
qed

end


section \<open>The in-memory backend keeps its index\<close>

text \<open>
  Snapshots are stored under their own identifier, and the hash index holds exactly the hashes of
  the stored snapshots.
\<close>

definition store_ok :: "snapshot_store \<Rightarrow> bool" where
  [inv_defs]: "store_ok st \<longleftrightarrow> wf_dict (ss_snapshots st) \<and>
     (\<forall>i s. load i st = Some s \<longrightarrow> sn_id s = i) \<and>
     (\<forall>h i. dict_get (ss_hash_index st) h = Some i \<longleftrightarrow>
        (\<exists>s. load i st = Some s \<and> hash_of s = Some h))"

lemma store_ok_empty [preserve]: "store_ok (clear_snapshots st)"
  by (simp add: store_ok_def clear_snapshots_def empty_snapshots_def load_def)

lemma store_ok_id: "store_ok st \<Longrightarrow> load i st = Some s \<Longrightarrow> sn_id s = i"
  by (simp add: store_ok_def)

lemma store_ok_hash: "store_ok st \<Longrightarrow> dict_get (ss_hash_index st) h = Some i \<longleftrightarrow>
    (\<exists>s. load i st = Some s \<and> hash_of s = Some h)"
  by (simp add: store_ok_def)

lemma same_hash_same_id:
  assumes "store_ok st" "load i st = Some s" "load j st = Some t"
    "hash_of s = Some h" "hash_of t = Some h"
  shows "i = j"
proof -
  have "dict_get (ss_hash_index st) h = Some i" "dict_get (ss_hash_index st) h = Some j"
    using assms by (auto simp: store_ok_hash)
  then show ?thesis by simp
qed

lemma load_next_sequence: "get_next_sequence_number r st = (n, st') \<Longrightarrow> load i st' = load i st"
  by (auto simp: get_next_sequence_number_def Let_def load_def)

lemma store_ok_next_sequence [preserve]:
  "get_next_sequence_number r st = (n, st') \<Longrightarrow> store_ok st \<Longrightarrow> store_ok st'"
  by (auto simp: get_next_sequence_number_def Let_def store_ok_def load_def)

lemma save_indexed:
  assumes "store_ok st" "load i st = Some t" "hash_of t = hash_of s" "hash_of s = Some h"
  shows "save s st = (i, st)"
proof -
  have "dict_get (ss_hash_index st) h = Some i" using assms by (auto simp: store_ok_hash)
  then show ?thesis using assms(4) by (simp add: save_def)
qed

lemma save_unindexed:
  assumes "store_ok st" "\<And>i t h. load i st = Some t \<Longrightarrow> hash_of s = Some h \<Longrightarrow> hash_of t \<noteq> Some h"
  shows "save s st = (sn_id s, st\<lparr>ss_snapshots := dict_put (sn_id s) s (ss_snapshots st),
     ss_hash_index := (case hash_of s of None \<Rightarrow> ss_hash_index st
        | Some h \<Rightarrow> dict_put h (sn_id s) (ss_hash_index st))\<rparr>)"
proof (cases "hash_of s")
  case None
  then show ?thesis by (simp add: save_def)
next
  case (Some h)
  have "dict_get (ss_hash_index st) h = None"
  proof (rule ccontr)
    assume "dict_get (ss_hash_index st) h \<noteq> None"
    then obtain i where "dict_get (ss_hash_index st) h = Some i" by blast
    with assms Some show False by (auto simp: store_ok_hash)
  qed
  with Some show ?thesis by (simp add: save_def)
qed

text \<open>Every save either finds the content or stores the snapshot.\<close>

lemma save_cases:
  assumes "store_ok st"
  obtains i t h where "load i st = Some t" "hash_of s = Some h" "hash_of t = Some h" "save s st = (i, st)"
  | st' where "\<And>i t h. load i st = Some t \<Longrightarrow> hash_of s = Some h \<Longrightarrow> hash_of t \<noteq> Some h"
      "save s st = (sn_id s, st')" "ss_snapshots st' = dict_put (sn_id s) s (ss_snapshots st)"
      "ss_sequences st' = ss_sequences st"
proof (cases "\<exists>i t h. load i st = Some t \<and> hash_of s = Some h \<and> hash_of t = Some h")
  case True
  then obtain i t h where *: "load i st = Some t" "hash_of s = Some h" "hash_of t = Some h" by blast
  show thesis by (rule that(1) [OF *]) (use save_indexed [OF assms *(1)] * in simp)
next
  case False
  then have "\<And>i t h. load i st = Some t \<Longrightarrow> hash_of s = Some h \<Longrightarrow> hash_of t \<noteq> Some h" by blast
  with save_unindexed [OF assms this] that(2) show thesis by auto
qed

lemma store_ok_save [preserve]:
  assumes "store_ok st" "load (sn_id s) st = None" "save s st = (j, st')"
  shows "store_ok st'"
proof (cases rule: save_cases [OF assms(1), of s])
  case (1 i t h)
  then show ?thesis using assms by simp
next
  case (2 st1)
  then have st': "ss_snapshots st' = dict_put (sn_id s) s (ss_snapshots st)" using assms(3) by simp
  then have l: "load i st' = (if i = sn_id s then Some s else load i st)" for i
    by (simp add: load_def dict_get_put)
  have "ss_hash_index st' = (case hash_of s of None \<Rightarrow> ss_hash_index st
      | Some h \<Rightarrow> dict_put h (sn_id s) (ss_hash_index st))"
    using save_unindexed [OF assms(1) 2(1)] assms(3) by auto
  then have h: "dict_get (ss_hash_index st') h =
      (if hash_of s = Some h then Some (sn_id s) else dict_get (ss_hash_index st) h)" for h
    by (auto simp: dict_get_put split: option.splits)
  show ?thesis
    using assms(1,2) 2(1) st' unfolding store_ok_def l h
    by (auto split: if_splits)
qed

lemma snapshots_drop: "ss_snapshots (drop_snapshot i st) = dict_del i (ss_snapshots st)"
proof (cases "dict_get (ss_snapshots st) i")
  case None
  then have "i \<notin> fst ` set (ss_snapshots st)" by (simp add: map_of_eq_None_iff)
  with None show ?thesis by (simp add: drop_snapshot_def AList.delete_eq filter_id_conv image_iff split_beta)
qed (simp add: drop_snapshot_def)

lemma sequences_drop [simp]: "ss_sequences (drop_snapshot i st) = ss_sequences st"
  by (simp add: drop_snapshot_def split: option.splits)

lemma load_drop: "load j (drop_snapshot i st) = (if j = i then None else load j st)"
  by (simp add: load_def snapshots_drop dict_get_del)

lemma store_ok_drop [preserve]:
  assumes "store_ok st"
  shows "store_ok (drop_snapshot i st)"
proof (cases "load i st")
  case None
  then show ?thesis using assms by (simp add: drop_snapshot_def load_def)
next
  case (Some s)
  have h: "dict_get (ss_hash_index (drop_snapshot i st)) h =
      (if hash_of s = Some h then None else dict_get (ss_hash_index st) h)" for h
    using Some by (auto simp: drop_snapshot_def load_def dict_get_del split: option.splits)
  have idx: "dict_get (ss_hash_index (drop_snapshot i st)) h = Some j \<longleftrightarrow>
      (\<exists>t. load j (drop_snapshot i st) = Some t \<and> hash_of t = Some h)" for h j
  proof (cases "hash_of s = Some h \<or> j = i")
    case True
    then have "\<not> (\<exists>t. load j (drop_snapshot i st) = Some t \<and> hash_of t = Some h)"
      using same_hash_same_id [OF assms _ Some] by (auto simp: load_drop)
    moreover have "dict_get (ss_hash_index (drop_snapshot i st)) h \<noteq> Some j"
      using True Some store_ok_hash [OF assms] by (auto simp: h)
    ultimately show ?thesis by blast
  next
    case False
    then show ?thesis using store_ok_hash [OF assms] by (simp add: h load_drop)
  qed
  have "wf_dict (ss_snapshots (drop_snapshot i st))"
    using assms by (simp add: store_ok_def snapshots_drop)
  moreover have "sn_id t = j" if "load j (drop_snapshot i st) = Some t" for j t
    using that store_ok_id [OF assms] by (simp add: load_drop split: if_splits)
  ultimately show ?thesis using idx unfolding store_ok_def by blast
qed

lemma store_ok_drops [preserve]: "store_ok st \<Longrightarrow> store_ok (fold drop_snapshot is st)"
  by (induction "is" arbitrary: st) (simp_all add: store_ok_drop)

lemma snapshots_drops:
  "ss_snapshots (fold drop_snapshot is st) = filter (\<lambda>p. fst p \<notin> set is) (ss_snapshots st)"
proof (induction "is" arbitrary: st)
  case (Cons i "is")
  have "(\<lambda>p :: uuid \<times> snapshot. i \<noteq> fst p \<and> fst p \<notin> set is) = (\<lambda>p. fst p \<notin> set (i # is))" by auto
  then show ?case by (simp add: Cons.IH snapshots_drop AList.delete_eq split_beta)
qed simp

lemma sequences_drops [simp]: "ss_sequences (fold drop_snapshot is st) = ss_sequences st"
  by (induction "is" arbitrary: st) simp_all

interpretation memory_backend: snapshot_backend memory_iface store_ok
proof
  fix st st' :: snapshot_store and r n
  assume "store_ok st" "si_next_sequence memory_iface r st = (n, st')"
  then show "store_ok st' \<and> (\<forall>i. si_load memory_iface i st' = si_load memory_iface i st)"
    by (auto simp: memory_iface_def load_next_sequence intro: store_ok_next_sequence)
next
  fix st :: snapshot_store and i s t
  assume "store_ok st" "si_load memory_iface i st = Some t" "hash_of s \<noteq> None" "hash_of t = hash_of s"
  then show "si_save memory_iface s st = (i, st)"
    using save_indexed [of st i t s] by (auto simp: memory_iface_def)
next
  fix st st' :: snapshot_store and s j
  assume *: "store_ok st" "si_load memory_iface (sn_id s) st = None" "hash_of s \<noteq> None"
    "\<And>i t. si_load memory_iface i st = Some t \<Longrightarrow> hash_of t \<noteq> hash_of s"
    "si_save memory_iface s st = (j, st')"
  have new: "\<And>i t h. load i st = Some t \<Longrightarrow> hash_of s = Some h \<Longrightarrow> hash_of t \<noteq> Some h"
    using *(4) by (fastforce simp: memory_iface_def)
  have "j = sn_id s" "ss_snapshots st' = dict_put (sn_id s) s (ss_snapshots st)"
    using save_unindexed [OF *(1) new] *(5) by (auto simp: memory_iface_def)
  then show "j = sn_id s \<and> store_ok st' \<and> si_load memory_iface (sn_id s) st' = Some s \<and>
      (\<forall>i. i \<noteq> sn_id s \<longrightarrow> si_load memory_iface i st' = si_load memory_iface i st)"
    using store_ok_save [OF *(1)] *(2,5) by (auto simp: memory_iface_def load_def dict_get_put)
qed

end
