(* ===== verification/SnapshotProps.thy ===== *)
theory SnapshotProps imports SnapshotStore begin

text \<open>
  What the snapshot service promises over the in-memory backend: the reachable states of a store
  with snapshots in flight, what the retention policy removes, and what deduplication by content
  does to \<open>create\<close> and \<open>fork\<close>.
\<close>

section \<open>Lists of snapshots\<close>

abbreviation subject_of :: "snapshot \<Rightarrow> string" where
  "subject_of s \<equiv> subject_key (sn_subject s)"

text \<open>No two snapshots of a subject have the same sequence number.\<close>

definition distinct_numbers :: "snapshot list \<Rightarrow> bool" where
  "distinct_numbers ss \<longleftrightarrow> distinct (map (\<lambda>s. (subject_of s, sn_sequence_number s)) ss)"

lemma distinct_numbers_filter: "distinct_numbers ss \<Longrightarrow> distinct_numbers (filter P ss)"
  by (simp add: distinct_numbers_def distinct_map_filter)

lemma latest_of_None [simp]: "latest_of ss = None \<longleftrightarrow> ss = []"
  by (cases ss) (auto split: option.splits)

lemma latest_of_max:
  "latest_of ss = Some s \<Longrightarrow> s \<in> set ss \<and> (\<forall>t \<in> set ss. sn_sequence_number t \<le> sn_sequence_number s)"
proof (induction ss arbitrary: s)
  case (Cons a ss)
  then show ?case by (cases "latest_of ss") (force split: if_splits)+
qed simp

lemma latest_of_unique:
  assumes "inj_on sn_sequence_number (set ss)" "s \<in> set ss"
    "\<And>t. t \<in> set ss \<Longrightarrow> sn_sequence_number t \<le> sn_sequence_number s"
  shows "latest_of ss = Some s"
proof (cases "latest_of ss")
  case None
  then show ?thesis using assms(2) by simp
next
  case (Some t)
  then have "t \<in> set ss" "sn_sequence_number s \<le> sn_sequence_number t"
    using latest_of_max [OF Some] assms(2) by auto
  with assms(3) [of t] have "sn_sequence_number t = sn_sequence_number s" by simp
  with assms(1,2) \<open>t \<in> set ss\<close> Some show ?thesis by (auto dest: inj_onD)
qed

text \<open>In a list sorted newest first, the position of a snapshot counts the newer ones.\<close>

lemma newest_first_props [simp]:
  "set (newest_first ss) = set ss" "length (newest_first ss) = length ss"
  "distinct (newest_first ss) = distinct ss"
  by (simp_all add: newest_first_def distinct_sort)

lemma newest_first_index:
  assumes "s \<in> set ss"
  obtains k where "k < length ss" "newest_first ss ! k = s"
proof -
  have "s \<in> set (newest_first ss)" using assms by simp
  then show thesis using that unfolding in_set_conv_nth by auto
qed

lemma newest_first_sorted: "sorted (map (\<lambda>s. - sn_sequence_number s) (newest_first ss))"
  by (simp add: newest_first_def)

lemma newest_first_position:
  assumes inj: "inj_on sn_sequence_number (set ss)" and dis: "distinct ss"
    and k: "k < length ss" "newest_first ss ! k = s"
  shows "card {t \<in> set ss. sn_sequence_number s < sn_sequence_number t} = k"
proof -
  let ?xs = "newest_first ss"
  have le: "sn_sequence_number (?xs ! j) \<le> sn_sequence_number (?xs ! i)" if "i \<le> j" "j < length ss" for i j
    using sorted_nth_mono [OF newest_first_sorted [of ss] that(1)] that by simp
  have eq: "i = j" if "i < length ss" "j < length ss"
      "sn_sequence_number (?xs ! i) = sn_sequence_number (?xs ! j)" for i j
  proof -
    have "?xs ! i \<in> set ss" "?xs ! j \<in> set ss"
      using that(1,2) nth_mem [of i ?xs] nth_mem [of j ?xs] by simp_all
    with inj that(3) have "?xs ! i = ?xs ! j" by (auto dest: inj_onD)
    then show ?thesis using dis that(1,2) by (simp add: nth_eq_iff_index_eq)
  qed
  have "{t \<in> set ss. sn_sequence_number s < sn_sequence_number t} = (!) ?xs ` {..<k}"
  proof (intro set_eqI iffI)
    fix t
    assume t: "t \<in> {t \<in> set ss. sn_sequence_number s < sn_sequence_number t}"
    then obtain i where i: "i < length ss" "?xs ! i = t" using newest_first_index [of t ss] by blast
    have "i < k" using t i k le [of k i] by (cases "k \<le> i") auto
    with i show "t \<in> (!) ?xs ` {..<k}" by auto
  next
    fix t
    assume "t \<in> (!) ?xs ` {..<k}"
    then obtain i where i: "i < k" "t = ?xs ! i" by auto
    then have "t \<in> set ss" using k nth_mem [of i ?xs] by simp
    moreover have "sn_sequence_number s < sn_sequence_number t"
      using le [of i k] eq [of i k] i k by fastforce
    ultimately show "t \<in> {t \<in> set ss. sn_sequence_number s < sn_sequence_number t}" by simp
  qed
  moreover have "inj_on ((!) ?xs) {..<k}" using dis k by (auto simp: inj_on_def nth_eq_iff_index_eq)
  ultimately show ?thesis by (simp add: card_image)
qed

lemma expired_of_subject_iff:
  assumes "inj_on sn_sequence_number (set ss)" "distinct ss"
  shows "i \<in> set (expired_of_subject cutoff keep ss) \<longleftrightarrow>
    (\<exists>s \<in> set ss. sn_id s = i \<and>
       should_delete cutoff keep (card {t \<in> set ss. sn_sequence_number s < sn_sequence_number t}) s)"
    (is "?l \<longleftrightarrow> ?r")
proof
  assume ?l
  then obtain k s where "(k, s) \<in> set (enumerate 0 (newest_first ss))" "should_delete cutoff keep k s" "sn_id s = i"
    by (auto simp: expired_of_subject_def)
  then have k: "k < length ss" "newest_first ss ! k = s" by (simp_all add: in_set_enumerate_eq)
  then have "s \<in> set ss" using nth_mem [of k "newest_first ss"] by simp
  then show ?r using newest_first_position [OF assms k] \<open>should_delete cutoff keep k s\<close> \<open>sn_id s = i\<close> by auto
next
  assume ?r
  then obtain s where s: "s \<in> set ss" "sn_id s = i"
    "should_delete cutoff keep (card {t \<in> set ss. sn_sequence_number s < sn_sequence_number t}) s" by blast
  then obtain k where k: "k < length ss" "newest_first ss ! k = s" using newest_first_index by blast
  then have "(k, s) \<in> set (enumerate 0 (newest_first ss))" by (simp add: in_set_enumerate_eq)
  moreover have "should_delete cutoff keep k s" using newest_first_position [OF assms k] s(3) by simp
  ultimately show ?l using s(2) by (force simp: expired_of_subject_def)
qed

section \<open>The running service\<close>

text \<open>
  \<open>create\<close> and \<open>fork\<close> await between drawing a sequence number and saving, so a state is the store
  with the snapshots that are built and not yet saved, and other calls come in between. The source
  of a fork may be gone again by the time its number is drawn.
\<close>

datatype snapshot_event = CreatePrepared | ForkPrepared | Saved | DeleteCalled | CleanupCalled | ClearCalled

type_synonym snapshot_run = "snapshot_store \<times> snapshot list"

definition live :: "snapshot_run \<Rightarrow> snapshot list" where
  "live R = map snd (ss_snapshots (fst R)) @ snd R"

inductive snapshot_step ::
  "(snapshot_data \<Rightarrow> string) \<Rightarrow> snapshot_event \<Rightarrow> snapshot_run \<Rightarrow> snapshot_run \<Rightarrow> bool"
  for digest where
  create_prepared: "new_id \<notin> sn_id ` set (live (st, fl)) \<Longrightarrow>
     prepare_create memory_iface digest new_id now subject data parent st = (s, st') \<Longrightarrow>
     snapshot_step digest CreatePrepared (st, fl) (st', fl @ [s])"
| fork_prepared: "new_id \<notin> sn_id ` set (live (st, fl)) \<Longrightarrow>
     si_next_sequence memory_iface (sn_subject source) st = (n, st') \<Longrightarrow>
     snapshot_step digest ForkPrepared (st, fl)
       (st', fl @ [with_mutations digest new_id now mutations n source])"
| saved: "fl = xs @ s # ys \<Longrightarrow> si_save memory_iface s st = (j, st') \<Longrightarrow>
     snapshot_step digest Saved (st, fl) (st', xs @ ys)"
| delete_called: "service_delete memory_iface i st = (b, st') \<Longrightarrow>
     snapshot_step digest DeleteCalled (st, fl) (st', fl)"
| cleanup_called: "cleanup_expired_snapshots fresh now max_age keep subject st = Ok (n, st') \<Longrightarrow>
     snapshot_step digest CleanupCalled (st, fl) (st', fl)"
| clear_called: "snapshot_step digest ClearCalled (st, []) (clear_snapshots st, [])"

definition drawn :: "snapshot_store \<Rightarrow> string \<Rightarrow> int" where
  "drawn st key = (case dict_get (ss_sequences st) key of None \<Rightarrow> 0 | Some n \<Rightarrow> n)"

definition snapshots_ok :: "(snapshot_data \<Rightarrow> string) \<Rightarrow> snapshot_run \<Rightarrow> bool" where
  [inv_defs]: "snapshots_ok digest R \<longleftrightarrow> store_ok (fst R) \<and>
     (\<forall>k. 0 \<le> drawn (fst R) k) \<and> distinct (map sn_id (live R)) \<and> distinct_numbers (live R) \<and>
     (\<forall>s \<in> set (live R). 0 < sn_sequence_number s \<and> sn_sequence_number s \<le> drawn (fst R) (subject_of s) \<and>
        sn_content_hash s = Some (digest (sn_data s)))"

lemma drawn_next:
  assumes "get_next_sequence_number r st = (n, st')"
  shows "n = drawn st (subject_key r) + 1" "ss_snapshots st' = ss_snapshots st"
    "drawn st' k = (if k = subject_key r then n else drawn st k)"
  using assms by (auto simp: get_next_sequence_number_def Let_def drawn_def dict_get_put)

text \<open>A snapshot built with a freshly drawn number joins those in flight.\<close>

lemma snapshots_ok_prepared:
  assumes ok: "snapshots_ok digest (st, fl)"
    and new: "sn_id s \<notin> sn_id ` set (live (st, fl))" "sn_content_hash s = Some (digest (sn_data s))"
    and nxt: "get_next_sequence_number (sn_subject s) st = (sn_sequence_number s, st')"
  shows "snapshots_ok digest (st', fl @ [s])"
proof -
  note d = drawn_next [OF nxt]
  have l: "live (st', fl @ [s]) = live (st, fl) @ [s]" by (simp add: live_def d)
  have bound: "sn_sequence_number t < sn_sequence_number s"
    if "t \<in> set (live (st, fl))" "subject_of t = subject_of s" for t
    using ok that d(1) by (fastforce simp: snapshots_ok_def)
  have "distinct_numbers (live (st, fl) @ [s])"
    using ok bound by (fastforce simp: snapshots_ok_def distinct_numbers_def)
  moreover have "0 \<le> drawn st' k" "0 < sn_sequence_number s" for k
    using ok d(1,3) by (auto simp: snapshots_ok_def) (metis add_nonneg_nonneg zero_le_one)?
  moreover have "sn_sequence_number t \<le> drawn st' (subject_of t)" if "t \<in> set (live (st, fl))" for t
    using ok that bound [OF that] by (auto simp: snapshots_ok_def d(3))
  ultimately show ?thesis
    using ok new store_ok_next_sequence [OF nxt] d(3) [of "subject_of s"] unfolding snapshots_ok_def l by auto
qed

lemma distinct_submset:
  assumes "mset ys \<subseteq># mset xs" "distinct xs"
  shows "distinct ys"
proof -
  obtain M where "mset xs = mset ys + M" using assms(1) by (auto simp: mset_subset_eq_exists_conv)
  moreover obtain zs where "mset zs = M" using ex_mset by blast
  ultimately have "mset xs = mset (ys @ zs)" by simp
  from mset_eq_imp_distinct_iff [OF this] assms(2) show ?thesis by simp
qed

lemma distinct_map_submset:
  "mset ys \<subseteq># mset xs \<Longrightarrow> distinct (map f xs) \<Longrightarrow> distinct (map f ys)"
  using distinct_submset [of "map f ys" "map f xs"] image_mset_subseteq_mono [of "mset ys" "mset xs" f] by simp

lemma snapshots_ok_empty: "snapshots_ok digest (empty_snapshots, [])"
  by (simp add: snapshots_ok_def store_ok_def load_def live_def empty_snapshots_def distinct_numbers_def drawn_def)

text \<open>Whatever only removes snapshots, or moves them into the store, keeps the invariant.\<close>

lemma snapshots_ok_sub:
  assumes "snapshots_ok digest R" "store_ok (fst R')" "ss_sequences (fst R') = ss_sequences (fst R)"
    and sub: "mset (live R') \<subseteq># mset (live R)"
  shows "snapshots_ok digest R'"
proof -
  have "set (live R') \<subseteq> set (live R)" using sub by (metis mset_subset_eqD set_mset_mset subsetI)
  moreover have "drawn (fst R') = drawn (fst R)" using assms(3) by (simp add: drawn_def fun_eq_iff)
  ultimately show ?thesis using assms(1,2) distinct_map_submset [OF sub, of sn_id]
      distinct_map_submset [OF sub, of "\<lambda>s. (subject_of s, sn_sequence_number s)"]
    unfolding snapshots_ok_def distinct_numbers_def by (auto simp: subset_iff)
qed

lemma live_save:
  assumes ok: "snapshots_ok digest (st, xs @ s # ys)" and sv: "save s st = (j, st')"
  shows "store_ok st'" "ss_sequences st' = ss_sequences st"
    "mset (live (st', xs @ ys)) \<subseteq># mset (live (st, xs @ s # ys))"
proof -
  have st: "store_ok st" using ok by (simp add: snapshots_ok_def)
  have "sn_id s \<notin> sn_id ` set (map snd (ss_snapshots st))"
    using ok by (auto simp: snapshots_ok_def live_def)
  moreover have "sn_id t = sn_id s \<and> t \<in> set (map snd (ss_snapshots st))" if "load (sn_id s) st = Some t" for t
    using store_ok_id [OF st that] map_of_SomeD [OF that [unfolded load_def]] by force
  ultimately have new: "load (sn_id s) st = None" by (metis image_eqI not_None_eq)
  show "store_ok st'" by (rule store_ok_save [OF st new sv])
  show "ss_sequences st' = ss_sequences st" using sv by (auto simp: save_def split: option.splits)
  show "mset (live (st', xs @ ys)) \<subseteq># mset (live (st, xs @ s # ys))"
  proof (cases rule: save_cases [OF st, of s])
    case (1 i t h)
    then show ?thesis using sv by (simp add: live_def)
  next
    case (2 st1)
    then have "ss_snapshots st' = ss_snapshots st @ [(sn_id s, s)]"
      using sv new by (simp add: load_def dict_put_fresh)
    then show ?thesis by (simp add: live_def)
  qed
qed

lemma live_drops: "mset (live (fold drop_snapshot is st, fl)) \<subseteq># mset (live (st, fl))"
  using image_mset_subseteq_mono [OF multiset_filter_subset [of "\<lambda>p. fst p \<notin> set is" "mset (ss_snapshots st)"], of snd]
  by (simp add: live_def snapshots_drops)


lemma delete_is_drops:
  "service_delete memory_iface i st = (b, st') \<Longrightarrow> \<exists>is. st' = fold drop_snapshot is st"
  by (auto simp: service_delete_def memory_iface_def delete_snapshot_def split: option.splits
      intro: exI [of _ "[]"] exI [of _ "[i]"])

lemma cleanup_is_drops:
  "cleanup_expired_snapshots fresh now max_age keep subject st = Ok (n, st') \<Longrightarrow>
   \<exists>is. st' = fold drop_snapshot is st"
  by (auto simp: cleanup_expired_snapshots_def Let_def split: if_splits intro: exI [of _ "[]"])

lemma snapshots_ok_step [preserve]:
  "snapshot_step digest e R R' \<Longrightarrow> snapshots_ok digest R \<Longrightarrow> snapshots_ok digest R'"
proof (induction rule: snapshot_step.induct)
  case (create_prepared new_id st fl now subject data parent s st')
  then show ?case
    by (intro snapshots_ok_prepared [of digest st fl])
      (auto simp: prepare_create_def memory_iface_def model_post_init_def split: prod.splits)
next
  case (fork_prepared new_id st fl source n st' now mutations)
  then show ?case
    by (intro snapshots_ok_prepared [of digest st fl])
      (auto simp: with_mutations_def memory_iface_def model_post_init_def)
next
  case (saved fl xs s ys st j st')
  then show ?case
    using live_save [of digest st xs s ys j st'] snapshots_ok_sub [of digest "(st, fl)" "(st', xs @ ys)"]
    by (simp add: memory_iface_def)
next
  case (delete_called i st b st' fl)
  then show ?case
    using delete_is_drops [of i st b st'] snapshots_ok_sub [of digest "(st, fl)" "(st', fl)"]
    by (auto simp: live_drops snapshots_ok_def [of _ "(st, fl)"] store_ok_drops)
next
  case (cleanup_called fresh now max_age keep subject st n st' fl)
  then show ?case
    using cleanup_is_drops [of fresh now max_age keep subject st n st'] snapshots_ok_sub [of digest "(st, fl)" "(st', fl)"]
    by (auto simp: live_drops snapshots_ok_def [of _ "(st, fl)"] store_ok_drops)
next
  case (clear_called st)
  then show ?case using snapshots_ok_empty by (simp add: clear_snapshots_def)
qed

definition fresh_snapshots :: "snapshot_run \<Rightarrow> bool" where
  "fresh_snapshots R \<longleftrightarrow> R = (empty_snapshots, [])"

interpretation snapshot_machine: invariant_machine fresh_snapshots "snapshot_step digest" "snapshots_ok digest" for digest
  by unfold_locales
    (auto simp: fresh_snapshots_def snapshots_ok_empty intro: snapshots_ok_step)


section \<open>Retention\<close>

abbreviation stored :: "snapshot_store \<Rightarrow> snapshot list" where
  "stored st \<equiv> map snd (ss_snapshots st)"

text \<open>How many stored snapshots of the same subject are newer, and when the policy removes one.\<close>

definition newer_count :: "snapshot_store \<Rightarrow> snapshot \<Rightarrow> nat" where
  "newer_count st s =
     card {t \<in> set (stored st). subject_of t = subject_of s \<and> sn_sequence_number s < sn_sequence_number t}"

definition retention_removes ::
  "timestamp \<Rightarrow> int option \<Rightarrow> int option \<Rightarrow> subject_ref option \<Rightarrow> snapshot_store \<Rightarrow> snapshot \<Rightarrow> bool" where
  "retention_removes now max_age keep subject st s \<longleftrightarrow>
     (max_age \<noteq> None \<or> keep \<noteq> None) \<and> of_subject subject s \<and>
     (case max_age of None \<Rightarrow> True | Some a \<Rightarrow> sn_created_at s < now - a * usec_per_sec) \<and>
     (case keep of None \<Rightarrow> True | Some n \<Rightarrow> n \<le> int (newer_count st s))"

lemma should_delete_eq:
  assumes "max_age \<noteq> None \<or> keep \<noteq> None" "of_subject subject s"
  shows "should_delete (map_option (\<lambda>a. now - a * usec_per_sec) max_age) keep (newer_count st s) s =
    retention_removes now max_age keep subject st s"
  using assms by (auto simp: should_delete_def retention_removes_def Let_def split: option.splits)

lemma stored_facts:
  assumes "snapshots_ok digest (st, fl)"
  shows "distinct (map sn_id (stored st))" "distinct (stored st)" "distinct_numbers (stored st)"
proof -
  show d: "distinct (map sn_id (stored st))" and "distinct_numbers (stored st)"
    using assms by (simp_all add: snapshots_ok_def live_def distinct_numbers_def del: map_map)
  show "distinct (stored st)" using d unfolding distinct_map by blast
qed

lemma inj_on_numbers:
  assumes "distinct_numbers ss" "\<And>s. s \<in> set ss \<Longrightarrow> subject_of s = k"
  shows "inj_on sn_sequence_number (set ss)"
proof (rule inj_onI)
  fix s t assume *: "s \<in> set ss" "t \<in> set ss" "sn_sequence_number s = sn_sequence_number t"
  have "inj_on (\<lambda>s. (subject_of s, sn_sequence_number s)) (set ss)"
    using assms(1) by (simp add: distinct_numbers_def distinct_map)
  from inj_onD [OF this _ *(1,2)] show "s = t" using assms(2) * by simp
qed

lemma load_stored:
  assumes "store_ok st"
  shows "load i st = Some s \<longleftrightarrow> s \<in> set (stored st) \<and> sn_id s = i"
proof
  assume l: "load i st = Some s"
  then show "s \<in> set (stored st) \<and> sn_id s = i"
    using store_ok_id [OF assms l] map_of_SomeD [OF l [unfolded load_def]] by force
next
  assume *: "s \<in> set (stored st) \<and> sn_id s = i"
  then obtain j where "(j, s) \<in> set (ss_snapshots st)" by auto
  then have "load j st = Some s" using assms by (simp add: store_ok_def load_def dict_in)
  with * store_ok_id [OF assms this] show "load i st = Some s" by simp
qed

text \<open>The identifiers the cleanup collects are those of the snapshots the policy removes.\<close>

lemma expired_ids:
  assumes ok: "snapshots_ok digest (st, fl)" and pol: "max_age \<noteq> None \<or> keep \<noteq> None"
    and scope: "in_scope = filter (of_subject subject) (stored st)"
  shows "i \<in> set (concat (map (\<lambda>key. expired_of_subject (map_option (\<lambda>a. now - a * usec_per_sec) max_age) keep
       [s \<leftarrow> in_scope. subject_of s = key]) (remdups (map subject_of in_scope)))) \<longleftrightarrow>
    (\<exists>s \<in> set (stored st). sn_id s = i \<and> retention_removes now max_age keep subject st s)"
    (is "?l \<longleftrightarrow> ?r")
proof -
  let ?c = "map_option (\<lambda>a. now - a * usec_per_sec) max_age"
  note f = stored_facts [OF ok]
  have key: "i \<in> set (expired_of_subject ?c keep [s \<leftarrow> in_scope. subject_of s = key]) \<longleftrightarrow>
      (\<exists>s \<in> set in_scope. subject_of s = key \<and> sn_id s = i \<and> retention_removes now max_age keep subject st s)" for key
  proof -
    let ?ss = "[s \<leftarrow> in_scope. subject_of s = key]"
    have "inj_on sn_sequence_number (set ?ss)"
      by (rule inj_on_numbers [of _ key]) (use f scope distinct_numbers_filter in auto)
    moreover have "distinct ?ss" using f scope by simp
    moreover have "{t \<in> set ?ss. sn_sequence_number s < sn_sequence_number t} =
        {t \<in> set (stored st). subject_of t = subject_of s \<and> sn_sequence_number s < sn_sequence_number t}"
      if "s \<in> set ?ss" for s
      using that scope by (auto simp: of_subject_def split: option.splits)
    moreover have "should_delete ?c keep (newer_count st s) s = retention_removes now max_age keep subject st s"
      if "s \<in> set ?ss" for s
      using should_delete_eq [OF pol] that scope by auto
    ultimately show ?thesis using expired_of_subject_iff [of ?ss i ?c keep] by (auto simp: newer_count_def)
  qed
  have "?l \<longleftrightarrow> (\<exists>s \<in> set in_scope. sn_id s = i \<and> retention_removes now max_age keep subject st s)"
    using key by auto
  also have "\<dots> \<longleftrightarrow> ?r" using scope by (auto simp: retention_removes_def)
  finally show ?thesis .
qed

lemma cleanup_stored:
  assumes ok: "snapshots_ok digest (st, fl)"
    and c: "cleanup_expired_snapshots fresh now max_age keep subject st = Ok (n, st')"
  shows "stored st' = [s \<leftarrow> stored st. \<not> retention_removes now max_age keep subject st s] \<and>
    n = int (length [s \<leftarrow> stored st. retention_removes now max_age keep subject st s])"
proof (cases "max_age = None \<and> keep = None")
  case True
  then show ?thesis using c by (simp add: cleanup_expired_snapshots_def retention_removes_def)
next
  case False
  let ?R = "retention_removes now max_age keep subject st"
  define in_scope where s: "in_scope = filter (of_subject subject) (stored st)"
  define ids where i: "ids = concat (map (\<lambda>key. expired_of_subject (map_option (\<lambda>a. now - a * usec_per_sec) max_age) keep
       [s \<leftarrow> in_scope. subject_of s = key]) (remdups (map subject_of in_scope)))"
  define present where p: "present = [i \<leftarrow> remdups ids. load i st \<noteq> None]"
  have st: "store_ok st" using ok by (simp add: snapshots_ok_def)
  note f = stored_facts [OF ok]
  have pol: "max_age \<noteq> None \<or> keep \<noteq> None" using False by simp
  have "set ids = sn_id ` set [s \<leftarrow> stored st. ?R s]"
  proof (rule set_eqI)
    fix x
    have "x \<in> sn_id ` set [s \<leftarrow> stored st. ?R s] \<longleftrightarrow> (\<exists>s \<in> set (stored st). sn_id s = x \<and> ?R s)" by (simp add: image_iff) blast
    then show "x \<in> set ids \<longleftrightarrow> x \<in> sn_id ` set [s \<leftarrow> stored st. ?R s]"
      using expired_ids [OF ok pol s, of x now] unfolding i by (simp only:)
  qed
  moreover have "load (sn_id s) st = Some s" if "s \<in> set (stored st)" for s
    using that load_stored [OF st] by simp
  ultimately have pr: "set present = sn_id ` set [s \<leftarrow> stored st. ?R s]" by (auto simp: p)
  have res: "n = int (length present) \<and> st' = fold drop_snapshot present st"
  proof (cases "case keep of None \<Rightarrow> False | Some n \<Rightarrow> n < 1")
    case True
    then show ?thesis using c by (simp only: cleanup_expired_snapshots_def if_True sum.distinct)
  next
    case keep: False
    have "cleanup_expired_snapshots fresh now max_age keep subject st = Ok (int (length present), fold drop_snapshot present st)"
      unfolding p i s load_def cleanup_expired_snapshots_def Let_def by (simp only: keep False if_False)
    then show ?thesis using c by (simp only: sum.inject prod.inject)
  qed
  have "length present = card (sn_id ` set [s \<leftarrow> stored st. ?R s])"
    using pr distinct_card [of present] by (simp add: p)
  also have "\<dots> = length [s \<leftarrow> stored st. ?R s]"
    using f(1) distinct_card [of "map sn_id [s \<leftarrow> stored st. ?R s]"] by (simp add: distinct_map_filter del: map_map)
  finally have len: "n = int (length [s \<leftarrow> stored st. ?R s])" using res by simp
  have "fst q \<notin> set present \<longleftrightarrow> \<not> ?R (snd q)" if q: "q \<in> set (ss_snapshots st)" for q
  proof -
    have sn: "snd q \<in> set (stored st)" using q by simp
    have "load (fst q) st = Some (snd q)" 
      using q st dict_in [of "ss_snapshots st" "fst q" "snd q"] by (simp add: store_ok_def load_def)
    then have id: "fst q = sn_id (snd q)" using store_ok_id [OF st] by simp
    have "fst q \<in> set present \<longleftrightarrow> (\<exists>s \<in> set (stored st). ?R s \<and> sn_id s = sn_id (snd q))"
      unfolding pr id image_iff set_filter Bex_def mem_Collect_eq by metis
    also have "\<dots> \<longleftrightarrow> ?R (snd q)"
      using inj_onD [of sn_id "set (stored st)"] f(1) sn unfolding distinct_map by metis
    finally show ?thesis by simp
  qed
  then have "stored st' = [s \<leftarrow> stored st. \<not> ?R s]"
    using res by (simp add: snapshots_drops filter_map comp_def cong: filter_cong)
  with len show ?thesis by simp
qed


lemma load_latest_subject:
  "load_latest (Some r) st = latest_of [s \<leftarrow> stored st. subject_of s = subject_key r]"
proof -
  have "of_subject (Some r) = (\<lambda>s. subject_of s = subject_key r)" by (simp add: of_subject_def fun_eq_iff)
  then show ?thesis by (simp add: load_latest_def)
qed

lemma cleanup_keeps_latest:
  assumes ok: "snapshots_ok digest (st, fl)"
    and c: "cleanup_expired_snapshots fresh now max_age (Some k) subject st = Ok (n, st')"
  shows "load_latest (Some r) st' = load_latest (Some r) st"
proof -
  let ?S = "[s \<leftarrow> stored st. subject_of s = subject_key r]"
  let ?R = "retention_removes now max_age (Some k) subject st"
  have k: "1 \<le> k"
  proof (rule ccontr)
    assume "\<not> 1 \<le> k"
    then have "k < 1" by simp
    then show False using c by (simp only: cleanup_expired_snapshots_def option.case if_True sum.distinct)
  qed
  have st': "load_latest (Some r) st' = latest_of [s \<leftarrow> ?S. \<not> ?R s]"
  proof -
    have "stored st' = [s \<leftarrow> stored st. \<not> ?R s]" using cleanup_stored [OF ok c] by blast
    then show ?thesis
      by (simp only: load_latest_subject filter_filter conj_commute [of "subject_of _ = subject_key r"])
  qed
  have st: "load_latest (Some r) st = latest_of ?S" by (rule load_latest_subject)
  show ?thesis
  proof (cases "latest_of ?S")
    case None
    then show ?thesis using st st' by simp
  next
    case (Some s)
    note m = latest_of_max [OF Some]
    have "{t \<in> set (stored st). subject_of t = subject_of s \<and> sn_sequence_number s < sn_sequence_number t} = {}"
      using m by fastforce
    then have "newer_count st s = 0" by (simp only: newer_count_def card.empty)
    then have keep: "\<not> ?R s" using k by (simp add: retention_removes_def)
    have inj: "inj_on sn_sequence_number (set ?S)"
      by (rule inj_on_numbers [of _ "subject_key r"]) (use stored_facts [OF ok] distinct_numbers_filter in auto)
    have "inj_on sn_sequence_number (set [s \<leftarrow> ?S. \<not> ?R s])" by (rule inj_on_subset [OF inj]) auto
    then have "latest_of [s \<leftarrow> ?S. \<not> ?R s] = Some s"
      by (rule latest_of_unique) (use m keep in auto)
    then show ?thesis using st st' Some by simp
  qed
qed

lemma create_by_content:
  assumes ok: "snapshots_ok digest (st, fl)" and new: "load new_id st = None" and h: "digest data \<noteq> []"
    and c: "service_create memory_iface digest new_id now subject data parent st = (j, st')"
  shows "if \<exists>t \<in> set (stored st). sn_content_hash t = Some (digest data)
    then j \<noteq> new_id \<and> stored st' = stored st \<and> (\<exists>t. load j st = Some t \<and> sn_content_hash t = Some (digest data))
    else j = new_id \<and> (\<exists>s. load_latest (Some subject) st' = Some s \<and> load new_id st' = Some s \<and>
       sn_id s = new_id \<and> sn_data s = data \<and> sn_subject s = subject \<and> sn_parent_id s = parent)"
proof -
  have st: "store_ok st" using ok by (simp add: snapshots_ok_def)
  obtain m st1 where nxt: "get_next_sequence_number subject st = (m, st1)" by (cases "get_next_sequence_number subject st")
  note d = drawn_next [OF nxt]
  have st1: "store_ok st1" using store_ok_next_sequence [OF nxt st] .
  define s where s: "s = \<lparr>sn_id = new_id, sn_subject = subject, sn_data = data, sn_sequence_number = m,
      sn_version = 1, sn_content_hash = Some (digest data), sn_created_at = now, sn_parent_id = parent\<rparr>"
  have sv: "save s st1 = (j, st')"
    using c nxt by (simp add: service_create_def prepare_create_def memory_iface_def model_post_init_def s)
  have hs: "hash_of s = Some (digest data)" using h by (simp add: hash_of_def s)
  have hash: "hash_of t = Some (digest data) \<longleftrightarrow> sn_content_hash t = Some (digest data)" for t
    using h by (auto simp: hash_of_def split: option.splits)
  have l1: "load i st1 = load i st" for i using d by (simp add: load_def)
  show ?thesis
  proof (cases rule: save_cases [OF st1, of s])
    case (1 i t g)
    then have "load j st = Some t" "sn_content_hash t = Some (digest data)" "st' = st1"
      using sv hs l1 hash by auto
    moreover have "t \<in> set (stored st)" using load_stored [OF st] calculation(1) by blast
    ultimately show ?thesis using new d by auto
  next
    case (2 st2)
    have none: "\<not> (\<exists>t \<in> set (stored st). sn_content_hash t = Some (digest data))"
    proof
      assume "\<exists>t \<in> set (stored st). sn_content_hash t = Some (digest data)"
      then obtain t where "t \<in> set (stored st)" "hash_of t = Some (digest data)" using hash by blast
      moreover from this(1) have "load (sn_id t) st1 = Some t" by (simp only: l1 load_stored [OF st])
      ultimately show False using 2(1) hs by blast
    qed
    have "ss_snapshots st' = dict_put new_id s (ss_snapshots st)" "j = new_id" using 2 sv d by (simp_all add: s)
    then have sn: "ss_snapshots st' = ss_snapshots st @ [(new_id, s)]" using new by (simp add: load_def dict_put_fresh)
    have low: "sn_sequence_number t < m" if "t \<in> set (stored st)" "subject_of t = subject_key subject" for t
    proof -
      have "t \<in> set (live (st, fl))" using that(1) by (simp add: live_def)
      then have "sn_sequence_number t \<le> drawn st (subject_of t)" using ok by (simp add: snapshots_ok_def)
      with that(2) d(1) show ?thesis by simp
    qed
    have "load_latest (Some subject) st' = Some s"
      unfolding load_latest_subject sn
    proof (rule latest_of_unique)
      have "distinct_numbers [s \<leftarrow> stored st. subject_of s = subject_key subject]"
        using stored_facts [OF ok] by (simp add: distinct_numbers_filter)
      then have inj: "inj_on sn_sequence_number (set [s \<leftarrow> stored st. subject_of s = subject_key subject])"
        by (rule inj_on_numbers [of _ "subject_key subject"]) simp
      have eq: "set [s' \<leftarrow> map snd (ss_snapshots st @ [(new_id, s)]). subject_of s' = subject_key subject] =
          insert s (set [s \<leftarrow> stored st. subject_of s = subject_key subject])"
        by (simp add: s)
      have "sn_sequence_number s \<notin> sn_sequence_number ` (set [s \<leftarrow> stored st. subject_of s = subject_key subject] - {s})"
        using low by (auto simp: s dest!: low)
      with inj show "inj_on sn_sequence_number (set [s' \<leftarrow> map snd (ss_snapshots st @ [(new_id, s)]).
          subject_of s' = subject_key subject])"
        unfolding eq inj_on_insert by simp
    qed (use low in \<open>fastforce simp: s intro: less_imp_le\<close>)+
    moreover have "load new_id st' = Some s" using \<open>ss_snapshots st' = dict_put new_id s _\<close> by (simp add: load_def dict_get_put)
    ultimately show ?thesis using none \<open>j = new_id\<close> by (simp add: s)
  qed
qed

section \<open>Properties\<close>

text \<open>
  C30: In every reachable state of the snapshot service, whatever calls interleave, each stored snapshot is
  found under its identifier, sequence numbers are positive, never above the last one drawn for the
  subject and never shared within a subject, and no content is stored twice.
\<close>
theorem snapshots_reachable_ok:
  "reach fresh_snapshots (snapshot_step digest) (st, fl) \<Longrightarrow> s \<in> set (stored st) \<Longrightarrow>
   load (sn_id s) st = Some s \<and> 0 < sn_sequence_number s \<and>
   sn_sequence_number s \<le> drawn st (subject_key (sn_subject s)) \<and>
   (\<forall>t \<in> set (stored st). subject_key (sn_subject t) = subject_key (sn_subject s) \<and>
      sn_sequence_number t = sn_sequence_number s \<or> hash_of s \<noteq> None \<and> hash_of t = hash_of s \<longrightarrow> t = s)"
proof (intro conjI ballI impI)
  assume r: "reach fresh_snapshots (snapshot_step digest) (st, fl)" and s: "s \<in> set (stored st)"
  have ok: "snapshots_ok digest (st, fl)" by (rule snapshot_machine.reach_inv [OF r])
  then have st: "store_ok st" by (simp add: snapshots_ok_def)
  show l: "load (sn_id s) st = Some s" using s load_stored [OF st] by simp
  show "0 < sn_sequence_number s" "sn_sequence_number s \<le> drawn st (subject_key (sn_subject s))"
    using ok s by (auto simp: snapshots_ok_def live_def)
  fix t
  assume t: "t \<in> set (stored st)" and e: "subject_key (sn_subject t) = subject_key (sn_subject s) \<and>
      sn_sequence_number t = sn_sequence_number s \<or> hash_of s \<noteq> None \<and> hash_of t = hash_of s"
  have lt: "load (sn_id t) st = Some t" using t load_stored [OF st] by simp
  from e show "t = s"
  proof
    assume "subject_key (sn_subject t) = subject_key (sn_subject s) \<and> sn_sequence_number t = sn_sequence_number s"
    moreover have "inj_on (\<lambda>s. (subject_of s, sn_sequence_number s)) (set (stored st))"
      using stored_facts(3) [OF ok] unfolding distinct_numbers_def distinct_map by blast
    ultimately show "t = s" using s t by (auto dest: inj_onD)
  next
    assume "hash_of s \<noteq> None \<and> hash_of t = hash_of s"
    then obtain h where "hash_of s = Some h" "hash_of t = Some h" by auto
    then have "sn_id t = sn_id s" by (intro same_hash_same_id [OF st lt l])
    with lt l show "t = s" by (metis option.inject)
  qed
qed


text \<open>Concrete states for the witnesses: two subjects with distinct keys and a digest that reads the data.\<close>

definition demo_digest :: "snapshot_data \<Rightarrow> string" where
  "demo_digest d = ''h'' @ concat (map fst d)"

definition demo_subject :: subject_ref where
  "demo_subject = \<lparr>sj_type = ''agent'', sj_id = 7\<rparr>"

definition demo_snapshot :: "uuid \<Rightarrow> snapshot_data \<Rightarrow> int \<Rightarrow> snapshot" where
  "demo_snapshot i d n = \<lparr>sn_id = i, sn_subject = demo_subject, sn_data = d, sn_sequence_number = n, sn_version = 1,
     sn_content_hash = Some (demo_digest d), sn_created_at = 0, sn_parent_id = None\<rparr>"

definition demo_store :: snapshot_store where
  "demo_store =
     \<lparr>ss_snapshots = [(1, demo_snapshot 1 [(''a'', JNull)] 1), (2, demo_snapshot 2 [(''b'', JNull)] 2)],
      ss_sequences = [(subject_key demo_subject, 2)],
      ss_hash_index = [(''ha'', 1), (''hb'', 2)]\<rparr>"

lemmas demo_defs = demo_digest_def demo_snapshot_def demo_store_def

text \<open>The demo state is reached by creating the two snapshots.\<close>

lemma demo_reachable: "reach fresh_snapshots (snapshot_step demo_digest) (demo_store, [])"
proof -
  let ?k = "subject_key demo_subject"
  let ?a = "demo_snapshot 1 [(''a'', JNull)] 1" and ?b = "demo_snapshot 2 [(''b'', JNull)] 2"
  let ?s1 = "empty_snapshots\<lparr>ss_sequences := [(?k, 1)]\<rparr>"
  let ?s2 = "\<lparr>ss_snapshots = [(1, ?a)], ss_sequences = [(?k, 1)], ss_hash_index = [(''ha'', 1)]\<rparr>"
  let ?s3 = "?s2\<lparr>ss_sequences := [(?k, 2)]\<rparr>"
  note ev = prepare_create_def memory_iface_def get_next_sequence_number_def Let_def model_post_init_def
    empty_snapshots_def demo_snapshot_def demo_digest_def
  have "reach fresh_snapshots (snapshot_step demo_digest) (empty_snapshots, [])"
    by (rule reach_init) (simp add: fresh_snapshots_def)
  moreover have "snapshot_step demo_digest CreatePrepared (empty_snapshots, []) (?s1, [] @ [?a])"
    by (rule create_prepared [where new_id = 1 and data = "[(''a'', JNull)]" and now = 0 and parent = None and
        subject = demo_subject])
      (simp_all add: live_def ev)
  moreover have "snapshot_step demo_digest Saved (?s1, [] @ [?a]) (?s2, [] @ [])"
    by (rule saved [where s = ?a]) (auto simp: save_def hash_of_def ev)
  moreover have "snapshot_step demo_digest CreatePrepared (?s2, [] @ []) (?s3, [] @ [?b])"
    unfolding append_Nil
    by (rule create_prepared [where new_id = 2 and data = "[(''b'', JNull)]" and now = 0 and parent = None and
        subject = demo_subject and fl = "[]", unfolded append_Nil])
      (simp_all add: live_def ev)
  moreover have "snapshot_step demo_digest Saved (?s3, [] @ [?b]) (demo_store, [] @ [])"
    by (rule saved [where s = ?b]) (auto simp: save_def hash_of_def demo_store_def ev)
  ultimately show ?thesis unfolding append_Nil by (blast intro: reach_step)
qed

theorem snapshots_reachable_ok_witness:
  "load 1 demo_store = Some (demo_snapshot 1 [(''a'', JNull)] 1)"
  using snapshots_reachable_ok [OF demo_reachable, of "demo_snapshot 1 [(''a'', JNull)] 1"]
  by (simp add: demo_store_def) (simp add: demo_snapshot_def)

text \<open>
  A cleanup removes exactly the snapshots in its scope that are older than the age limit and outside the
  newest \<open>keep_latest_n\<close> of their subject (whichever of the two conditions is configured), returns how
  many it removed, keeps all others in their order, and with a count policy the latest snapshot of
  every subject survives.
\<close>
lemma retention_cleanup:
  "reach fresh_snapshots (snapshot_step digest) (st, fl) \<Longrightarrow>
   cleanup_expired_snapshots fresh now max_age keep subject st = Ok (n, st') \<Longrightarrow>
   map snd (ss_snapshots st') =
     [s \<leftarrow> map snd (ss_snapshots st). \<not> retention_removes now max_age keep subject st s] \<and>
   n = int (length [s \<leftarrow> map snd (ss_snapshots st). retention_removes now max_age keep subject st s]) \<and>
   (keep = None \<or> (\<forall>r. load_latest (Some r) st' = load_latest (Some r) st))"
  using cleanup_stored [of digest st fl fresh now max_age keep subject n st']
    cleanup_keeps_latest [of digest st fl fresh now max_age _ subject n st'] snapshot_machine.reach_inv
  by (cases keep) auto

text \<open>
  C31: \<open>create\<close> stores its snapshot as the new latest of its subject exactly when no stored snapshot, of
  whatever subject, has the same content; otherwise it stores nothing and returns the identifier of
  that other snapshot, so reverting a subject to an earlier content, or creating a second subject with
  equal content, leaves no snapshot behind.
\<close>
theorem create_latest:
  "reach fresh_snapshots (snapshot_step digest) (st, fl) \<Longrightarrow> load new_id st = None \<Longrightarrow> digest data \<noteq> [] \<Longrightarrow>
   service_create memory_iface digest new_id now subject data parent st = (j, st') \<Longrightarrow>
   if \<exists>t \<in> set (map snd (ss_snapshots st)). sn_content_hash t = Some (digest data)
   then j \<noteq> new_id \<and> map snd (ss_snapshots st') = map snd (ss_snapshots st) \<and>
     (\<exists>t. load j st = Some t \<and> sn_content_hash t = Some (digest data))
   else j = new_id \<and> (\<exists>s. load_latest (Some subject) st' = Some s \<and> load new_id st' = Some s \<and>
     sn_id s = new_id \<and> sn_data s = data \<and> sn_subject s = subject \<and> sn_parent_id s = parent)"
  by (rule create_by_content [OF snapshot_machine.reach_inv])

theorem create_latest_witness:
  "stored (snd (service_create memory_iface demo_digest 3 9 demo_subject [(''a'', JNull)] None demo_store)) =
   stored demo_store"
proof -
  obtain j st' where c: "service_create memory_iface demo_digest 3 9 demo_subject [(''a'', JNull)] None demo_store = (j, st')"
    by (cases "service_create memory_iface demo_digest 3 9 demo_subject [(''a'', JNull)] None demo_store")
  have "\<exists>t \<in> set (stored demo_store). sn_content_hash t = Some (demo_digest [(''a'', JNull)])"
    by (simp add: demo_defs)
  moreover have "load 3 demo_store = None" "demo_digest [(''a'', JNull)] \<noteq> []" by (simp_all add: load_def demo_defs)
  ultimately show ?thesis using create_latest [OF demo_reachable _ _ c] unfolding c snd_conv by presburger
qed

text \<open>
  A fork whose mutations leave the content as it is (none given, or all of them equal to the
  current values) returns a snapshot with a new identifier that is not in the store: the backend
  deduplicates it away, and the service does not use the identifier the backend returns.
\<close>
lemma fork_copy_is_lost:
  "reach fresh_snapshots (snapshot_step digest) (st, fl) \<Longrightarrow> load i st = Some t \<Longrightarrow> digest (sn_data t) \<noteq> [] \<Longrightarrow>
   digest (merge_data (sn_data t) (case m of None \<Rightarrow> [] | Some d \<Rightarrow> d)) = digest (sn_data t) \<Longrightarrow>
   load new_id st = None \<Longrightarrow>
   \<exists>forked st'. service_fork memory_iface digest new_id now i m st = (Ok forked, st') \<and>
     sn_id forked = new_id \<and> service_get memory_iface (sn_id forked) st' = None"
proof -
  assume r: "reach fresh_snapshots (snapshot_step digest) (st, fl)" and l: "load i st = Some t"
    and d: "digest (sn_data t) \<noteq> []" and m: "digest (merge_data (sn_data t) (case m of None \<Rightarrow> [] | Some d \<Rightarrow> d)) = digest (sn_data t)"
    and new: "load new_id st = None"
  have ok: "snapshots_ok digest (st, fl)" by (rule snapshot_machine.reach_inv [OF r])
  then have st: "store_ok st" by (simp add: snapshots_ok_def)
  have "t \<in> set (stored st)" using l load_stored [OF st] by blast
  then have "sn_content_hash t = Some (digest (sn_data t))" using ok by (simp add: snapshots_ok_def live_def)
  with memory_backend.fork_of_same_content [OF st, of i t digest m new_id now] l d m new
  show ?thesis by (auto simp: memory_iface_def service_get_def)
qed

end
