(* ===== verification/NotificationOutbox.thy ===== *)
theory NotificationOutbox imports Interfaces InfraErrors begin

text \<open>
  The transactional outbox of \<^verbatim>\<open>runtime/transition_notification_outbox.py\<close>: notifications are
  inserted in the transaction of the projection they belong to, and a background processor
  publishes the pending ones in batches, each batch in one database transaction.

  Arguments of the model: the codec of a notification (\<^verbatim>\<open>model_dump_json\<close> and
  \<^verbatim>\<open>model_validate_json\<close> of the core library), the sanitisation of error texts, and, per call, how the
  publishers, the statements and the commit turn out. PostgreSQL's documented transaction rules
  are written out: a failed statement aborts the transaction, later statements fail, and its COMMIT
  is a rollback that reports no error.
\<close>

section \<open>Configuration and rows\<close>

record outbox_config =
  ob_table_name :: string
  ob_batch_size :: int
  ob_poll_interval :: seconds
  ob_query_timeout :: seconds
  ob_strict_transaction_mode :: bool
  ob_shutdown_timeout :: seconds
  ob_max_retries :: "int option"
  ob_has_dlq_publisher :: bool

definition outbox_context :: "outbox_config option \<Rightarrow> string \<Rightarrow> uuid \<Rightarrow> error_context" where
  "outbox_context cfg oper cid = \<lparr>ctx_transport = Some DATABASE, ctx_operation = Some oper,
     ctx_target = map_option ob_table_name cfg, ctx_correlation = cid\<rparr>"

definition mk_outbox_config ::
  "uuid \<Rightarrow> bool \<Rightarrow> bool \<Rightarrow> outbox_config \<Rightarrow> infra_error + outbox_config" where
  "mk_outbox_config fresh has_pool has_publisher cfg =
     (let invalid = (\<lambda>p. Err (ProtocolConfigurationError (outbox_context None ''outbox_init'' fresh) p None)) in
      if \<not> has_pool then invalid None
      else if \<not> has_publisher then invalid None
      else if ob_batch_size cfg < 1 then invalid (Some ''batch_size'')
      else if ob_poll_interval cfg \<le> 0 then invalid (Some ''poll_interval_seconds'')
      else if ob_shutdown_timeout cfg \<le> 0 then invalid (Some ''shutdown_timeout_seconds'')
      else if (case ob_max_retries cfg of None \<Rightarrow> False | Some m \<Rightarrow> m < 1) then invalid (Some ''max_retries'')
      else if ob_max_retries cfg \<noteq> None \<and> \<not> ob_has_dlq_publisher cfg then invalid (Some ''dlq_publisher'')
      else Ok cfg)"

record outbox_row =
  ow_id :: int
  ow_data :: string
  ow_aggregate_type :: string
  ow_aggregate_id :: uuid
  ow_created_at :: timestamp
  ow_processed_at :: "timestamp option"
  ow_retry_count :: int
  ow_last_error :: "string option"

text \<open>The codec of a notification and the columns taken from it.\<close>

record 'n codec =
  cd_dump :: "'n \<Rightarrow> string"
  cd_parse :: "string \<Rightarrow> string + 'n"
  cd_aggregate_type :: "'n \<Rightarrow> string"
  cd_aggregate_id :: "'n \<Rightarrow> uuid"
  cd_correlation_id :: "'n \<Rightarrow> uuid"

record outbox_metrics =
  om_stored :: int
  om_processed :: int
  om_failed :: int
  om_sent_to_dlq :: int
  om_dlq_publish_failures :: int

text \<open>The table with its identity sequence, what the two publishers were given, and the counters.\<close>

record 'n outbox =
  ox_rows :: "outbox_row list"
  ox_next_id :: int
  ox_published :: "'n list"
  ox_dlq :: "'n list"
  ox_metrics :: outbox_metrics

definition empty_outbox :: "'n outbox" where
  "empty_outbox = \<lparr>ox_rows = [], ox_next_id = 1, ox_published = [], ox_dlq = [],
     ox_metrics = \<lparr>om_stored = 0, om_processed = 0, om_failed = 0, om_sent_to_dlq = 0,
       om_dlq_publish_failures = 0\<rparr>\<rparr>"

section \<open>Storing\<close>

datatype db_reply = Replied | LostConnection | Canceled | Failed

definition outbox_error :: "outbox_config \<Rightarrow> string \<Rightarrow> uuid \<Rightarrow> db_reply \<Rightarrow> infra_error" where
  "outbox_error cfg oper cid reply =
     (let ctx = outbox_context (Some cfg) oper cid in
      case reply of
        LostConnection \<Rightarrow> InfraConnectionError ctx
      | Canceled \<Rightarrow> InfraTimeoutError ctx None
      | _ \<Rightarrow> RuntimeHostError ctx)"

definition inserted_outbox_row :: "'n codec \<Rightarrow> int \<Rightarrow> timestamp \<Rightarrow> 'n \<Rightarrow> outbox_row" where
  "inserted_outbox_row C i now n =
     \<lparr>ow_id = i, ow_data = cd_dump C n, ow_aggregate_type = cd_aggregate_type C n,
      ow_aggregate_id = cd_aggregate_id C n, ow_created_at = now, ow_processed_at = None,
      ow_retry_count = 0, ow_last_error = None\<rparr>"

text \<open>
  The insert runs in the caller's transaction: \<open>commits\<close> says whether that transaction commits
  in the end. The identity sequence and the counter do not roll back.
\<close>

definition store_notification ::
  "'n codec \<Rightarrow> outbox_config \<Rightarrow> bool \<Rightarrow> db_reply \<Rightarrow> bool \<Rightarrow> timestamp \<Rightarrow> 'n \<Rightarrow> 'n outbox \<Rightarrow>
   (infra_error + unit) \<times> 'n outbox" where
  "store_notification C cfg in_transaction reply commits now n st =
     (if \<not> in_transaction \<and> ob_strict_transaction_mode cfg then
        (Err (ProtocolConfigurationError
           (outbox_context (Some cfg) ''outbox_store'' (cd_correlation_id C n)) None None), st)
      else if reply \<noteq> Replied then
        (Err (outbox_error cfg ''outbox_store'' (cd_correlation_id C n) reply), st)
      else (Ok (), st\<lparr>
         ox_rows := (if \<not> in_transaction \<or> commits
            then ox_rows st @ [inserted_outbox_row C (ox_next_id st) now n] else ox_rows st),
         ox_next_id := ox_next_id st + 1,
         ox_metrics := (ox_metrics st)\<lparr>om_stored := om_stored (ox_metrics st) + 1\<rparr>\<rparr>))"

section \<open>Processing a batch\<close>

text \<open>
  How one statement turns out: done, an error \<^verbatim>\<open>asyncpg.PostgresError\<close> or a timeout, or another
  exception (a closed connection).
\<close>

datatype stmt_outcome = StmtDone | PgError | OtherError

record batch_env =
  be_acquire :: db_reply
  be_select :: db_reply
  be_locked :: "int \<Rightarrow> bool"
  be_publish :: "int \<Rightarrow> string option"
  be_dlq_publish :: "int \<Rightarrow> string option"
  be_success_update :: "int \<Rightarrow> stmt_outcome"
  be_failure_update :: "int \<Rightarrow> stmt_outcome"
  be_dlq_update :: "int \<Rightarrow> stmt_outcome"
  be_update_error :: "int \<Rightarrow> string"
  be_commit :: db_reply
  be_commit_applied :: bool

text \<open>The state inside the transaction.\<close>

record 'n batch =
  bt_rows :: "outbox_row list"
  bt_broken :: bool
  bt_published :: "'n list"
  bt_dlq :: "'n list"
  bt_processed :: nat
  bt_metrics :: outbox_metrics

definition run_stmt ::
  "stmt_outcome \<Rightarrow> (outbox_row list \<Rightarrow> outbox_row list) \<Rightarrow> 'n batch \<Rightarrow> stmt_outcome \<times> 'n batch" where
  "run_stmt outcome f b =
     (if bt_broken b then (if outcome = OtherError then OtherError else PgError, b)
      else if outcome = StmtDone then (StmtDone, b\<lparr>bt_rows := f (bt_rows b)\<rparr>)
      else (outcome, b\<lparr>bt_broken := True\<rparr>))"

definition update_row :: "int \<Rightarrow> (outbox_row \<Rightarrow> outbox_row) \<Rightarrow> outbox_row list \<Rightarrow> outbox_row list" where
  "update_row i f rows = map (\<lambda>r. if ow_id r = i then f r else r) rows"

definition max_error_message_length :: nat where
  "max_error_message_length = 1000"

definition should_move_to_dlq :: "outbox_config \<Rightarrow> int \<Rightarrow> bool" where
  "should_move_to_dlq cfg retry_count \<longleftrightarrow>
     (case ob_max_retries cfg of
        None \<Rightarrow> False
      | Some m \<Rightarrow> if \<not> ob_has_dlq_publisher cfg then False else retry_count \<ge> m)"

definition move_to_dlq ::
  "batch_env \<Rightarrow> timestamp \<Rightarrow> outbox_row \<Rightarrow> 'n \<Rightarrow> 'n batch \<Rightarrow> bool \<times> 'n batch" where
  "move_to_dlq env now row n b =
     (let dlq_failed = (\<lambda>b. b\<lparr>bt_metrics := (bt_metrics b)\<lparr>om_dlq_publish_failures :=
            om_dlq_publish_failures (bt_metrics b) + 1\<rparr>\<rparr>);
          message = ''Moved to DLQ after '' @ string_of_int (ow_retry_count row) @ '' retries''
      in case be_dlq_publish env (ow_id row) of
        Some _ \<Rightarrow> (False, dlq_failed b)
      | None \<Rightarrow>
          let b1 = b\<lparr>bt_dlq := bt_dlq b @ [n]\<rparr>;
              (outcome, b2) = run_stmt (be_dlq_update env (ow_id row))
                (update_row (ow_id row) (\<lambda>r. r\<lparr>ow_processed_at := Some now,
                   ow_last_error := Some (take max_error_message_length message)\<rparr>)) b1
          in if outcome \<noteq> StmtDone then (False, dlq_failed b2)
             else (True, b2\<lparr>bt_metrics := (bt_metrics b2)\<lparr>
               om_sent_to_dlq := om_sent_to_dlq (bt_metrics b2) + 1,
               om_processed := om_processed (bt_metrics b2) + 1\<rparr>\<rparr>))"

text \<open>The handler of a row's exception; an error that is not one of the database's propagates.\<close>

definition record_row_failure ::
  "(string \<Rightarrow> string) \<Rightarrow> batch_env \<Rightarrow> outbox_row \<Rightarrow> string \<Rightarrow> 'n batch \<Rightarrow> bool \<times> 'n batch" where
  "record_row_failure sanitize env row err b =
     (let b1 = b\<lparr>bt_metrics := (bt_metrics b)\<lparr>om_failed := om_failed (bt_metrics b) + 1\<rparr>\<rparr>;
          (outcome, b2) = run_stmt (be_failure_update env (ow_id row))
            (update_row (ow_id row) (\<lambda>r. r\<lparr>ow_retry_count := ow_retry_count r + 1,
               ow_last_error := Some (take max_error_message_length (sanitize err))\<rparr>)) b1
      in (outcome = OtherError, b2))"

definition process_row ::
  "'n codec \<Rightarrow> (string \<Rightarrow> string) \<Rightarrow> outbox_config \<Rightarrow> batch_env \<Rightarrow> timestamp \<Rightarrow> outbox_row \<Rightarrow> 'n batch \<Rightarrow>
   bool \<times> 'n batch" where
  "process_row C sanitize cfg env now row b =
     (case cd_parse C (ow_data row) of
        Inl err \<Rightarrow> record_row_failure sanitize env row err b
      | Inr n \<Rightarrow>
          if should_move_to_dlq cfg (ow_retry_count row) then
            let (dlq_success, b1) = move_to_dlq env now row n b
            in (False, if dlq_success then b1\<lparr>bt_processed := bt_processed b1 + 1\<rparr> else b1)
          else
            (case be_publish env (ow_id row) of
               Some err \<Rightarrow> record_row_failure sanitize env row err b
             | None \<Rightarrow>
                 let b1 = b\<lparr>bt_published := bt_published b @ [n]\<rparr>;
                     (outcome, b2) = run_stmt (be_success_update env (ow_id row))
                       (update_row (ow_id row) (\<lambda>r. r\<lparr>ow_processed_at := Some now\<rparr>)) b1
                 in if outcome \<noteq> StmtDone
                    then record_row_failure sanitize env row (be_update_error env (ow_id row)) b2
                    else (False, b2\<lparr>bt_processed := bt_processed b2 + 1,
                      bt_metrics := (bt_metrics b2)\<lparr>om_processed := om_processed (bt_metrics b2) + 1\<rparr>\<rparr>)))"

fun process_rows ::
  "'n codec \<Rightarrow> (string \<Rightarrow> string) \<Rightarrow> outbox_config \<Rightarrow> batch_env \<Rightarrow> timestamp \<Rightarrow> outbox_row list \<Rightarrow> 'n batch \<Rightarrow>
   bool \<times> 'n batch" where
  "process_rows C sanitize cfg env now [] b = (False, b)"
| "process_rows C sanitize cfg env now (row # rows) b =
     (case process_row C sanitize cfg env now row b of
        (True, b') \<Rightarrow> (True, b')
      | (False, b') \<Rightarrow> process_rows C sanitize cfg env now rows b')"

text \<open>
  \<open>FOR UPDATE SKIP LOCKED\<close>: rows another processor holds are passed over. Rows of equal creation time
  come in table order.
\<close>

definition pending_batch :: "outbox_config \<Rightarrow> batch_env \<Rightarrow> 'n outbox \<Rightarrow> outbox_row list" where
  "pending_batch cfg env st = take (nat (ob_batch_size cfg)) (sort_key ow_created_at
     [r \<leftarrow> ox_rows st. ow_processed_at r = None \<and> \<not> be_locked env (ow_id r)])"

definition process_pending ::
  "'n codec \<Rightarrow> (string \<Rightarrow> string) \<Rightarrow> outbox_config \<Rightarrow> uuid \<Rightarrow> batch_env \<Rightarrow> timestamp \<Rightarrow> 'n outbox \<Rightarrow>
   (infra_error + nat) \<times> 'n outbox" where
  "process_pending C sanitize cfg cid env now st =
     (let failed = (\<lambda>reply. Err (outbox_error cfg ''outbox_process_pending'' cid reply)) in
      if be_acquire env \<noteq> Replied then (failed (be_acquire env), st)
      else if be_select env \<noteq> Replied then (failed (be_select env), st)
      else
        let (raised, b) = process_rows C sanitize cfg env now (pending_batch cfg env st)
              \<lparr>bt_rows = ox_rows st, bt_broken = False, bt_published = ox_published st,
               bt_dlq = ox_dlq st, bt_processed = 0, bt_metrics = ox_metrics st\<rparr>;
            after = (\<lambda>rows. st\<lparr>ox_rows := rows, ox_published := bt_published b, ox_dlq := bt_dlq b,
               ox_metrics := bt_metrics b\<rparr>)
        in if raised then (failed Failed, after (ox_rows st))
           else if be_commit env \<noteq> Replied then
             (failed (be_commit env),
              after (if be_commit_applied env \<and> \<not> bt_broken b then bt_rows b else ox_rows st))
           else (Ok (bt_processed b), after (if bt_broken b then ox_rows st else bt_rows b)))"

definition cleanup_processed ::
  "outbox_config \<Rightarrow> uuid \<Rightarrow> db_reply \<Rightarrow> timestamp \<Rightarrow> int \<Rightarrow> 'n outbox \<Rightarrow> (infra_error + nat) \<times> 'n outbox" where
  "cleanup_processed cfg cid reply now retention_days st =
     (if retention_days < 0 then
        (Err (ProtocolConfigurationError (outbox_context (Some cfg) ''outbox_cleanup'' cid)
           (Some ''retention_days'') None), st)
      else if reply \<noteq> Replied then (Err (outbox_error cfg ''outbox_cleanup'' cid reply), st)
      else
        let old = (\<lambda>r. case ow_processed_at r of None \<Rightarrow> False
              | Some t \<Rightarrow> t < now - retention_days * 86400 * usec_per_sec)
        in (Ok (length (filter old (ox_rows st))), st\<lparr>ox_rows := filter (\<lambda>r. \<not> old r) (ox_rows st)\<rparr>))"

end
