(* ===== verification/OutboxProps.thy ===== *)
theory OutboxProps imports NotificationOutbox "HOL-Library.Multiset" begin

text \<open>
  Delivery by the outbox: no committed notification is lost, what a healthy processor publishes,
  how retries are bounded, and what an aborted transaction, an unreadable row and an unavailable dead
  letter queue do to a batch.
\<close>

section \<open>What one row does to the batch\<close>

text \<open>
  The rows with the processed row's identifier change by some \<open>f\<close>: identity and data stay, and either
  nothing is marked (the retry count growing by at most one), or the row is marked as processed and
  its notification has gone to a publisher.
\<close>

definition row_update :: "'n codec \<Rightarrow> outbox_config \<Rightarrow> outbox_row \<Rightarrow> 'n batch \<Rightarrow> (outbox_row \<Rightarrow> outbox_row) \<Rightarrow> bool" where
  "row_update C cfg row b f \<longleftrightarrow> (\<forall>r. ow_id (f r) = ow_id r \<and> ow_data (f r) = ow_data r \<and>
     ow_created_at (f r) = ow_created_at r \<and>
     (ow_processed_at (f r) = ow_processed_at r \<and>
        (ow_retry_count (f r) = ow_retry_count r \<or> ow_retry_count (f r) = ow_retry_count r + 1 \<and>
          (\<forall>n. cd_parse C (ow_data row) = Inr n \<longrightarrow> \<not> should_move_to_dlq cfg (ow_retry_count row))) \<or>
      ow_retry_count (f r) = ow_retry_count r \<and>
        (\<exists>n. cd_parse C (ow_data row) = Inr n \<and> (n \<in> set (bt_published b) \<or> n \<in> set (bt_dlq b)))))"

definition batch_effect :: "'n codec \<Rightarrow> outbox_config \<Rightarrow> outbox_row \<Rightarrow> 'n batch \<Rightarrow> 'n batch \<Rightarrow> bool" where
  "batch_effect C cfg row b b' \<longleftrightarrow> set (bt_published b) \<subseteq> set (bt_published b') \<and>
     set (bt_dlq b) \<subseteq> set (bt_dlq b') \<and>
     (\<exists>f. bt_rows b' = update_row (ow_id row) f (bt_rows b) \<and> row_update C cfg row b' f)"

lemma update_row_id [simp]: "update_row i (\<lambda>r. r) rows = rows"
  by (simp add: update_row_def map_idI)

lemma batch_effect_rows:
  assumes "bt_rows b' = update_row (ow_id row) f (bt_rows b)" "row_update C cfg row b' f"
    "set (bt_published b) \<subseteq> set (bt_published b')" "set (bt_dlq b) \<subseteq> set (bt_dlq b')"
  shows "batch_effect C cfg row b b'"
  using assms by (auto simp: batch_effect_def)

lemma batch_effect_none:
  assumes "bt_rows b' = bt_rows b"
    "set (bt_published b) \<subseteq> set (bt_published b')" "set (bt_dlq b) \<subseteq> set (bt_dlq b')"
  shows "batch_effect C cfg row b b'"
  by (rule batch_effect_rows [where f = "\<lambda>r. r"]) (use assms in \<open>auto simp: row_update_def\<close>)

lemma run_stmt_cases:
  obtains "run_stmt out f b = (StmtDone, b\<lparr>bt_rows := f (bt_rows b)\<rparr>)"
  | e b' where "run_stmt out f b = (e, b')" "e \<noteq> StmtDone" "bt_rows b' = bt_rows b"
      "bt_published b' = bt_published b" "bt_dlq b' = bt_dlq b"
  by (cases "bt_broken b"; cases out) (auto simp: run_stmt_def)

lemma record_row_failure_effect:
  assumes "record_row_failure sanitize env row err b = (x, b')"
    "\<And>n. cd_parse C (ow_data row) = Inr n \<Longrightarrow> \<not> should_move_to_dlq cfg (ow_retry_count row)"
  shows "batch_effect C cfg row b b'"
proof -
  let ?b1 = "b\<lparr>bt_metrics := (bt_metrics b)\<lparr>om_failed := om_failed (bt_metrics b) + 1\<rparr>\<rparr>"
  let ?f = "\<lambda>r. r\<lparr>ow_retry_count := ow_retry_count r + 1,
               ow_last_error := Some (take max_error_message_length (sanitize err))\<rparr>"
  show ?thesis
  proof (cases rule: run_stmt_cases [of "be_failure_update env (ow_id row)" "update_row (ow_id row) ?f" ?b1])
    case 1
    show ?thesis
      by (rule batch_effect_rows [where f = ?f])
        (use assms 1 in \<open>auto simp: record_row_failure_def row_update_def\<close>)
  next
    case (2 e b2)
    show ?thesis by (rule batch_effect_none) (use assms(1) 2 in \<open>auto simp: record_row_failure_def\<close>)
  qed
qed

lemma move_to_dlq_effect:
  assumes "move_to_dlq env now row n b = (x, b')" "cd_parse C (ow_data row) = Inr n"
  shows "batch_effect C cfg row b b'"
proof (cases "be_dlq_publish env (ow_id row)")
  case (Some e)
  show ?thesis by (rule batch_effect_none) (use assms Some in \<open>auto simp: move_to_dlq_def\<close>)
next
  case None
  let ?f = "\<lambda>r. r\<lparr>ow_processed_at := Some now, ow_last_error := Some (take max_error_message_length
      (''Moved to DLQ after '' @ string_of_int (ow_retry_count row) @ '' retries''))\<rparr>"
  show ?thesis
  proof (cases rule: run_stmt_cases [of "be_dlq_update env (ow_id row)" "update_row (ow_id row) ?f"
        "b\<lparr>bt_dlq := bt_dlq b @ [n]\<rparr>"])
    case 1
    show ?thesis
      by (rule batch_effect_rows [where f = ?f])
        (use assms None 1 in \<open>auto simp: move_to_dlq_def row_update_def Let_def\<close>)
  next
    case (2 e b2)
    show ?thesis by (rule batch_effect_none) (use assms None 2 in \<open>auto simp: move_to_dlq_def Let_def\<close>)
  qed
qed

lemma process_row_effect:
  assumes "process_row C sanitize cfg env now row b = (x, b')"
  shows "batch_effect C cfg row b b'"
proof (cases "cd_parse C (ow_data row)")
  case (Inl err)
  show ?thesis
    by (rule record_row_failure_effect) (use assms Inl in \<open>auto simp: process_row_def\<close>)
next
  case (Inr n)
  show ?thesis
  proof (cases "should_move_to_dlq cfg (ow_retry_count row)")
    case True
    obtain ok b1 where m: "move_to_dlq env now row n b = (ok, b1)" by (cases "move_to_dlq env now row n b")
    have "bt_rows b' = bt_rows b1 \<and> bt_published b' = bt_published b1 \<and> bt_dlq b' = bt_dlq b1"
      using assms Inr True m by (auto simp: process_row_def)
    with move_to_dlq_effect [OF m Inr, of cfg] show ?thesis by (simp add: batch_effect_def row_update_def)
  next
    case notdlq: False
    show ?thesis
    proof (cases "be_publish env (ow_id row)")
      case (Some err)
      show ?thesis
        by (rule record_row_failure_effect) (use assms Inr notdlq Some in \<open>auto simp: process_row_def\<close>)
    next
      case None
      let ?b1 = "b\<lparr>bt_published := bt_published b @ [n]\<rparr>"
      let ?f = "\<lambda>r. r\<lparr>ow_processed_at := Some now\<rparr>"
      show ?thesis
      proof (cases rule: run_stmt_cases [of "be_success_update env (ow_id row)" "update_row (ow_id row) ?f" ?b1])
        case 1
        show ?thesis
          by (rule batch_effect_rows [where f = ?f])
            (use assms Inr notdlq None 1 in \<open>auto simp: process_row_def row_update_def Let_def\<close>)
      next
        case (2 e b2)
        then have "record_row_failure sanitize env row (be_update_error env (ow_id row)) b2 = (x, b')"
          using assms Inr notdlq None by (simp add: process_row_def Let_def)
        from record_row_failure_effect [OF this, of C cfg] notdlq 2
        show ?thesis by (auto simp: batch_effect_def)
      qed
    qed
  qed
qed

section \<open>What a batch does to the table\<close>

definition row_evolves ::
  "'n codec \<Rightarrow> outbox_config \<Rightarrow> 'n set \<Rightarrow> outbox_row \<Rightarrow> outbox_row \<Rightarrow> bool" where
  "row_evolves C cfg sent r r' \<longleftrightarrow> ow_id r' = ow_id r \<and> ow_data r' = ow_data r \<and>
     ow_created_at r' = ow_created_at r \<and>
     (ow_retry_count r' = ow_retry_count r \<or> ow_retry_count r' = ow_retry_count r + 1 \<and>
        (\<forall>n. cd_parse C (ow_data r) = Inr n \<longrightarrow> \<not> should_move_to_dlq cfg (ow_retry_count r))) \<and>
     (ow_processed_at r' = ow_processed_at r \<or> (\<exists>n. cd_parse C (ow_data r) = Inr n \<and> n \<in> sent))"

abbreviation sent_in :: "'n batch \<Rightarrow> 'n set" where
  "sent_in b \<equiv> set (bt_published b) \<union> set (bt_dlq b)"

abbreviation sent_by :: "'n outbox \<Rightarrow> 'n set" where
  "sent_by st \<equiv> set (ox_published st) \<union> set (ox_dlq st)"

lemma row_evolves_refl [simp]: "row_evolves C cfg sent r r"
  by (simp add: row_evolves_def)

lemma row_evolves_mono: "row_evolves C cfg sent r r' \<Longrightarrow> sent \<subseteq> sent' \<Longrightarrow> row_evolves C cfg sent' r r'"
  by (auto simp: row_evolves_def)

definition batch_inv ::
  "'n codec \<Rightarrow> outbox_config \<Rightarrow> outbox_row list \<Rightarrow> outbox_row list \<Rightarrow> 'n batch \<Rightarrow> bool" where
  "batch_inv C cfg orig todo b \<longleftrightarrow>
     list_all2 (\<lambda>r r'. row_evolves C cfg (sent_in b) r r' \<and> (r \<in> set todo \<longrightarrow> r' = r)) orig (bt_rows b)"

lemma batch_inv_row:
  assumes inv: "batch_inv C cfg orig (row # todo) b" and eff: "batch_effect C cfg row b b'"
    and dis: "distinct (map ow_id orig)" and sub: "set (row # todo) \<subseteq> set orig" and new: "row \<notin> set todo"
  shows "batch_inv C cfg orig todo b'"
proof -
  obtain f where rows: "bt_rows b' = update_row (ow_id row) f (bt_rows b)" and f: "row_update C cfg row b' f"
    and mono: "sent_in b \<subseteq> sent_in b'"
    using eff by (auto simp: batch_effect_def)
  show ?thesis
    unfolding batch_inv_def rows update_row_def list.rel_map
  proof (rule list.rel_mono_strong [OF inv [unfolded batch_inv_def]])
    fix r r'
    assume r: "r \<in> set orig" and *: "row_evolves C cfg (sent_in b) r r' \<and> (r \<in> set (row # todo) \<longrightarrow> r' = r)"
    have id: "ow_id r' = ow_id r" using * by (simp add: row_evolves_def)
    show "row_evolves C cfg (sent_in b') r (if ow_id r' = ow_id row then f r' else r') \<and>
        (r \<in> set todo \<longrightarrow> (if ow_id r' = ow_id row then f r' else r') = r)"
    proof (cases "ow_id r = ow_id row")
      case True
      have "inj_on ow_id (set orig)" using dis unfolding distinct_map by blast
      then have eq: "r = row" using True r sub by (auto dest: inj_onD)
      then have "r' = row" using * by simp
      with eq new f show ?thesis by (auto simp: row_update_def row_evolves_def)
    next
      case False
      then show ?thesis using * id row_evolves_mono [OF _ mono] by auto
    qed
  qed
qed

lemma batch_inv_rows:
  assumes "process_rows C sanitize cfg env now todo b = (x, b')" "batch_inv C cfg orig todo b"
    "distinct (map ow_id orig)" "set todo \<subseteq> set orig" "distinct todo"
  shows "batch_inv C cfg orig [] b' \<and> set (bt_published b) \<subseteq> set (bt_published b') \<and> set (bt_dlq b) \<subseteq> set (bt_dlq b')"
  using assms(1,2,4,5)
proof (induction todo arbitrary: b)
  case Nil
  then show ?case by simp
next
  case (Cons row todo)
  obtain y b1 where p: "process_row C sanitize cfg env now row b = (y, b1)"
    by (cases "process_row C sanitize cfg env now row b")
  note eff = process_row_effect [OF p]
  have inv: "batch_inv C cfg orig todo b1"
    by (rule batch_inv_row [OF Cons.prems(2) eff assms(3)]) (use Cons.prems in auto)
  have mono: "set (bt_published b) \<subseteq> set (bt_published b1)" "set (bt_dlq b) \<subseteq> set (bt_dlq b1)"
    using eff by (auto simp: batch_effect_def)
  show ?case
  proof (cases y)
    case True
    then have "b' = b1" using Cons.prems(1) p by simp
    moreover have "batch_inv C cfg orig [] b1"
      using inv unfolding batch_inv_def by (rule list.rel_mono_strong) simp
    ultimately show ?thesis using mono by simp
  next
    case False
    then have "process_rows C sanitize cfg env now todo b1 = (x, b')" using Cons.prems(1) p by simp
    from Cons.IH [OF this inv] Cons.prems(3,4) mono show ?thesis by auto
  qed
qed

lemma set_pending_batch: "set (pending_batch cfg env st) \<subseteq> set (ox_rows st)"
  unfolding pending_batch_def using set_take_subset by fastforce

lemma distinct_pending_batch: "distinct (ox_rows st) \<Longrightarrow> distinct (pending_batch cfg env st)"
  by (simp add: pending_batch_def distinct_sort)

lemma process_pending_evolves:
  assumes p: "process_pending C sanitize cfg cid env now st = (res, st')"
    and dis: "distinct (map ow_id (ox_rows st))"
  shows "list_all2 (row_evolves C cfg (sent_by st')) (ox_rows st) (ox_rows st') \<and>
    set (ox_published st) \<subseteq> set (ox_published st') \<and> set (ox_dlq st) \<subseteq> set (ox_dlq st') \<and>
    ox_next_id st' = ox_next_id st"
proof -
  let ?b0 = "\<lparr>bt_rows = ox_rows st, bt_broken = False, bt_published = ox_published st,
      bt_dlq = ox_dlq st, bt_processed = 0, bt_metrics = ox_metrics st\<rparr>"
  obtain raised b where b: "process_rows C sanitize cfg env now (pending_batch cfg env st) ?b0 = (raised, b)"
    by (cases "process_rows C sanitize cfg env now (pending_batch cfg env st) ?b0")
  have refl: "list_all2 (row_evolves C cfg S) (ox_rows st) (ox_rows st)" for S
    by (simp add: list.rel_refl)
  have "distinct (ox_rows st)" using dis by (simp add: distinct_map)
  moreover have "batch_inv C cfg (ox_rows st) (pending_batch cfg env st) ?b0"
    by (simp add: batch_inv_def list.rel_refl)
  ultimately have inv: "batch_inv C cfg (ox_rows st) [] b"
    "set (ox_published st) \<subseteq> set (bt_published b)" "set (ox_dlq st) \<subseteq> set (bt_dlq b)"
    using batch_inv_rows [OF b _ dis set_pending_batch distinct_pending_batch] by auto
  then have ev: "list_all2 (row_evolves C cfg (sent_in b)) (ox_rows st) (bt_rows b)"
    by (simp add: batch_inv_def)
  show ?thesis
    using p b inv(2,3) ev refl by (auto simp: process_pending_def Let_def split: if_splits)
qed

section \<open>Reachable states\<close>

text \<open>A state of the outbox with the notifications whose storing transaction has committed.\<close>

type_synonym 'n outbox_run = "'n outbox \<times> 'n list"

datatype outbox_event = StoreCalled | BatchProcessed | CleanupRun

inductive outbox_step ::
  "'n codec \<Rightarrow> (string \<Rightarrow> string) \<Rightarrow> outbox_config \<Rightarrow> outbox_event \<Rightarrow> 'n outbox_run \<Rightarrow> 'n outbox_run \<Rightarrow> bool"
  for C sanitize cfg where
  store_called: "store_notification C cfg in_transaction reply commits now n st = (r, st') \<Longrightarrow>
     outbox_step C sanitize cfg StoreCalled (st, acc)
       (st', if r = Ok () \<and> (in_transaction \<longrightarrow> commits) then acc @ [n] else acc)"
| batch_processed: "process_pending C sanitize cfg cid env now st = (res, st') \<Longrightarrow>
     outbox_step C sanitize cfg BatchProcessed (st, acc) (st', acc)"
| cleanup_run: "cleanup_processed cfg cid reply now days st = (res, st') \<Longrightarrow>
     outbox_step C sanitize cfg CleanupRun (st, acc) (st', acc)"

definition outbox_ok :: "'n codec \<Rightarrow> outbox_config \<Rightarrow> 'n outbox_run \<Rightarrow> bool" where
  [inv_defs]: "outbox_ok C cfg R \<longleftrightarrow> distinct (map ow_id (ox_rows (fst R))) \<and>
     (\<forall>r \<in> set (ox_rows (fst R)). ow_id r < ox_next_id (fst R)) \<and>
     (\<forall>n \<in> set (snd R). n \<in> sent_by (fst R) \<or>
        (\<exists>r \<in> set (ox_rows (fst R)). ow_processed_at r = None \<and> ow_data r = cd_dump C n)) \<and>
     (\<forall>r \<in> set (ox_rows (fst R)). \<forall>m n. ob_has_dlq_publisher cfg \<longrightarrow> ob_max_retries cfg = Some m \<longrightarrow>
        cd_parse C (ow_data r) = Inr n \<longrightarrow> ow_retry_count r \<le> m)"

lemma outbox_ok_processed:
  assumes ok: "outbox_ok C cfg (st, acc)" and codec: "\<And>n. cd_parse C (cd_dump C n) = Inr n"
    and p: "process_pending C sanitize cfg cid env now st = (res, st')"
  shows "outbox_ok C cfg (st', acc)"
proof -
  have dis: "distinct (map ow_id (ox_rows st))" using ok by (simp add: outbox_ok_def)
  note e = process_pending_evolves [OF p dis]
  let ?E = "row_evolves C cfg (sent_by st')"
  have all2: "list_all2 ?E (ox_rows st) (ox_rows st')" using e by blast
  have "map ow_id (ox_rows st') = map ow_id (ox_rows st)"
    using all2 by (induction rule: list_all2_induct) (auto simp: row_evolves_def)
  then have 1: "distinct (map ow_id (ox_rows st'))" "ow_id ` set (ox_rows st') = ow_id ` set (ox_rows st)"
    using dis by (simp, metis list.set_map)
  have old_row: "\<exists>r \<in> set (ox_rows st). ?E r r'" if "r' \<in> set (ox_rows st')" for r'
    using all2 that by (metis in_set_conv_nth list_all2_conv_all_nth)
  have new_row: "\<exists>r' \<in> set (ox_rows st'). ?E r r'" if "r \<in> set (ox_rows st)" for r
    using all2 that by (metis in_set_conv_nth list_all2_conv_all_nth)
  have "ow_id r' < ox_next_id st'" if "r' \<in> set (ox_rows st')" for r'
    using old_row [OF that] ok e by (auto simp: outbox_ok_def row_evolves_def)
  moreover have "n \<in> sent_by st' \<or> (\<exists>r \<in> set (ox_rows st'). ow_processed_at r = None \<and> ow_data r = cd_dump C n)"
    if n: "n \<in> set acc" for n
  proof (cases "n \<in> sent_by st")
    case True
    then show ?thesis using e by auto
  next
    case False
    then obtain r where r: "r \<in> set (ox_rows st)" "ow_processed_at r = None" "ow_data r = cd_dump C n"
      using ok n by (auto simp: outbox_ok_def)
    then obtain r' where r': "r' \<in> set (ox_rows st')" "?E r r'" using new_row by blast
    then show ?thesis using r codec by (auto simp: row_evolves_def)
  qed
  moreover have "ow_retry_count r' \<le> m"
    if "r' \<in> set (ox_rows st')" "ob_has_dlq_publisher cfg" "ob_max_retries cfg = Some m"
      "cd_parse C (ow_data r') = Inr n" for r' m n
    using old_row [OF that(1)] ok that by (fastforce simp: outbox_ok_def row_evolves_def should_move_to_dlq_def)
  ultimately show ?thesis using 1 by (simp add: outbox_ok_def)
qed

lemma outbox_ok_step:
  assumes "outbox_step C sanitize cfg e R R'" "outbox_ok C cfg R" "\<And>n. cd_parse C (cd_dump C n) = Inr n"
    "mk_outbox_config fresh True True cfg0 = Ok cfg"
  shows "outbox_ok C cfg R'"
  using assms
proof (induction rule: outbox_step.induct)
  case (store_called in_transaction reply commits now n st r st' acc)
  have m: "0 \<le> m" if "ob_max_retries cfg = Some m" for m
    using store_called.prems(3) that by (auto simp: mk_outbox_config_def Let_def split: if_splits)
  have "st' = st \<and> r \<noteq> Ok () \<or> r = Ok () \<and> sent_by st' = sent_by st \<and> ox_next_id st' = ox_next_id st + 1 \<and>
     ox_rows st' = (if in_transaction \<longrightarrow> commits
        then ox_rows st @ [inserted_outbox_row C (ox_next_id st) now n] else ox_rows st)"
    using store_called.hyps by (auto simp: store_notification_def split: if_splits)
  then show ?case
  proof
    assume "st' = st \<and> r \<noteq> Ok ()"
    then show ?thesis using store_called.prems by simp
  next
    assume *: "r = Ok () \<and> sent_by st' = sent_by st \<and> ox_next_id st' = ox_next_id st + 1 \<and>
     ox_rows st' = (if in_transaction \<longrightarrow> commits
        then ox_rows st @ [inserted_outbox_row C (ox_next_id st) now n] else ox_rows st)"
    show ?thesis
    proof (cases "in_transaction \<longrightarrow> commits")
      case True
      have "ow_id x \<noteq> ox_next_id st" if "x \<in> set (ox_rows st)" for x
        using store_called.prems(1) that by (force simp: outbox_ok_def)
      then show ?thesis
        using * True store_called.prems(1) m
        by (fastforce simp: outbox_ok_def inserted_outbox_row_def)
    next
      case False
      then have "(if r = Ok () \<and> (in_transaction \<longrightarrow> commits) then acc @ [n] else acc) = acc" by simp
      moreover have "ox_rows st' = ox_rows st" using * False by simp
      ultimately show ?thesis using * store_called.prems(1) unfolding outbox_ok_def fst_conv snd_conv by force
    qed
  qed
next
  case (batch_processed cid env now st res st' acc)
  show ?case
    by (rule outbox_ok_processed [OF batch_processed.prems(1,2) batch_processed.hyps])
next
  case (cleanup_run cid reply now days st res st' acc)
  have "st' = st \<or> (\<exists>P. ox_rows st' = filter P (ox_rows st) \<and> (\<forall>r. ow_processed_at r = None \<longrightarrow> P r) \<and>
      ox_next_id st' = ox_next_id st \<and> sent_by st' = sent_by st)"
    using cleanup_run.hyps
    by (auto simp: cleanup_processed_def Let_def split: if_splits
        intro!: exI [of _ "\<lambda>r. \<not> (case ow_processed_at r of None \<Rightarrow> False
              | Some t \<Rightarrow> t < now - days * 86400 * usec_per_sec)"])
  then show ?case
  proof
    assume "st' = st"
    then show ?thesis using cleanup_run.prems(1) by simp
  next
    assume "\<exists>P. ox_rows st' = filter P (ox_rows st) \<and> (\<forall>r. ow_processed_at r = None \<longrightarrow> P r) \<and>
      ox_next_id st' = ox_next_id st \<and> sent_by st' = sent_by st"
    then obtain P where "ox_rows st' = filter P (ox_rows st)" "\<And>r. ow_processed_at r = None \<Longrightarrow> P r"
      "ox_next_id st' = ox_next_id st" "sent_by st' = sent_by st" by blast
    then show ?thesis using cleanup_run.prems(1) by (simp add: outbox_ok_def distinct_map_filter) blast
  qed
qed

definition fresh_outbox :: "'n outbox_run \<Rightarrow> bool" where
  "fresh_outbox R \<longleftrightarrow> R = (empty_outbox, [])"

lemma outbox_ok_fresh: "fresh_outbox R \<Longrightarrow> outbox_ok C cfg R"
  by (simp add: fresh_outbox_def outbox_ok_def empty_outbox_def)

text \<open>The invariant holds for a codec that reads back what it wrote and a configuration the constructor accepts.\<close>

definition codec_roundtrip :: "'n codec \<Rightarrow> bool" where
  "codec_roundtrip C \<longleftrightarrow> (\<forall>n. cd_parse C (cd_dump C n) = Inr n)"

definition valid_outbox :: "outbox_config \<Rightarrow> bool" where
  "valid_outbox cfg \<longleftrightarrow> mk_outbox_config 0 True True cfg = Ok cfg"

interpretation outbox_machine: invariant_machine fresh_outbox "outbox_step C sanitize cfg"
  "\<lambda>R. codec_roundtrip C \<and> valid_outbox cfg \<longrightarrow> outbox_ok C cfg R" for C sanitize cfg
  by unfold_locales
    (auto simp: outbox_ok_fresh codec_roundtrip_def valid_outbox_def intro: outbox_ok_step)

section \<open>Batches over a working database\<close>

definition calm_batch :: "batch_env \<Rightarrow> bool" where
  "calm_batch env \<longleftrightarrow> be_acquire env = Replied \<and> be_select env = Replied \<and> be_commit env = Replied \<and>
     (\<forall>i. \<not> be_locked env i)"

definition healthy_batch :: "batch_env \<Rightarrow> bool" where
  "healthy_batch env \<longleftrightarrow> calm_batch env \<and>
     (\<forall>i. be_publish env i = None \<and> be_success_update env i = StmtDone)"

text \<open>The rows that are read and published (not parked for the dead letter queue).\<close>

definition publishable :: "'n codec \<Rightarrow> outbox_config \<Rightarrow> outbox_row \<Rightarrow> bool" where
  "publishable C cfg r \<longleftrightarrow> (\<exists>n. cd_parse C (ow_data r) = Inr n) \<and> \<not> should_move_to_dlq cfg (ow_retry_count r)"

definition parsed :: "'n codec \<Rightarrow> outbox_row \<Rightarrow> 'n" where
  "parsed C r = projr (cd_parse C (ow_data r))"

definition mark_done :: "timestamp \<Rightarrow> outbox_row list \<Rightarrow> outbox_row list \<Rightarrow> outbox_row list" where
  "mark_done now xs rows =
     map (\<lambda>r. if ow_id r \<in> ow_id ` set xs then r\<lparr>ow_processed_at := Some now\<rparr> else r) rows"

lemma mark_done_Nil [simp]: "mark_done now [] rows = rows"
  by (simp add: mark_done_def map_idI)

lemma mark_done_Cons:
  "mark_done now xs (update_row (ow_id x) (\<lambda>r. r\<lparr>ow_processed_at := Some now\<rparr>) rows) = mark_done now (x # xs) rows"
  by (simp add: mark_done_def update_row_def)

lemma process_rows_append:
  "process_rows C sanitize cfg env now (xs @ ys) b =
     (case process_rows C sanitize cfg env now xs b of
        (True, b') \<Rightarrow> (True, b') | (False, b') \<Rightarrow> process_rows C sanitize cfg env now ys b')"
  by (induction xs arbitrary: b) (auto split: prod.splits bool.splits)

lemma healthy_rows:
  assumes "\<And>i. i \<in> ow_id ` set xs \<Longrightarrow> be_publish env i = None \<and> be_success_update env i = StmtDone"
    "\<And>r. r \<in> set xs \<Longrightarrow> publishable C cfg r" "\<not> bt_broken b"
  shows "\<exists>m. process_rows C sanitize cfg env now xs b = (False, b\<lparr>bt_rows := mark_done now xs (bt_rows b),
     bt_published := bt_published b @ map (parsed C) xs, bt_processed := bt_processed b + length xs, bt_metrics := m\<rparr>)"
  using assms
proof (induction xs arbitrary: b)
  case Nil
  show ?case by (rule exI [of _ "bt_metrics b"]) simp
next
  case (Cons x xs)
  obtain n where n: "cd_parse C (ow_data x) = Inr n" "\<not> should_move_to_dlq cfg (ow_retry_count x)"
    using Cons.prems(2) [of x] by (auto simp: publishable_def)
  let ?b = "b\<lparr>bt_rows := update_row (ow_id x) (\<lambda>r. r\<lparr>ow_processed_at := Some now\<rparr>) (bt_rows b),
     bt_published := bt_published b @ [n], bt_processed := bt_processed b + 1,
     bt_metrics := (bt_metrics b)\<lparr>om_processed := om_processed (bt_metrics b) + 1\<rparr>\<rparr>"
  have "process_row C sanitize cfg env now x b = (False, ?b)"
    using n Cons.prems(1) [of "ow_id x"] Cons.prems(3) by (simp add: process_row_def run_stmt_def)
  moreover obtain m where "process_rows C sanitize cfg env now xs ?b = (False, ?b\<lparr>bt_rows := mark_done now xs (bt_rows ?b),
     bt_published := bt_published ?b @ map (parsed C) xs, bt_processed := bt_processed ?b + length xs, bt_metrics := m\<rparr>)"
    using Cons.IH [of ?b] Cons.prems by auto
  ultimately show ?case by (intro exI [of _ m]) (simp add: mark_done_Cons parsed_def n)
qed

text \<open>Once the transaction is aborted the batch goes on publishing, and nothing is recorded.\<close>

lemma broken_rows:
  assumes "\<And>r. r \<in> set ys \<Longrightarrow> publishable C cfg r \<and> be_publish env (ow_id r) = None \<and>
     be_success_update env (ow_id r) \<noteq> OtherError \<and> be_failure_update env (ow_id r) \<noteq> OtherError" "bt_broken b"
  shows "\<exists>m. process_rows C sanitize cfg env now ys b =
     (False, b\<lparr>bt_published := bt_published b @ map (parsed C) ys, bt_metrics := m\<rparr>)"
  using assms
proof (induction ys arbitrary: b)
  case Nil
  show ?case by (rule exI [of _ "bt_metrics b"]) simp
next
  case (Cons x xs)
  obtain n where n: "cd_parse C (ow_data x) = Inr n" "\<not> should_move_to_dlq cfg (ow_retry_count x)"
    using Cons.prems(1) [of x] by (auto simp: publishable_def)
  let ?b = "b\<lparr>bt_published := bt_published b @ [n],
     bt_metrics := (bt_metrics b)\<lparr>om_failed := om_failed (bt_metrics b) + 1\<rparr>\<rparr>"
  have "process_row C sanitize cfg env now x b = (False, ?b)"
    using n Cons.prems(1) [of x] Cons.prems(2) by (simp add: process_row_def record_row_failure_def run_stmt_def)
  moreover obtain m where "process_rows C sanitize cfg env now xs ?b =
      (False, ?b\<lparr>bt_published := bt_published ?b @ map (parsed C) xs, bt_metrics := m\<rparr>)"
    using Cons.IH [of ?b] Cons.prems by auto
  ultimately show ?case by (intro exI [of _ m]) (simp add: parsed_def n)
qed

text \<open>Rows parked for an unreachable dead letter queue are passed over.\<close>

lemma parked_rows:
  assumes "\<And>r. r \<in> set ys \<Longrightarrow> (\<exists>n. cd_parse C (ow_data r) = Inr n) \<and>
     should_move_to_dlq cfg (ow_retry_count r) \<and> be_dlq_publish env (ow_id r) \<noteq> None"
  shows "\<exists>m. process_rows C sanitize cfg env now ys b = (False, b\<lparr>bt_metrics := m\<rparr>)"
  using assms
proof (induction ys arbitrary: b)
  case Nil
  show ?case by (rule exI [of _ "bt_metrics b"]) simp
next
  case (Cons x xs)
  obtain n e where n: "cd_parse C (ow_data x) = Inr n" "should_move_to_dlq cfg (ow_retry_count x)"
    "be_dlq_publish env (ow_id x) = Some e"
    using Cons.prems [of x] by auto
  let ?b = "b\<lparr>bt_metrics := (bt_metrics b)\<lparr>om_dlq_publish_failures := om_dlq_publish_failures (bt_metrics b) + 1\<rparr>\<rparr>"
  have "process_row C sanitize cfg env now x b = (False, ?b)"
    using n by (simp add: process_row_def move_to_dlq_def Let_def)
  moreover obtain m where "process_rows C sanitize cfg env now xs ?b = (False, ?b\<lparr>bt_metrics := m\<rparr>)"
    using Cons.IH [of ?b] Cons.prems by auto
  ultimately show ?case by (intro exI [of _ m]) simp
qed

section \<open>The background processor\<close>

text \<open>
  The loop calls \<open>process_pending\<close> until shutdown, whatever the calls return or raise; it only waits
  between two of them.
\<close>

fun processor_loop ::
  "'n codec \<Rightarrow> (string \<Rightarrow> string) \<Rightarrow> outbox_config \<Rightarrow> (uuid \<times> batch_env \<times> timestamp) list \<Rightarrow> 'n outbox \<Rightarrow> 'n outbox" where
  "processor_loop C sanitize cfg [] st = st"
| "processor_loop C sanitize cfg ((cid, env, now) # rounds) st =
     processor_loop C sanitize cfg rounds (snd (process_pending C sanitize cfg cid env now st))"

definition pending_rows :: "'n outbox \<Rightarrow> outbox_row list" where
  "pending_rows st = sort_key ow_created_at [r \<leftarrow> ox_rows st. ow_processed_at r = None]"

lemma calm_pending_batch:
  "calm_batch env \<Longrightarrow> pending_batch cfg env st = take (nat (ob_batch_size cfg)) (pending_rows st)"
  by (simp add: pending_batch_def pending_rows_def calm_batch_def)

lemma healthy_process_pending:
  assumes env: "healthy_batch env" and rows: "\<And>r. r \<in> set (pending_rows st) \<Longrightarrow> publishable C cfg r"
  defines "xs \<equiv> take (nat (ob_batch_size cfg)) (pending_rows st)"
  shows "\<exists>m. process_pending C sanitize cfg cid env now st = (Ok (length xs),
     st\<lparr>ox_rows := mark_done now xs (ox_rows st), ox_published := ox_published st @ map (parsed C) xs,
        ox_metrics := m\<rparr>)"
proof -
  have calm: "calm_batch env" using env by (simp add: healthy_batch_def)
  have sel: "pending_batch cfg env st = xs" by (simp add: xs_def calm_pending_batch [OF calm])
  let ?b0 = "\<lparr>bt_rows = ox_rows st, bt_broken = False, bt_published = ox_published st,
      bt_dlq = ox_dlq st, bt_processed = 0, bt_metrics = ox_metrics st\<rparr>"
  have "publishable C cfg r" if "r \<in> set xs" for r
    using that rows set_take_subset unfolding xs_def by fastforce
  then obtain m where "process_rows C sanitize cfg env now xs ?b0 = (False, ?b0\<lparr>bt_rows := mark_done now xs (bt_rows ?b0),
     bt_published := bt_published ?b0 @ map (parsed C) xs, bt_processed := bt_processed ?b0 + length xs, bt_metrics := m\<rparr>)"
    using healthy_rows [of xs env C cfg ?b0 sanitize now] env by (auto simp: healthy_batch_def)
  then show ?thesis
    using calm sel by (intro exI [of _ m]) (simp add: process_pending_def calm_batch_def)
qed

lemma filter_not_taken: "distinct ys \<Longrightarrow> filter (\<lambda>y. y \<notin> set (take k ys)) ys = drop k ys"
proof -
  assume dis: "distinct ys"
  have "set (take k ys) \<inter> set (drop k ys) = {}" by (rule set_take_disj_set_drop_if_distinct [OF dis]) simp
  then have "filter (\<lambda>y. y \<notin> set (take k ys)) (drop k ys) = drop k ys" by (intro filter_True) auto
  moreover have "filter (\<lambda>y. y \<notin> set (take k ys)) (take k ys) = []" by (intro filter_False) auto
  ultimately show ?thesis by (metis append_Nil append_take_drop_id filter_append)
qed

lemma pending_rows_subset: "set (pending_rows st) = {r \<in> set (ox_rows st). ow_processed_at r = None}"
  by (simp add: pending_rows_def)

lemma pending_after_done:
  assumes dis: "distinct (map ow_id (ox_rows st))"
    and st': "ox_rows st' = mark_done now (take k (pending_rows st)) (ox_rows st)"
  shows "pending_rows st' = drop k (pending_rows st)" "map ow_id (ox_rows st') = map ow_id (ox_rows st)"
proof -
  let ?xs = "take k (pending_rows st)" and ?ys = "pending_rows st"
  let ?f = "\<lambda>r. if ow_id r \<in> ow_id ` set ?xs then r\<lparr>ow_processed_at := Some now\<rparr> else r"
  have inj: "inj_on ow_id (set (ox_rows st))" using dis by (simp add: distinct_map)
  have sub: "set ?xs \<subseteq> set (ox_rows st)"
    using set_take_subset [of k ?ys] pending_rows_subset [of st] by auto
  have mem: "ow_id r \<in> ow_id ` set ?xs \<longleftrightarrow> r \<in> set ?xs" if "r \<in> set (ox_rows st)" for r
    using inj sub that by (auto dest: inj_onD)
  have "[r \<leftarrow> ox_rows st'. ow_processed_at r = None] = [r \<leftarrow> ox_rows st. ow_processed_at r = None \<and> r \<notin> set ?xs]"
  proof -
    have "[r \<leftarrow> ox_rows st'. ow_processed_at r = None] = map ?f [r \<leftarrow> ox_rows st. ow_processed_at (?f r) = None]"
      by (simp add: st' mark_done_def filter_map comp_def)
    also have "\<dots> = map ?f [r \<leftarrow> ox_rows st. ow_processed_at r = None \<and> r \<notin> set ?xs]"
      using mem by (intro arg_cong [where f = "map ?f"] filter_cong) auto
    also have "\<dots> = [r \<leftarrow> ox_rows st. ow_processed_at r = None \<and> r \<notin> set ?xs]"
      using mem by (intro map_idI) auto
    finally show ?thesis .
  qed
  then have "pending_rows st' = filter (\<lambda>r. r \<notin> set ?xs) ?ys"
    by (simp add: pending_rows_def filter_sort conj_commute)
  moreover have "distinct ?ys" using dis by (simp add: pending_rows_def distinct_sort distinct_map)
  ultimately show "pending_rows st' = drop k ?ys" by (simp add: filter_not_taken)
  show "map ow_id (ox_rows st') = map ow_id (ox_rows st)"
    by (simp add: st' mark_done_def)
qed

lemma processor_drains:
  assumes "\<And>cid env now. (cid, env, now) \<in> set rounds \<Longrightarrow> healthy_batch env"
    "\<And>r. r \<in> set (pending_rows st) \<Longrightarrow> publishable C cfg r" "distinct (map ow_id (ox_rows st))"
    "length (pending_rows st) \<le> length rounds * nat (ob_batch_size cfg)"
  shows "pending_rows (processor_loop C sanitize cfg rounds st) = [] \<and>
    ox_published (processor_loop C sanitize cfg rounds st) = ox_published st @ map (parsed C) (pending_rows st) \<and>
    ox_dlq (processor_loop C sanitize cfg rounds st) = ox_dlq st"
  using assms
proof (induction rounds arbitrary: st)
  case Nil
  then show ?case by simp
next
  case (Cons round rounds)
  obtain cid env now where round: "round = (cid, env, now)" by (cases round)
  let ?k = "nat (ob_batch_size cfg)"
  let ?xs = "take ?k (pending_rows st)"
  obtain m where p: "process_pending C sanitize cfg cid env now st = (Ok (length ?xs),
     st\<lparr>ox_rows := mark_done now ?xs (ox_rows st), ox_published := ox_published st @ map (parsed C) ?xs,
        ox_metrics := m\<rparr>)" (is "_ = (_, ?st)")
    using healthy_process_pending [of env st C cfg] Cons.prems(1,2) round by fastforce
  have after: "pending_rows ?st = drop ?k (pending_rows st)" "map ow_id (ox_rows ?st) = map ow_id (ox_rows st)"
    using pending_after_done [OF Cons.prems(3), of ?st now ?k] by simp_all
  have "pending_rows (processor_loop C sanitize cfg rounds ?st) = [] \<and>
    ox_published (processor_loop C sanitize cfg rounds ?st) = ox_published ?st @ map (parsed C) (pending_rows ?st) \<and>
    ox_dlq (processor_loop C sanitize cfg rounds ?st) = ox_dlq ?st"
  proof (rule Cons.IH)
    show "publishable C cfg r" if "r \<in> set (pending_rows ?st)" for r
      using that Cons.prems(2) in_set_dropD unfolding after by metis
  qed (use Cons.prems after in auto)
  moreover have "map (parsed C) ?xs @ map (parsed C) (drop ?k (pending_rows st)) = map (parsed C) (pending_rows st)"
    by (metis append_take_drop_id map_append)
  ultimately show ?case using p round after(1) by simp
qed

section \<open>A concrete outbox for the witnesses\<close>

definition demo_codec :: "string codec" where
  "demo_codec = \<lparr>cd_dump = (\<lambda>n. CHR ''j'' # n),
     cd_parse = (\<lambda>s. case s of [] \<Rightarrow> Inl ''empty'' | c # n \<Rightarrow> Inr n),
     cd_aggregate_type = (\<lambda>n. ''registration''), cd_aggregate_id = (\<lambda>n. 5), cd_correlation_id = (\<lambda>n. 9)\<rparr>"

definition demo_outbox_config :: outbox_config where
  "demo_outbox_config = \<lparr>ob_table_name = ''outbox'', ob_batch_size = 1, ob_poll_interval = 1,
     ob_query_timeout = 30, ob_strict_transaction_mode = True, ob_shutdown_timeout = 10,
     ob_max_retries = Some 3, ob_has_dlq_publisher = True\<rparr>"

definition demo_env :: batch_env where
  "demo_env = \<lparr>be_acquire = Replied, be_select = Replied, be_locked = (\<lambda>i. False), be_publish = (\<lambda>i. None),
     be_dlq_publish = (\<lambda>i. Some ''down''), be_success_update = (\<lambda>i. StmtDone), be_failure_update = (\<lambda>i. StmtDone),
     be_dlq_update = (\<lambda>i. StmtDone), be_update_error = (\<lambda>i. []), be_commit = Replied, be_commit_applied = True\<rparr>"

definition demo_row :: "int \<Rightarrow> string \<Rightarrow> int \<Rightarrow> outbox_row" where
  "demo_row i d k = \<lparr>ow_id = i, ow_data = d, ow_aggregate_type = ''registration'', ow_aggregate_id = 5,
     ow_created_at = i, ow_processed_at = None, ow_retry_count = k, ow_last_error = None\<rparr>"

text \<open>Two notifications stored, in two transactions.\<close>

definition demo_outbox :: "string outbox" where
  "demo_outbox = \<lparr>ox_rows = [demo_row 1 ''ja'' 0, demo_row 2 ''jb'' 0], ox_next_id = 3, ox_published = [], ox_dlq = [],
     ox_metrics = \<lparr>om_stored = 2, om_processed = 0, om_failed = 0, om_sent_to_dlq = 0,
       om_dlq_publish_failures = 0\<rparr>\<rparr>"

lemma demo_codec_ok: "codec_roundtrip demo_codec"
  by (simp add: codec_roundtrip_def demo_codec_def)

lemma demo_config_ok: "valid_outbox demo_outbox_config"
  by (simp add: valid_outbox_def mk_outbox_config_def demo_outbox_config_def)

lemma demo_env_ok: "healthy_batch demo_env"
  by (simp add: healthy_batch_def calm_batch_def demo_env_def)

lemma reach_stored:
  assumes "reach fresh_outbox (outbox_step C s cfg) (st, acc)"
    "store_notification C cfg True Replied True now n st = (Ok (), st')"
  shows "reach fresh_outbox (outbox_step C s cfg) (st', acc @ [n])"
proof (rule reach_step [OF assms(1)])
  show "outbox_step C s cfg StoreCalled (st, acc) (st', acc @ [n])"
    using store_called [of C cfg True Replied True now n st "Ok ()" st' s acc] assms(2) by simp
qed

lemma demo_outbox_reachable:
  "reach fresh_outbox (outbox_step demo_codec s demo_outbox_config) (demo_outbox, [''a'', ''b''])"
proof -
  let ?s = "\<lambda>now n. store_notification demo_codec demo_outbox_config True Replied True now n"
  let ?one = "snd (?s 1 ''a'' empty_outbox)"
  note ev = store_notification_def inserted_outbox_row_def empty_outbox_def demo_outbox_def demo_codec_def demo_row_def
  have 1: "?s 1 ''a'' empty_outbox = (Ok (), ?one)" by (simp add: store_notification_def)
  have 2: "?s 2 ''b'' ?one = (Ok (), demo_outbox)" by (simp add: ev)
  have "reach fresh_outbox (outbox_step demo_codec s demo_outbox_config) (empty_outbox, [])"
    by (rule reach_init) (simp add: fresh_outbox_def)
  from reach_stored [OF reach_stored [OF this 1] 2] show ?thesis by simp
qed

lemma demo_pending: "pending_rows demo_outbox = [demo_row 1 ''ja'' 0, demo_row 2 ''jb'' 0]"
  by (simp add: pending_rows_def demo_outbox_def demo_row_def)

lemma demo_publishable: "r \<in> set (pending_rows demo_outbox) \<Longrightarrow> publishable demo_codec demo_outbox_config r"
  by (auto simp: demo_pending publishable_def demo_codec_def demo_row_def demo_outbox_config_def should_move_to_dlq_def)

section \<open>Properties\<close>

text \<open>
  C13: Whatever the database, the two publishers and the concurrent processors do, a notification whose
  storing transaction has committed is never lost: it has been given to the publisher or to the dead
  letter queue, or its row is still in the table, pending.
\<close>
theorem no_notification_lost:
  "codec_roundtrip C \<Longrightarrow> valid_outbox cfg \<Longrightarrow> reach fresh_outbox (outbox_step C sanitize cfg) (st, acc) \<Longrightarrow>
   n \<in> set acc \<Longrightarrow>
   n \<in> set (ox_published st) \<or> n \<in> set (ox_dlq st) \<or>
   (\<exists>r \<in> set (ox_rows st). ow_processed_at r = None \<and> ow_data r = cd_dump C n)"
  using outbox_machine.reach_inv [of C sanitize cfg "(st, acc)"] by (auto simp: outbox_ok_def)

theorem no_notification_lost_witness:
  "''b'' \<in> set (ox_published demo_outbox) \<or> ''b'' \<in> set (ox_dlq demo_outbox) \<or>
   (\<exists>r \<in> set (ox_rows demo_outbox). ow_processed_at r = None \<and> ow_data r = ''jb'')"
  using no_notification_lost [OF demo_codec_ok demo_config_ok demo_outbox_reachable [of "\<lambda>x. x"], of "''b''"]
  by (simp add: demo_codec_def)



text \<open>
  C33: When the update that marks a row fails, the transaction is aborted, but the batch goes on: it publishes
  every remaining row, reports the rows before the failure as processed and raises nothing, while
  the table is rolled back to what it was, so the whole batch is published again.
\<close>
theorem aborted_batch_republishes:
  assumes "calm_batch env" "pending_batch cfg env st = xs @ r # ys"
    "\<And>x. x \<in> set (xs @ r # ys) \<Longrightarrow> publishable C cfg x \<and> be_publish env (ow_id x) = None \<and>
       be_success_update env (ow_id x) \<noteq> OtherError \<and> be_failure_update env (ow_id x) \<noteq> OtherError"
    "\<And>x. x \<in> set xs \<Longrightarrow> be_success_update env (ow_id x) = StmtDone"
    "be_success_update env (ow_id r) = PgError"
  shows "\<exists>st'. process_pending C sanitize cfg cid env now st = (Ok (length xs), st') \<and>
    ox_rows st' = ox_rows st \<and> ox_published st' = ox_published st @ map (parsed C) (xs @ r # ys)"
proof -
  let ?b0 = "\<lparr>bt_rows = ox_rows st, bt_broken = False, bt_published = ox_published st,
      bt_dlq = ox_dlq st, bt_processed = 0, bt_metrics = ox_metrics st\<rparr>"
  obtain b1 where b1: "process_rows C sanitize cfg env now xs ?b0 = (False, b1)"
    "bt_published b1 = ox_published st @ map (parsed C) xs" "bt_processed b1 = length xs" "\<not> bt_broken b1"
    using healthy_rows [of xs env C cfg ?b0 sanitize now] assms(3,4) by fastforce
  obtain n where n: "cd_parse C (ow_data r) = Inr n" "\<not> should_move_to_dlq cfg (ow_retry_count r)"
    using assms(3) [of r] by (auto simp: publishable_def)
  define b2 where "b2 = b1\<lparr>bt_published := bt_published b1 @ [n], bt_broken := True,
      bt_metrics := (bt_metrics b1)\<lparr>om_failed := om_failed (bt_metrics b1) + 1\<rparr>\<rparr>"
  have "process_row C sanitize cfg env now r b1 = (False, b2)"
    using n assms(3) [of r] assms(5) b1(4)
    by (simp add: process_row_def record_row_failure_def run_stmt_def b2_def)
  moreover obtain m where "process_rows C sanitize cfg env now ys b2 =
      (False, b2\<lparr>bt_published := bt_published b2 @ map (parsed C) ys, bt_metrics := m\<rparr>)"
    using broken_rows [of ys C cfg env b2 sanitize now] assms(3) by (auto simp: b2_def)
  ultimately have "process_rows C sanitize cfg env now (xs @ r # ys) ?b0 =
      (False, b2\<lparr>bt_published := bt_published b2 @ map (parsed C) ys, bt_metrics := m\<rparr>)"
    using b1(1) by (simp add: process_rows_append)
  then show ?thesis
    using assms(1,2) b1 n
    by (simp add: process_pending_def calm_batch_def b2_def parsed_def)
qed

theorem aborted_batch_republishes_witness:
  "\<exists>st'. process_pending demo_codec (\<lambda>x. x) (demo_outbox_config\<lparr>ob_batch_size := 2\<rparr>) 1
     (demo_env\<lparr>be_success_update := (\<lambda>i. if i = 2 then PgError else StmtDone)\<rparr>) 10 demo_outbox = (Ok 1, st') \<and>
     ox_rows st' = ox_rows demo_outbox \<and> ox_published st' = [''a'', ''b'']"
proof -
  let ?cfg = "demo_outbox_config\<lparr>ob_batch_size := 2\<rparr>"
  let ?env = "demo_env\<lparr>be_success_update := (\<lambda>i. if i = 2 then PgError else StmtDone)\<rparr>"
  have calm: "calm_batch ?env" by (simp add: calm_batch_def demo_env_def)
  then have "pending_batch ?cfg ?env demo_outbox = [demo_row 1 ''ja'' 0] @ demo_row 2 ''jb'' 0 # []"
    by (simp add: calm_pending_batch demo_pending demo_outbox_config_def)
  then have "\<exists>st'. process_pending demo_codec (\<lambda>x. x) ?cfg 1 ?env 10 demo_outbox = (Ok (length [demo_row 1 ''ja'' 0]), st') \<and>
      ox_rows st' = ox_rows demo_outbox \<and>
      ox_published st' = ox_published demo_outbox @ map (parsed demo_codec) ([demo_row 1 ''ja'' 0] @ demo_row 2 ''jb'' 0 # [])"
    by (rule aborted_batch_republishes [OF calm])
      (auto simp: publishable_def demo_codec_def demo_row_def demo_outbox_config_def demo_env_def should_move_to_dlq_def)
  moreover have "ox_published demo_outbox @ map (parsed demo_codec) ([demo_row 1 ''ja'' 0] @ demo_row 2 ''jb'' 0 # []) =
      [''a'', ''b'']" "length [demo_row 1 ''ja'' 0] = 1"
    by (simp_all add: parsed_def demo_codec_def demo_outbox_def demo_row_def)
  ultimately show ?thesis by (simp only:)
qed

text \<open>
  While the dead letter queue is unreachable, rows that have used up their retries block the outbox:
  once they fill a batch, no number of rounds publishes anything or changes the table, whatever is
  pending behind them and however well the publisher works.
\<close>
lemma dlq_outage_starves:
  assumes "\<And>cid env now. (cid, env, now) \<in> set rounds \<Longrightarrow> calm_batch env \<and> (\<forall>i. be_dlq_publish env i \<noteq> None)"
    "\<And>r. r \<in> set (take (nat (ob_batch_size cfg)) (pending_rows st)) \<Longrightarrow>
       (\<exists>n. cd_parse C (ow_data r) = Inr n) \<and> should_move_to_dlq cfg (ow_retry_count r)"
  shows "ox_rows (processor_loop C sanitize cfg rounds st) = ox_rows st \<and>
    ox_published (processor_loop C sanitize cfg rounds st) = ox_published st \<and>
    ox_dlq (processor_loop C sanitize cfg rounds st) = ox_dlq st"
  using assms
proof (induction rounds arbitrary: st)
  case Nil
  then show ?case by simp
next
  case (Cons round rounds)
  obtain cid env now where round: "round = (cid, env, now)" by (cases round)
  have env: "calm_batch env" "\<And>i. be_dlq_publish env i \<noteq> None"
    using Cons.prems(1) [of cid env now] by (simp_all add: round)
  let ?b0 = "\<lparr>bt_rows = ox_rows st, bt_broken = False, bt_published = ox_published st,
      bt_dlq = ox_dlq st, bt_processed = 0, bt_metrics = ox_metrics st\<rparr>"
  obtain m where "process_rows C sanitize cfg env now (pending_batch cfg env st) ?b0 = (False, ?b0\<lparr>bt_metrics := m\<rparr>)"
    using parked_rows [of "pending_batch cfg env st" C cfg env sanitize now ?b0] Cons.prems(2) env
    by (auto simp: calm_pending_batch)
  then have p: "snd (process_pending C sanitize cfg cid env now st) = st\<lparr>ox_metrics := m\<rparr>"
    using env(1) by (simp add: process_pending_def calm_batch_def)
  have "pending_rows (st\<lparr>ox_metrics := m\<rparr>) = pending_rows st" by (simp add: pending_rows_def)
  then have "ox_rows (processor_loop C sanitize cfg rounds (st\<lparr>ox_metrics := m\<rparr>)) = ox_rows (st\<lparr>ox_metrics := m\<rparr>) \<and>
    ox_published (processor_loop C sanitize cfg rounds (st\<lparr>ox_metrics := m\<rparr>)) = ox_published (st\<lparr>ox_metrics := m\<rparr>) \<and>
    ox_dlq (processor_loop C sanitize cfg rounds (st\<lparr>ox_metrics := m\<rparr>)) = ox_dlq (st\<lparr>ox_metrics := m\<rparr>)"
    using Cons.prems(2) by (intro Cons.IH) (metis Cons.prems(1) list.set_intros(2), simp)
  then show ?case using p round by simp
qed

text \<open>
  With a dead letter queue configured, the retry count of every row that can be read stays within
  \<open>max_retries\<close>.
\<close>
lemma retry_count_bounded:
  "codec_roundtrip C \<Longrightarrow> valid_outbox cfg \<Longrightarrow> reach fresh_outbox (outbox_step C sanitize cfg) (st, acc) \<Longrightarrow>
   ob_has_dlq_publisher cfg \<Longrightarrow> ob_max_retries cfg = Some m \<Longrightarrow> r \<in> set (ox_rows st) \<Longrightarrow>
   cd_parse C (ow_data r) = Inr n \<Longrightarrow> ow_retry_count r \<le> m"
  using outbox_machine.reach_inv [of C sanitize cfg "(st, acc)"] by (auto simp: outbox_ok_def)

text \<open>
  A row that cannot be read never reaches the dead letter queue: parsing comes before the retry limit is
  looked at, so every round fails on it again and its retry count grows past any \<open>max_retries\<close>.
\<close>
lemma unreadable_row_never_parked:
  assumes "valid_outbox cfg" "ox_rows st = [r]" "ow_processed_at r = None" "cd_parse C (ow_data r) = Inl err"
    "\<And>cid env now. (cid, env, now) \<in> set rounds \<Longrightarrow> calm_batch env \<and> be_failure_update env (ow_id r) = StmtDone"
  shows "\<exists>r'. ox_rows (processor_loop C sanitize cfg rounds st) = [r'] \<and> ow_processed_at r' = None \<and>
    ow_retry_count r' = ow_retry_count r + int (length rounds) \<and>
    ox_dlq (processor_loop C sanitize cfg rounds st) = ox_dlq st"
  using assms
proof (induction rounds arbitrary: st r)
  case Nil
  then show ?case by simp
next
  case (Cons round rounds)
  obtain cid env now where round: "round = (cid, env, now)" by (cases round)
  have env: "calm_batch env" "be_failure_update env (ow_id r) = StmtDone"
    using Cons.prems(5) [of cid env now] by (simp_all add: round)
  have "1 \<le> nat (ob_batch_size cfg)"
    using Cons.prems(1) by (auto simp: valid_outbox_def mk_outbox_config_def Let_def split: if_splits)
  then have sel: "pending_batch cfg env st = [r]"
    using env(1) Cons.prems(2,3) by (simp add: calm_pending_batch pending_rows_def)
  let ?r = "r\<lparr>ow_retry_count := ow_retry_count r + 1,
      ow_last_error := Some (take max_error_message_length (sanitize err))\<rparr>"
  obtain m where p: "snd (process_pending C sanitize cfg cid env now st) = st\<lparr>ox_rows := [?r], ox_metrics := m\<rparr>"
    using env sel Cons.prems(2,4)
    by (simp add: process_pending_def calm_batch_def process_row_def record_row_failure_def run_stmt_def
        update_row_def Let_def)
  obtain r' where "ox_rows (processor_loop C sanitize cfg rounds (st\<lparr>ox_rows := [?r], ox_metrics := m\<rparr>)) = [r']"
    "ow_processed_at r' = None" "ow_retry_count r' = ow_retry_count ?r + int (length rounds)"
    "ox_dlq (processor_loop C sanitize cfg rounds (st\<lparr>ox_rows := [?r], ox_metrics := m\<rparr>)) = ox_dlq st"
    using Cons.IH [of "st\<lparr>ox_rows := [?r], ox_metrics := m\<rparr>" ?r] Cons.prems by auto
  then show ?case using p round by simp
qed

end
