(* ===== verification/OutboxProcessor.thy ===== *)
theory OutboxProcessor imports OutboxProps begin

text \<open>
  The lifecycle of the background processor of \<^verbatim>\<open>runtime/transition_notification_outbox.py\<close>: \<open>start\<close>,
  the two halves of \<open>stop\<close> around its wait for the task, and the loop that watches the shutdown event.
  Tasks are numbered in the order of their creation; which of them are not done is part of the state.
\<close>

section \<open>Starting and stopping\<close>

record processor =
  pr_running :: bool
  pr_shutdown :: bool
  pr_task :: "nat option"
  pr_alive :: "nat list"
  pr_next :: nat

definition new_processor :: processor where
  "new_processor = \<lparr>pr_running = False, pr_shutdown = False, pr_task = None, pr_alive = [], pr_next = 0\<rparr>"

definition start_processor :: "processor \<Rightarrow> processor" where
  "start_processor p =
     (if pr_running p \<or> (case pr_task p of None \<Rightarrow> False | Some i \<Rightarrow> i \<in> set (pr_alive p)) then p
      else p\<lparr>pr_shutdown := False, pr_running := True, pr_task := Some (pr_next p),
        pr_alive := pr_next p # pr_alive p, pr_next := pr_next p + 1\<rparr>)"

text \<open>The first half returns the task to wait for, \<open>None\<close> when the processor does not run.\<close>

definition stop_begin :: "processor \<Rightarrow> nat option option \<times> processor" where
  "stop_begin p =
     (if \<not> pr_running p then (None, p)
      else (Some (pr_task p), p\<lparr>pr_running := False, pr_shutdown := True\<rparr>))"

definition stop_end :: "nat option \<Rightarrow> processor \<Rightarrow> processor" where
  "stop_end task p = (if pr_task p = task then p\<lparr>pr_task := None\<rparr> else p)"

definition task_done :: "nat \<Rightarrow> processor \<Rightarrow> processor" where
  "task_done i p = p\<lparr>pr_alive := removeAll i (pr_alive p)\<rparr>"

section \<open>The loop\<close>

text \<open>
  One round: the shutdown event when the loop reads it, the batch, and whether the event is set during
  the wait that follows an empty batch or an error.
\<close>

record round =
  rd_shutdown :: bool
  rd_correlation_id :: uuid
  rd_batch :: batch_env
  rd_now :: timestamp
  rd_woken :: bool

fun run_processor ::
  "'n codec \<Rightarrow> (string \<Rightarrow> string) \<Rightarrow> outbox_config \<Rightarrow> round list \<Rightarrow> 'n outbox \<Rightarrow> 'n outbox" where
  "run_processor C sanitize cfg [] st = st"
| "run_processor C sanitize cfg (rd # rds) st =
     (if rd_shutdown rd then st
      else case process_pending C sanitize cfg (rd_correlation_id rd) (rd_batch rd) (rd_now rd) st of
        (Ok n, st') \<Rightarrow> if n = 0 \<and> rd_woken rd then st' else run_processor C sanitize cfg rds st'
      | (Err _, st') \<Rightarrow> if rd_woken rd then st' else run_processor C sanitize cfg rds st')"

text \<open>Without a shutdown it is the plain loop over the batches.\<close>

lemma run_processor_no_shutdown:
  "(\<And>rd. rd \<in> set rds \<Longrightarrow> \<not> rd_shutdown rd \<and> \<not> rd_woken rd) \<Longrightarrow>
   run_processor C sanitize cfg rds st =
     processor_loop C sanitize cfg (map (\<lambda>rd. (rd_correlation_id rd, rd_batch rd, rd_now rd)) rds) st"
  by (induction rds arbitrary: st) (auto split: prod.split sum.split)

section \<open>Interleavings\<close>

text \<open>A processor with the \<open>stop\<close> calls that wait, each for the task it saw.\<close>

type_synonym lifecycle = "processor \<times> nat option list"

datatype lifecycle_event = Start | StopBegin | TaskDone nat | StopEnd

inductive lifecycle_step :: "lifecycle_event \<Rightarrow> lifecycle \<Rightarrow> lifecycle \<Rightarrow> bool" where
  start_called: "lifecycle_step Start (p, ws) (start_processor p, ws)"
| stop_called: "stop_begin p = (w, p') \<Longrightarrow>
     lifecycle_step StopBegin (p, ws) (p', case w of None \<Rightarrow> ws | Some task \<Rightarrow> ws @ [task])"
| task_ended: "i \<in> set (pr_alive p) \<Longrightarrow> lifecycle_step (TaskDone i) (p, ws) (task_done i p, ws)"
| stop_returns: "task \<in> set ws \<Longrightarrow> (case task of None \<Rightarrow> True | Some i \<Rightarrow> i \<notin> set (pr_alive p)) \<Longrightarrow>
     lifecycle_step StopEnd (p, ws) (stop_end task p, remove1 task ws)"

inductive_cases lifecycle_stepE: "lifecycle_step e (p, ws) R"

definition first_lifecycle :: "lifecycle \<Rightarrow> bool" where
  "first_lifecycle R \<longleftrightarrow> R = (new_processor, [])"

text \<open>
  The only task that can be alive is the one the outbox refers to, a running processor has its task and a
  clear shutdown event, and a task that is still alive while the processor does not run has been told to stop.
\<close>

definition lifecycle_ok :: "lifecycle \<Rightarrow> bool" where
  [inv_defs]: "lifecycle_ok R \<longleftrightarrow> distinct (pr_alive (fst R)) \<and> (\<forall>i \<in> set (pr_alive (fst R)). pr_task (fst R) = Some i \<and> i < pr_next (fst R)) \<and>
     (pr_running (fst R) \<longrightarrow> pr_task (fst R) \<noteq> None \<and> \<not> pr_shutdown (fst R)) \<and>
     (\<not> pr_running (fst R) \<and> pr_alive (fst R) \<noteq> [] \<longrightarrow> pr_shutdown (fst R)) \<and>
     (\<forall>i. Some i \<in> set (snd R) \<longrightarrow> i < pr_next (fst R)) \<and>
     (\<forall>i. pr_running (fst R) \<longrightarrow> pr_task (fst R) = Some i \<longrightarrow> Some i \<notin> set (snd R)) \<and> None \<notin> set (snd R) \<and>
     (\<forall>i. pr_task (fst R) = Some i \<longrightarrow> i < pr_next (fst R))"

lemma lifecycle_ok_fewer: "lifecycle_ok (p, ws) \<Longrightarrow> set vs \<subseteq> set ws \<Longrightarrow> lifecycle_ok (p, vs)"
  by (auto simp: lifecycle_ok_def)

lemma removeAll_only: "\<forall>j \<in> set xs. j = i \<Longrightarrow> removeAll i xs = []"
  by (induction xs) auto

lemma lifecycle_ok_step: "lifecycle_step e R R' \<Longrightarrow> lifecycle_ok R \<Longrightarrow> lifecycle_ok R'"
proof (induction rule: lifecycle_step.induct)
  case (start_called p ws)
  then show ?case by (auto simp: lifecycle_ok_def start_processor_def split: option.splits)
next
  case (stop_called p w p' ws)
  then show ?case by (auto simp: lifecycle_ok_def stop_begin_def split: if_splits)
next
  case (task_ended i p ws)
  have "\<forall>j \<in> set (pr_alive p). pr_task p = Some j"
    using task_ended.prems unfolding lifecycle_ok_def fst_conv by blast
  then have "\<forall>j \<in> set (pr_alive p). j = i" using task_ended.hyps by (metis option.inject)
  then have "removeAll i (pr_alive p) = []" by (rule removeAll_only)
  then have "pr_alive (task_done i p) = []" unfolding task_done_def by simp
  then show ?case using task_ended.prems unfolding lifecycle_ok_def by (simp add: task_done_def)
next
  case (stop_returns task ws p)
  have "None \<notin> set ws" using stop_returns.prems unfolding lifecycle_ok_def by simp
  then obtain i where i: "task = Some i" "i \<notin> set (pr_alive p)"
    using stop_returns.hyps by (cases task) simp_all
  have ws: "set (remove1 task ws) \<subseteq> set ws" by (rule set_remove1_subset)
  have waited: "Some i \<in> set ws" using stop_returns.hyps(1) i by simp
  show ?case
  proof (cases "pr_task p = Some i")
    case True
    then have "\<not> pr_running p" using stop_returns.prems waited by (auto simp: lifecycle_ok_def)
    moreover have "pr_alive p = []"
      using stop_returns.prems i True by (cases "pr_alive p") (auto simp: lifecycle_ok_def)
    ultimately have "lifecycle_ok (p\<lparr>pr_task := None\<rparr>, ws)"
      using stop_returns.prems by (simp add: lifecycle_ok_def)
    then show ?thesis using lifecycle_ok_fewer [OF _ ws] i True by (simp add: stop_end_def)
  next
    case False
    then show ?thesis using lifecycle_ok_fewer [OF stop_returns.prems ws] i by (simp add: stop_end_def)
  qed
qed

interpretation processor_machine: invariant_machine first_lifecycle lifecycle_step lifecycle_ok
  by unfold_locales (simp add: first_lifecycle_def lifecycle_ok_def new_processor_def, rule lifecycle_ok_step)

section \<open>Properties\<close>

text \<open>
  C37: However \<open>start()\<close> and \<open>stop()\<close> calls overlap, and whenever the task ends, at most one processor task
  exists at a time: it is the one the outbox holds, it sees a clear shutdown event while the outbox
  counts as running, and a set one when it outlives that.
\<close>
theorem single_processor:
  "reach first_lifecycle lifecycle_step (p, ws) \<Longrightarrow> length (pr_alive p) \<le> 1 \<and>
   (\<forall>i \<in> set (pr_alive p). pr_task p = Some i \<and> pr_shutdown p = (\<not> pr_running p))"
  using processor_machine.reach_inv [of "(p, ws)"]
  by (cases "pr_alive p"; cases "tl (pr_alive p)") (auto simp: lifecycle_ok_def)

text \<open>Started, stopped, started again while the first task still runs: the second start has no effect.\<close>

theorem single_processor_witness:
  "\<exists>p ws. reach first_lifecycle lifecycle_step (p, ws) \<and> pr_alive p = [0] \<and> pr_task p = Some 0 \<and> pr_shutdown p"
proof -
  let ?p1 = "start_processor new_processor" and ?p2 = "snd (stop_begin (start_processor new_processor))"
  have "reach first_lifecycle lifecycle_step (new_processor, [])"
    by (rule reach_init) (simp add: first_lifecycle_def)
  then have "reach first_lifecycle lifecycle_step (?p1, [])" by (rule reach_step) (rule start_called)
  then have "reach first_lifecycle lifecycle_step (?p2, [Some 0])"
    by (rule reach_step) (rule stop_called [where w = "Some (Some 0)" and ws = "[]", simplified],
        simp add: stop_begin_def start_processor_def new_processor_def)
  then have r: "reach first_lifecycle lifecycle_step (start_processor ?p2, [Some 0])"
    by (rule reach_step) (rule start_called)
  have p: "pr_alive (start_processor ?p2) = [0]" "\<not> pr_running (start_processor ?p2)"
    by (simp_all add: start_processor_def stop_begin_def new_processor_def)
  have "pr_task (start_processor ?p2) = Some 0 \<and> pr_shutdown (start_processor ?p2)"
    using single_processor [OF r] p by simp
  then show ?thesis using r p(1) by blast
qed

end
