(* ===== verification/RuntimeScheduler.thy ===== *)
theory RuntimeScheduler imports EnvParsing Interfaces begin

text \<open>
  The tick scheduler of \<^verbatim>\<open>runtime/runtime_scheduler.py\<close>: its lifecycle, the emission of one tick through
  the circuit breaker, the tick loop, and the persistence of the sequence number in Valkey. The event
  bus, the Valkey server and the clocks are arguments: how each call turns out and what it returns.
  The operations are those of one coroutine at a time; every lock is released between two of them.
\<close>

section \<open>Configuration, ticks and state\<close>

datatype scheduler_status = STOPPED | STARTING | RUNNING | STOPPING | SCHED_ERROR

definition sched_is_active :: "scheduler_status \<Rightarrow> bool" where
  "sched_is_active s \<longleftrightarrow> s \<in> {STARTING, RUNNING, STOPPING}"

definition sched_can_start :: "scheduler_status \<Rightarrow> bool" where
  "sched_can_start s \<longleftrightarrow> s \<in> {STOPPED, SCHED_ERROR}"

definition sched_can_stop :: "scheduler_status \<Rightarrow> bool" where
  "sched_can_stop s \<longleftrightarrow> s \<in> {STARTING, RUNNING}"

definition sched_is_terminal :: "scheduler_status \<Rightarrow> bool" where
  "sched_is_terminal s \<longleftrightarrow> s \<in> {STOPPED, SCHED_ERROR}"

text \<open>The numeric fields of the configuration with their declared ranges.\<close>

record scheduler_config =
  sg_tick_interval_ms :: int
  sg_scheduler_id :: string
  sg_tick_topic :: string
  sg_persist_sequence_number :: bool
  sg_max_tick_jitter_ms :: int
  sg_circuit_breaker_threshold :: int
  sg_circuit_breaker_reset_timeout :: seconds
  sg_valkey_timeout :: seconds
  sg_valkey_connection_retries :: int

definition mk_scheduler_config :: "scheduler_config \<Rightarrow> infra_error + scheduler_config" where
  "mk_scheduler_config c =
     (if 10 \<le> sg_tick_interval_ms c \<and> sg_tick_interval_ms c \<le> 60000 \<and>
         1 \<le> length (sg_scheduler_id c) \<and> length (sg_scheduler_id c) \<le> 255 \<and>
         1 \<le> length (sg_tick_topic c) \<and> length (sg_tick_topic c) \<le> 255 \<and>
         0 \<le> sg_max_tick_jitter_ms c \<and> sg_max_tick_jitter_ms c \<le> 10000 \<and>
         1 \<le> sg_circuit_breaker_threshold c \<and> sg_circuit_breaker_threshold c \<le> 100 \<and>
         1 \<le> sg_circuit_breaker_reset_timeout c \<and> sg_circuit_breaker_reset_timeout c \<le> 3600 \<and>
         1 / 10 \<le> sg_valkey_timeout c \<and> sg_valkey_timeout c \<le> 60 \<and>
         0 \<le> sg_valkey_connection_retries c \<and> sg_valkey_connection_retries c \<le> 10
      then Ok c else Err ValidationError)"

record runtime_tick =
  tk_now :: timestamp
  tk_tick_id :: uuid
  tk_sequence_number :: int
  tk_scheduled_at :: timestamp
  tk_correlation_id :: uuid
  tk_scheduler_id :: string
  tk_tick_interval_ms :: int

definition mk_runtime_tick :: "runtime_tick \<Rightarrow> infra_error + runtime_tick" where
  "mk_runtime_tick t =
     (if 0 \<le> tk_sequence_number t \<and> 1 \<le> length (tk_scheduler_id t) \<and>
         100 \<le> tk_tick_interval_ms t \<and> tk_tick_interval_ms t \<le> 60000
      then Ok t else Err ValidationError)"

record scheduler =
  sc_config :: scheduler_config
  sc_breaker :: breaker
  sc_status :: scheduler_status
  sc_sequence_number :: int
  sc_started_at :: "timestamp option"
  sc_last_tick_at :: "timestamp option"
  sc_last_duration :: real
  sc_total_duration :: real
  sc_max_duration :: real
  sc_ticks_emitted :: int
  sc_ticks_failed :: int
  sc_consecutive_failures :: int
  sc_last_persisted :: int
  sc_shutdown :: bool
  sc_tick_task :: bool
  sc_valkey_client :: bool
  sc_valkey_available :: bool

definition new_scheduler :: "uuid \<Rightarrow> scheduler_config \<Rightarrow> infra_error + scheduler" where
  "new_scheduler fresh c =
     (case init_circuit_breaker fresh (sg_circuit_breaker_threshold c) (sg_circuit_breaker_reset_timeout c)
        (''runtime-scheduler.'' @ sg_scheduler_id c) KAFKA 1 False of
        Err e \<Rightarrow> Err e
      | Ok b \<Rightarrow> Ok \<lparr>sc_config = c, sc_breaker = b, sc_status = STOPPED, sc_sequence_number = 0,
          sc_started_at = None, sc_last_tick_at = None, sc_last_duration = 0, sc_total_duration = 0,
          sc_max_duration = 0, sc_ticks_emitted = 0, sc_ticks_failed = 0, sc_consecutive_failures = 0,
          sc_last_persisted = 0, sc_shutdown = False, sc_tick_task = False,
          sc_valkey_client = False, sc_valkey_available = True\<rparr>)"

section \<open>The Valkey connection\<close>

text \<open>
  How a call to Valkey turns out: done, a connection error or timeout, or another error of the client
  library.
\<close>

datatype valkey_reply = VDone | VConnectionError | VOtherError

text \<open>Attempts numbered from \<open>attempt\<close>, the last being \<open>attempt + left\<close>; the delays slept are recorded.\<close>

fun connect_valkey :: "(nat \<Rightarrow> valkey_reply) \<Rightarrow> nat \<Rightarrow> nat \<Rightarrow> bool \<times> seconds list" where
  "connect_valkey ping attempt left =
     (case ping attempt of
        VDone \<Rightarrow> (True, [])
      | VOtherError \<Rightarrow> (False, [])
      | VConnectionError \<Rightarrow>
          (case left of
             0 \<Rightarrow> (False, [])
           | Suc left' \<Rightarrow>
               let (ok, delays) = connect_valkey ping (Suc attempt) left'
               in (ok, min (2 ^ attempt) 60 # delays)))"

definition get_valkey_client :: "(nat \<Rightarrow> valkey_reply) \<Rightarrow> scheduler \<Rightarrow> bool \<times> scheduler" where
  "get_valkey_client ping s =
     (if \<not> sg_persist_sequence_number (sc_config s) then (False, s)
      else if \<not> sc_valkey_available s then (False, s)
      else if sc_valkey_client s then (True, s)
      else if fst (connect_valkey ping 0 (nat (sg_valkey_connection_retries (sc_config s))))
        then (True, s\<lparr>sc_valkey_client := True\<rparr>)
      else (False, s\<lparr>sc_valkey_available := False, sc_valkey_client := False\<rparr>))"

definition close_valkey_client :: "scheduler \<Rightarrow> scheduler" where
  "close_valkey_client s = s\<lparr>sc_valkey_client := False\<rparr>"

text \<open>The value stored under the key is an argument of the load and part of the result of the persist.\<close>

definition load_sequence_number ::
  "(nat \<Rightarrow> valkey_reply) \<Rightarrow> valkey_reply \<Rightarrow> string option \<Rightarrow> scheduler \<Rightarrow> scheduler" where
  "load_sequence_number ping reply stored s0 =
     (if \<not> sg_persist_sequence_number (sc_config s0) then s0
      else
        let (client, s) = get_valkey_client ping s0 in
        if \<not> client then s
        else case reply of
          VConnectionError \<Rightarrow> s\<lparr>sc_valkey_available := False\<rparr>
        | VOtherError \<Rightarrow> s
        | VDone \<Rightarrow>
            (case stored of
               None \<Rightarrow> s
             | Some text \<Rightarrow>
                 (case py_int text of
                    None \<Rightarrow> s
                  | Some n \<Rightarrow> if n < 0 then s
                      else s\<lparr>sc_sequence_number := n, sc_last_persisted := n\<rparr>)))"

text \<open>A write whose reply was lost may have been applied: \<open>applied\<close>.\<close>

definition persist_sequence_number ::
  "(nat \<Rightarrow> valkey_reply) \<Rightarrow> valkey_reply \<Rightarrow> bool \<Rightarrow> string option \<Rightarrow> scheduler \<Rightarrow> string option \<times> scheduler" where
  "persist_sequence_number ping reply applied stored s0 =
     (if \<not> sg_persist_sequence_number (sc_config s0) then (stored, s0)
      else
        let (client, s) = get_valkey_client ping s0; text = string_of_int (sc_sequence_number s) in
        if \<not> client then (stored, s)
        else case reply of
          VDone \<Rightarrow> (Some text, close_valkey_client (s\<lparr>sc_last_persisted := sc_sequence_number s\<rparr>))
        | VConnectionError \<Rightarrow> (if applied then Some text else stored,
            close_valkey_client (s\<lparr>sc_valkey_available := False\<rparr>))
        | VOtherError \<Rightarrow> (stored, close_valkey_client s))"

section \<open>Lifecycle\<close>

definition start_scheduler ::
  "(nat \<Rightarrow> valkey_reply) \<Rightarrow> valkey_reply \<Rightarrow> string option \<Rightarrow> uuid \<Rightarrow> seconds \<Rightarrow> timestamp \<Rightarrow> scheduler \<Rightarrow>
   (infra_error + unit) \<times> scheduler" where
  "start_scheduler ping reply stored cid now started s0 =
     (if sched_is_active (sc_status s0) then (Ok (), s0)
      else
        let s = s0\<lparr>sc_status := STARTING\<rparr> in
        case check_circuit_breaker ''start'' (Some cid) cid now (sc_breaker s) of
          Err e \<Rightarrow> (Err e, s\<lparr>sc_status := SCHED_ERROR\<rparr>)
        | Ok b \<Rightarrow>
            (Ok (), (load_sequence_number ping reply stored (s\<lparr>sc_breaker := b\<rparr>))
               \<lparr>sc_shutdown := False, sc_started_at := Some started, sc_status := RUNNING,
                sc_tick_task := True\<rparr>))"

text \<open>The tick task has ended, by itself or cancelled, before the number is persisted.\<close>

definition stop_scheduler ::
  "(nat \<Rightarrow> valkey_reply) \<Rightarrow> valkey_reply \<Rightarrow> bool \<Rightarrow> string option \<Rightarrow> scheduler \<Rightarrow> string option \<times> scheduler" where
  "stop_scheduler ping reply applied stored s0 =
     (if sched_is_terminal (sc_status s0) then (stored, s0)
      else
        let s = s0\<lparr>sc_status := STOPPING, sc_shutdown := True, sc_tick_task := False\<rparr>;
            (stored', s') = persist_sequence_number ping reply applied stored s
        in (stored', close_valkey_client (s'\<lparr>sc_status := STOPPED\<rparr>)))"

section \<open>Emitting ticks\<close>

definition record_tick_success :: "real \<Rightarrow> timestamp \<Rightarrow> scheduler \<Rightarrow> scheduler" where
  "record_tick_success duration_ms tick_time s =
     s\<lparr>sc_ticks_emitted := sc_ticks_emitted s + 1, sc_last_tick_at := Some tick_time,
       sc_last_duration := duration_ms, sc_total_duration := sc_total_duration s + duration_ms,
       sc_max_duration := max duration_ms (sc_max_duration s), sc_consecutive_failures := 0\<rparr>"

definition record_tick_failure :: "scheduler \<Rightarrow> scheduler" where
  "record_tick_failure s = s\<lparr>sc_ticks_failed := sc_ticks_failed s + 1,
     sc_consecutive_failures := sc_consecutive_failures s + 1\<rparr>"

datatype publish_reply = Published | PublishTimeout | PublishFailed

record tick_env =
  te_now :: timestamp
  te_tick_id :: uuid
  te_correlation_id :: uuid
  te_monotonic :: seconds
  te_publish :: publish_reply
  te_duration_ms :: real

text \<open>The result, the ticks handed to the event bus by this call, and the new state.\<close>

definition emit_tick ::
  "timestamp option \<Rightarrow> tick_env \<Rightarrow> scheduler \<Rightarrow> (infra_error + unit) \<times> runtime_tick list \<times> scheduler" where
  "emit_tick now env s0 =
     (let tick_time = or_else now (te_now env); cid = te_correlation_id env;
          s = s0\<lparr>sc_sequence_number := sc_sequence_number s0 + 1\<rparr>; c = sc_config s
      in case mk_runtime_tick \<lparr>tk_now = tick_time, tk_tick_id = te_tick_id env,
            tk_sequence_number = sc_sequence_number s, tk_scheduled_at = tick_time,
            tk_correlation_id = cid, tk_scheduler_id = sg_scheduler_id c,
            tk_tick_interval_ms = sg_tick_interval_ms c\<rparr> of
        Err e \<Rightarrow> (Err e, [], s)
      | Ok tick \<Rightarrow>
          (case check_circuit_breaker ''emit_tick'' (Some cid) cid (te_monotonic env) (sc_breaker s) of
             Err e \<Rightarrow> (Err e, [], record_tick_failure s)
           | Ok b \<Rightarrow>
               let s1 = s\<lparr>sc_breaker := b\<rparr>;
                   ctx = \<lparr>ctx_transport = Some KAFKA, ctx_operation = Some ''emit_tick'',
                     ctx_target = Some (sg_tick_topic c), ctx_correlation = cid\<rparr>;
                   failed = record_tick_failure
                     (s1\<lparr>sc_breaker := record_circuit_failure (te_monotonic env) (sc_breaker s1)\<rparr>)
               in case te_publish env of
                 Published \<Rightarrow> (Ok (), [tick], record_tick_success (te_duration_ms env) tick_time
                   (s1\<lparr>sc_breaker := reset_circuit_breaker (sc_breaker s1)\<rparr>))
               | PublishTimeout \<Rightarrow> (Err (InfraTimeoutError ctx None), [tick], failed)
               | PublishFailed \<Rightarrow> (Err (InfraConnectionError ctx), [tick], failed)))"

text \<open>
  One round of the loop after its sleep: the tick, and the loop's own count of a failure. The loop
  sleeps the interval with its jitter.
\<close>

definition tick_loop_delay :: "scheduler_config \<Rightarrow> int \<Rightarrow> seconds" where
  "tick_loop_delay c jitter_ms =
     real_of_int (sg_tick_interval_ms c) / 1000 +
     (if sg_max_tick_jitter_ms c > 0 then real_of_int jitter_ms / 1000 else 0)"

definition tick_loop_round :: "tick_env \<Rightarrow> scheduler \<Rightarrow> runtime_tick list \<times> scheduler" where
  "tick_loop_round env s =
     (if sc_shutdown s then ([], s)
      else case emit_tick None env s of
        (Ok _, ticks, s') \<Rightarrow> (ticks, s')
      | (Err _, ticks, s') \<Rightarrow> (ticks, s'\<lparr>sc_consecutive_failures := sc_consecutive_failures s' + 1\<rparr>))"

fun tick_loop :: "tick_env list \<Rightarrow> scheduler \<Rightarrow> runtime_tick list \<times> scheduler" where
  "tick_loop [] s = ([], s)"
| "tick_loop (env # envs) s =
     (let (ticks, s') = tick_loop_round env s; (more, s'') = tick_loop envs s' in (ticks @ more, s''))"

section \<open>Metrics\<close>

record scheduler_metrics =
  sm_status :: scheduler_status
  sm_ticks_emitted :: int
  sm_ticks_failed :: int
  sm_average_duration :: real
  sm_max_duration :: real
  sm_current_sequence :: int
  sm_last_persisted :: int
  sm_circuit_open :: bool
  sm_consecutive_failures :: int
  sm_uptime_seconds :: seconds

definition get_scheduler_metrics :: "timestamp \<Rightarrow> scheduler \<Rightarrow> scheduler_metrics" where
  "get_scheduler_metrics now s =
     \<lparr>sm_status = sc_status s, sm_ticks_emitted = sc_ticks_emitted s, sm_ticks_failed = sc_ticks_failed s,
      sm_average_duration = (if sc_ticks_emitted s > 0
        then sc_total_duration s / real_of_int (sc_ticks_emitted s) else 0),
      sm_max_duration = sc_max_duration s, sm_current_sequence = sc_sequence_number s,
      sm_last_persisted = sc_last_persisted s, sm_circuit_open = cb_open (sc_breaker s),
      sm_consecutive_failures = sc_consecutive_failures s,
      sm_uptime_seconds = (case sc_started_at s of None \<Rightarrow> 0
        | Some t \<Rightarrow> real_of_int (now - t) / real_of_int usec_per_sec)\<rparr>"

end
