(* ===== verification/SchedulerProps.thy ===== *)
theory SchedulerProps imports RuntimeScheduler BreakerProps begin

text \<open>
  The scheduler's sequence numbers across orderly restarts, its behaviour while the event bus is down,
  and an interval its configuration admits and its ticks refuse.
\<close>

section \<open>One tick\<close>

definition tick_interval_ok :: "scheduler_config \<Rightarrow> bool" where
  "tick_interval_ok c \<longleftrightarrow> 100 \<le> sg_tick_interval_ms c \<and> sg_tick_interval_ms c \<le> 60000 \<and> sg_scheduler_id c \<noteq> []"

lemma mk_tick_ok:
  "tick_interval_ok c \<Longrightarrow> 0 \<le> n \<Longrightarrow> mk_runtime_tick \<lparr>tk_now = a, tk_tick_id = i, tk_sequence_number = n,
     tk_scheduled_at = a', tk_correlation_id = cid, tk_scheduler_id = sg_scheduler_id c,
     tk_tick_interval_ms = sg_tick_interval_ms c\<rparr> = Ok \<lparr>tk_now = a, tk_tick_id = i, tk_sequence_number = n,
     tk_scheduled_at = a', tk_correlation_id = cid, tk_scheduler_id = sg_scheduler_id c,
     tk_tick_interval_ms = sg_tick_interval_ms c\<rparr>"
  by (cases "sg_scheduler_id c") (auto simp: mk_runtime_tick_def tick_interval_ok_def)

text \<open>What every call of \<open>emit_tick\<close> does to the fields the properties are about.\<close>

lemma emit_tick_frame:
  assumes "emit_tick now env s = (r, ticks, s')"
  shows "sc_sequence_number s' = sc_sequence_number s + 1" "sc_config s' = sc_config s"
    "sc_status s' = sc_status s" "sc_valkey_available s' = sc_valkey_available s"
    "sc_valkey_client s' = sc_valkey_client s" "sc_shutdown s' = sc_shutdown s"
    "ticks = [] \<or> (\<exists>t. ticks = [t] \<and> tk_sequence_number t = sc_sequence_number s + 1)"
  using assms
  by (auto simp: emit_tick_def Let_def record_tick_success_def record_tick_failure_def mk_runtime_tick_def
      split: sum.splits publish_reply.splits if_splits)

section \<open>Sequence numbers across restarts\<close>

text \<open>
  Orderly operation with a working Valkey server: the loop ticks while the scheduler runs, a stop
  persists the number, and the process may be replaced while the scheduler is stopped. The state is the
  stored value, the scheduler, and the ticks handed to the bus so far, by all processes.
\<close>

datatype scheduler_event = Started | Ticked | Stopped | Replaced

type_synonym scheduler_run = "string option \<times> scheduler \<times> runtime_tick list"

inductive orderly_step :: "scheduler_event \<Rightarrow> scheduler_run \<Rightarrow> scheduler_run \<Rightarrow> bool" where
  started: "ping 0 = VDone \<Longrightarrow> start_scheduler ping VDone stored cid now begun s = (r, s') \<Longrightarrow>
     orderly_step Started (stored, s, ticks) (stored, s', ticks)"
| ticked: "sc_status s = RUNNING \<Longrightarrow> emit_tick now env s = (r, ts, s') \<Longrightarrow>
     orderly_step Ticked (stored, s, ticks) (stored, s', ticks @ ts)"
| stopped: "ping 0 = VDone \<Longrightarrow> sc_sequence_number s < 10 ^ int_digit_limit \<Longrightarrow>
     stop_scheduler ping VDone applied stored s = (stored', s') \<Longrightarrow>
     orderly_step Stopped (stored, s, ticks) (stored', s', ticks)"
| replaced: "sched_is_terminal (sc_status s) \<Longrightarrow> new_scheduler fresh (sc_config s) = Ok s' \<Longrightarrow>
     orderly_step Replaced (stored, s, ticks) (stored, s', ticks)"

definition first_scheduler :: "scheduler_run \<Rightarrow> bool" where
  "first_scheduler R \<longleftrightarrow> (\<exists>stored fresh c s. R = (stored, s, []) \<and> sg_persist_sequence_number c \<and>
     new_scheduler fresh c = Ok s)"

abbreviation numbers :: "runtime_tick list \<Rightarrow> int list" where
  "numbers ticks \<equiv> map tk_sequence_number ticks"

text \<open>The stored value covers the ticks: it parses to a number none of them exceeds.\<close>

definition covers :: "string option \<Rightarrow> runtime_tick list \<Rightarrow> bool" where
  "covers stored ticks \<longleftrightarrow> ticks = [] \<or> (\<exists>text n. stored = Some text \<and> py_int text = Some n \<and> 0 \<le> n \<and>
     (\<forall>t \<in> set ticks. tk_sequence_number t \<le> n))"

definition scheduler_ok :: "scheduler_run \<Rightarrow> bool" where
  [inv_defs]: "scheduler_ok R = (case R of (stored, s, ticks) \<Rightarrow>
     sg_persist_sequence_number (sc_config s) \<and> sc_valkey_available s \<and> 0 \<le> sc_sequence_number s \<and>
     sorted_wrt (<) (numbers ticks) \<and>
     (sc_status s = RUNNING \<and> (\<forall>t \<in> set ticks. tk_sequence_number t \<le> sc_sequence_number s) \<or>
      sched_is_terminal (sc_status s) \<and> covers stored ticks))"

lemma new_scheduler_fields:
  assumes "new_scheduler fresh c = Ok s"
  shows "sc_config s = c \<and> sc_status s = STOPPED \<and> sc_sequence_number s = 0 \<and>
     sc_valkey_available s \<and> \<not> sc_shutdown s \<and> fresh_breaker (sc_breaker s) \<and>
     cb_threshold (sc_breaker s) = sg_circuit_breaker_threshold c \<and>
     cb_reset_timeout (sc_breaker s) = sg_circuit_breaker_reset_timeout c"
proof -
  obtain b where b: "init_circuit_breaker fresh (sg_circuit_breaker_threshold c) (sg_circuit_breaker_reset_timeout c)
      (''runtime-scheduler.'' @ sg_scheduler_id c) KAFKA 1 False = Ok b" "sc_breaker s = b"
    using assms by (auto simp: new_scheduler_def split: sum.splits)
  then have "fresh_breaker b" unfolding fresh_breaker_def by blast
  moreover have "cb_threshold b = sg_circuit_breaker_threshold c" "cb_reset_timeout b = sg_circuit_breaker_reset_timeout c"
    using b(1) by (auto simp: init_circuit_breaker_def Let_def split: if_splits)
  ultimately show ?thesis using assms b by (auto simp: new_scheduler_def)
qed

lemma string_of_int_read: "0 \<le> n \<Longrightarrow> n < 10 ^ int_digit_limit \<Longrightarrow> py_int (string_of_int n) = Some n"
  using py_int_padded [of "[]" "[]" n] by simp

lemma valkey_connects:
  assumes "ping 0 = VDone" "sg_persist_sequence_number (sc_config s)" "sc_valkey_available s"
  shows "get_valkey_client ping s = (True, s\<lparr>sc_valkey_client := True\<rparr>)"
  using assms by (simp add: get_valkey_client_def)

lemma load_covers:
  assumes "ping 0 = VDone" "sg_persist_sequence_number (sc_config s)" "sc_valkey_available s"
    "covers stored ticks" "0 \<le> sc_sequence_number s"
  defines "s' \<equiv> load_sequence_number ping VDone stored s"
  shows "sc_config s' = sc_config s \<and> sc_valkey_available s' \<and> 0 \<le> sc_sequence_number s' \<and>
    (\<forall>t \<in> set ticks. tk_sequence_number t \<le> sc_sequence_number s')"
  using assms valkey_connects [of ping s]
  by (auto simp: load_sequence_number_def covers_def split: option.splits)

lemma load_frame:
  "0 \<le> sc_sequence_number s \<Longrightarrow> sc_config (load_sequence_number ping reply value s) = sc_config s \<and>
     sc_breaker (load_sequence_number ping reply value s) = sc_breaker s \<and>
     0 \<le> sc_sequence_number (load_sequence_number ping reply value s)"
  by (auto simp: load_sequence_number_def get_valkey_client_def split: valkey_reply.splits option.splits)

lemma scheduler_ok_step: "orderly_step e R R' \<Longrightarrow> scheduler_ok R \<Longrightarrow> scheduler_ok R'"
proof (induction rule: orderly_step.induct)
  case (started ping stored cid now begun s r s' ticks)
  show ?case
  proof (cases "sched_is_active (sc_status s)")
    case True
    then show ?thesis using started by (simp add: start_scheduler_def)
  next
    case False
    then have ok: "sg_persist_sequence_number (sc_config s)" "sc_valkey_available s" "0 \<le> sc_sequence_number s"
      "sorted_wrt (<) (numbers ticks)" "covers stored ticks"
      using started.prems by (auto simp: scheduler_ok_def sched_is_active_def)
    show ?thesis
    proof (cases "check_circuit_breaker ''start'' (Some cid) cid now (sc_breaker s)")
      case (Inl e)
      then show ?thesis using started.hyps(2) False ok
        by (auto simp: start_scheduler_def scheduler_ok_def sched_is_terminal_def)
    next
      case (Inr b)
      then show ?thesis
        using started.hyps False ok load_covers [of ping "s\<lparr>sc_status := STARTING, sc_breaker := b\<rparr>" stored ticks]
        by (auto simp: start_scheduler_def scheduler_ok_def)
    qed
  qed
next
  case (ticked s now env r ts s' stored ticks)
  then show ?case using emit_tick_frame [OF ticked.hyps(2)]
    by (fastforce simp: scheduler_ok_def sched_is_terminal_def sorted_wrt_append)
next
  case (stopped ping s applied stored stored' s' ticks)
  show ?case
  proof (cases "sched_is_terminal (sc_status s)")
    case True
    then show ?thesis using stopped by (simp add: stop_scheduler_def)
  next
    case False
    then have ok: "sg_persist_sequence_number (sc_config s)" "sc_valkey_available s" "0 \<le> sc_sequence_number s"
      "sorted_wrt (<) (numbers ticks)" "\<forall>t \<in> set ticks. tk_sequence_number t \<le> sc_sequence_number s"
      using stopped.prems by (auto simp: scheduler_ok_def)
    let ?s = "s\<lparr>sc_status := STOPPING, sc_shutdown := True, sc_tick_task := False\<rparr>"
    have "get_valkey_client ping ?s = (True, ?s\<lparr>sc_valkey_client := True\<rparr>)"
      by (rule valkey_connects) (use stopped.hyps ok in simp_all)
    then have "stored' = Some (string_of_int (sc_sequence_number s))" "sc_status s' = STOPPED"
      "sc_config s' = sc_config s" "sc_valkey_available s'" "sc_sequence_number s' = sc_sequence_number s"
      using stopped.hyps(3) False ok
      by (auto simp: stop_scheduler_def persist_sequence_number_def close_valkey_client_def)
    then show ?thesis
      using ok string_of_int_read [OF ok(3) stopped.hyps(2)]
      by (auto simp: scheduler_ok_def covers_def sched_is_terminal_def)
  qed
next
  case (replaced s fresh s' stored ticks)
  then show ?case using new_scheduler_fields [OF replaced.hyps(2)]
    by (auto simp: scheduler_ok_def sched_is_terminal_def)
qed

lemma scheduler_ok_first: "first_scheduler R \<Longrightarrow> scheduler_ok R"
  by (auto simp: first_scheduler_def scheduler_ok_def sched_is_terminal_def covers_def dest!: new_scheduler_fields)

interpretation scheduler_machine: invariant_machine first_scheduler orderly_step scheduler_ok
  by unfold_locales (auto intro: scheduler_ok_first scheduler_ok_step)


section \<open>The event bus is down\<close>

text \<open>A round of the loop on a circuit that admits the call, with a publish that fails.\<close>

lemma failing_round:
  assumes "tick_interval_ok (sc_config s)" "0 \<le> sc_sequence_number s" "\<not> sc_shutdown s"
    "breaker_inv (sc_breaker s)" "circuit_of (sc_breaker s) = Closed n" "te_publish env \<noteq> Published"
  shows "\<exists>t s'. tick_loop_round env s = ([t], s') \<and> tick_interval_ok (sc_config s') \<and>
    0 \<le> sc_sequence_number s' \<and> \<not> sc_shutdown s' \<and>
    sc_breaker s' = record_circuit_failure (te_monotonic env) (sc_breaker s) \<and>
    sc_ticks_emitted s' = sc_ticks_emitted s \<and> sc_ticks_failed s' = sc_ticks_failed s + 1 \<and>
    sc_consecutive_failures s' = sc_consecutive_failures s + 2"
proof -
  have "check_circuit_breaker ''emit_tick'' (Some cid) cid (te_monotonic env) (sc_breaker s) = Ok (sc_breaker s)" for cid
    using assms(5) by (auto simp: circuit_of_def check_circuit_breaker_def split: if_splits)
  then show ?thesis
    using assms by (cases "te_publish env")
      (auto simp: tick_loop_round_def emit_tick_def mk_tick_ok Let_def record_tick_failure_def)
qed

lemma blocked_round:
  assumes "tick_interval_ok (sc_config s)" "0 \<le> sc_sequence_number s" "\<not> sc_shutdown s"
    "circuit_of (sc_breaker s) = Open until" "te_monotonic env < until"
  shows "\<exists>s'. tick_loop_round env s = ([], s') \<and> tick_interval_ok (sc_config s') \<and>
    0 \<le> sc_sequence_number s' \<and> \<not> sc_shutdown s' \<and> sc_breaker s' = sc_breaker s \<and>
    sc_ticks_emitted s' = sc_ticks_emitted s \<and> sc_ticks_failed s' = sc_ticks_failed s + 1 \<and>
    sc_consecutive_failures s' = sc_consecutive_failures s + 2"
proof -
  have "\<exists>e. check_circuit_breaker ''emit_tick'' (Some cid) cid (te_monotonic env) (sc_breaker s) = Err e" for cid
    using assms(4,5) by (auto simp: circuit_of_def check_circuit_breaker_def split: if_splits)
  then obtain e where "check_circuit_breaker ''emit_tick'' (Some (te_correlation_id env)) (te_correlation_id env)
      (te_monotonic env) (sc_breaker s) = Err e" by blast
  then show ?thesis
    using assms by (auto simp: tick_loop_round_def emit_tick_def mk_tick_ok Let_def record_tick_failure_def)
qed

lemma blocked_rounds:
  assumes "tick_interval_ok (sc_config s)" "0 \<le> sc_sequence_number s" "\<not> sc_shutdown s"
    "circuit_of (sc_breaker s) = Open until" "\<And>env. env \<in> set envs \<Longrightarrow> te_monotonic env < until"
  shows "\<exists>s'. tick_loop envs s = ([], s') \<and> sc_ticks_emitted s' = sc_ticks_emitted s \<and>
    sc_ticks_failed s' = sc_ticks_failed s + int (length envs) \<and>
    sc_consecutive_failures s' = sc_consecutive_failures s + 2 * int (length envs)"
  using assms
proof (induction envs arbitrary: s)
  case (Cons env envs)
  obtain s1 where s1: "tick_loop_round env s = ([], s1)" "tick_interval_ok (sc_config s1)"
    "0 \<le> sc_sequence_number s1" "\<not> sc_shutdown s1" "sc_breaker s1 = sc_breaker s"
    "sc_ticks_emitted s1 = sc_ticks_emitted s" "sc_ticks_failed s1 = sc_ticks_failed s + 1"
    "sc_consecutive_failures s1 = sc_consecutive_failures s + 2"
    using blocked_round [of s until env] Cons.prems by auto
  obtain s2 where "tick_loop envs s1 = ([], s2)" "sc_ticks_emitted s2 = sc_ticks_emitted s1"
    "sc_ticks_failed s2 = sc_ticks_failed s1 + int (length envs)"
    "sc_consecutive_failures s2 = sc_consecutive_failures s1 + 2 * int (length envs)"
    using Cons.IH [of s1] s1 Cons.prems(4,5) by auto
  with s1 show ?case by simp
qed simp

lemma outage_rounds:
  assumes "tick_interval_ok (sc_config s)" "0 \<le> sc_sequence_number s" "\<not> sc_shutdown s"
    "breaker_inv (sc_breaker s)" "circuit_of (sc_breaker s) = Closed n"
    "\<And>env. env \<in> set envs \<Longrightarrow> te_publish env \<noteq> Published"
    "k = nat (cb_threshold (sc_breaker s) - n)" "n < cb_threshold (sc_breaker s)"
    "\<And>env. env \<in> set (drop k envs) \<Longrightarrow>
       te_monotonic env < te_monotonic (envs ! (k - 1)) + cb_reset_timeout (sc_breaker s)"
  shows "\<exists>ticks s'. tick_loop envs s = (ticks, s') \<and> length ticks = min k (length envs) \<and>
    sc_ticks_emitted s' = sc_ticks_emitted s \<and> sc_ticks_failed s' = sc_ticks_failed s + int (length envs) \<and>
    sc_consecutive_failures s' = sc_consecutive_failures s + 2 * int (length envs)"
  using assms
proof (induction envs arbitrary: s n k)
  case (Cons env envs)
  let ?b = "record_circuit_failure (te_monotonic env) (sc_breaker s)"
  obtain t s1 where s1: "tick_loop_round env s = ([t], s1)" "tick_interval_ok (sc_config s1)"
    "0 \<le> sc_sequence_number s1" "\<not> sc_shutdown s1" "sc_breaker s1 = ?b"
    "sc_ticks_emitted s1 = sc_ticks_emitted s" "sc_ticks_failed s1 = sc_ticks_failed s + 1"
    "sc_consecutive_failures s1 = sc_consecutive_failures s + 2"
    using failing_round [of s n env] Cons.prems by auto
  have inv: "breaker_inv ?b" using Cons.prems(4) by (rule breaker_inv_record)
  have k: "0 < k" using Cons.prems(7,8) by simp
  have next_circuit: "circuit_of ?b = (if n + 1 \<ge> cb_threshold (sc_breaker s)
      then Open (te_monotonic env + cb_reset_timeout (sc_breaker s)) else Closed (n + 1))"
    using circuit_of_failure [OF Cons.prems(4)] Cons.prems(5) by simp
  show ?case
  proof (cases "n + 1 \<ge> cb_threshold (sc_breaker s)")
    case True
    then have k1: "k = 1" using Cons.prems(7,8) by simp
    have "circuit_of (sc_breaker s1) = Open (te_monotonic env + cb_reset_timeout (sc_breaker s))"
      using next_circuit True s1(5) by simp
    moreover have "te_monotonic e < te_monotonic env + cb_reset_timeout (sc_breaker s)" if "e \<in> set envs" for e
      using Cons.prems(9) [of e] that k1 by simp
    ultimately obtain s2 where "tick_loop envs s1 = ([], s2)" "sc_ticks_emitted s2 = sc_ticks_emitted s1"
      "sc_ticks_failed s2 = sc_ticks_failed s1 + int (length envs)"
      "sc_consecutive_failures s2 = sc_consecutive_failures s1 + 2 * int (length envs)"
      using blocked_rounds [of s1 _ envs] s1 by blast
    then show ?thesis using s1 k1 by simp
  next
    case False
    have late: "te_monotonic e < te_monotonic (envs ! (k - 1 - 1)) + cb_reset_timeout (sc_breaker s1)"
      if "e \<in> set (drop (k - 1) envs)" for e
    proof -
      have "1 < k" using False Cons.prems(7,8) by simp
      then have "drop k (env # envs) = drop (k - 1) envs" "(env # envs) ! (k - 1) = envs ! (k - 1 - 1)"
        by (simp_all add: drop_Cons' nth_Cons')
      then show ?thesis using Cons.prems(9) [of e] that s1(5) by simp
    qed
    have "\<exists>ticks s'. tick_loop envs s1 = (ticks, s') \<and> length ticks = min (k - 1) (length envs) \<and>
      sc_ticks_emitted s' = sc_ticks_emitted s1 \<and> sc_ticks_failed s' = sc_ticks_failed s1 + int (length envs) \<and>
      sc_consecutive_failures s' = sc_consecutive_failures s1 + 2 * int (length envs)"
    proof (rule Cons.IH [of s1 "n + 1"])
      show "k - 1 = nat (cb_threshold (sc_breaker s1) - (n + 1))" using Cons.prems(7) s1(5) by simp
      show "circuit_of (sc_breaker s1) = Closed (n + 1)" using next_circuit False s1(5) by simp
    qed (use s1 inv False Cons.prems(6) late in auto)
    then obtain ticks s2 where "tick_loop envs s1 = (ticks, s2)" "length ticks = min (k - 1) (length envs)"
      "sc_ticks_emitted s2 = sc_ticks_emitted s1" "sc_ticks_failed s2 = sc_ticks_failed s1 + int (length envs)"
      "sc_consecutive_failures s2 = sc_consecutive_failures s1 + 2 * int (length envs)" by blast
    then show ?thesis using s1 k by simp
  qed
qed simp


section \<open>An interval the tick refuses\<close>

lemma refused_rounds:
  assumes "sc_config s = c" "sg_tick_interval_ms c < 100" "\<not> sc_shutdown s"
  shows "\<exists>s'. tick_loop envs s = ([], s') \<and> sc_breaker s' = sc_breaker s \<and>
    sc_ticks_emitted s' = sc_ticks_emitted s \<and> sc_ticks_failed s' = sc_ticks_failed s \<and>
    sc_sequence_number s' = sc_sequence_number s + int (length envs)"
  using assms
proof (induction envs arbitrary: s)
  case (Cons env envs)
  obtain s1 where s1: "tick_loop_round env s = ([], s1)" "sc_config s1 = c" "\<not> sc_shutdown s1"
    "sc_breaker s1 = sc_breaker s" "sc_ticks_emitted s1 = sc_ticks_emitted s" "sc_ticks_failed s1 = sc_ticks_failed s"
    "sc_sequence_number s1 = sc_sequence_number s + 1"
    using Cons.prems by (auto simp: tick_loop_round_def emit_tick_def mk_runtime_tick_def Let_def)
  then show ?case using Cons.IH [OF s1(2) Cons.prems(2) s1(3)] by auto
qed simp

section \<open>Concrete schedulers for the witnesses\<close>

definition demo_sched_config :: "int \<Rightarrow> scheduler_config" where
  "demo_sched_config ms = \<lparr>sg_tick_interval_ms = ms, sg_scheduler_id = ''main'', sg_tick_topic = ''tick'',
     sg_persist_sequence_number = True, sg_max_tick_jitter_ms = 0, sg_circuit_breaker_threshold = 2,
     sg_circuit_breaker_reset_timeout = 60, sg_valkey_timeout = 5, sg_valkey_connection_retries = 0\<rparr>"

definition demo_tick_env :: "publish_reply \<Rightarrow> seconds \<Rightarrow> tick_env" where
  "demo_tick_env r t = \<lparr>te_now = 0, te_tick_id = 1, te_correlation_id = 2, te_monotonic = t, te_publish = r,
     te_duration_ms = 1\<rparr>"

definition demo_scheduler :: "int \<Rightarrow> scheduler" where
  "demo_scheduler ms = projr (new_scheduler 0 (demo_sched_config ms))"

definition demo_started :: "int \<Rightarrow> scheduler" where
  "demo_started ms = snd (start_scheduler (\<lambda>i. VDone) VDone None 3 0 0 (demo_scheduler ms))"

lemmas demo_sched_defs = demo_scheduler_def demo_started_def demo_sched_config_def demo_tick_env_def

lemma demo_scheduler_new: "new_scheduler 0 (demo_sched_config ms) = Ok (demo_scheduler ms)"
  by (simp add: demo_scheduler_def demo_sched_config_def new_scheduler_def init_circuit_breaker_def)

lemma demo_first: "first_scheduler (None, demo_scheduler 1000, [])"
proof -
  have "sg_persist_sequence_number (demo_sched_config 1000)" by (simp add: demo_sched_config_def)
  then show ?thesis using demo_scheduler_new [of 1000] by (auto simp: first_scheduler_def)
qed

lemma demo_started_eq:
  "start_scheduler (\<lambda>i. VDone) VDone None 3 0 0 (demo_scheduler ms) = (Ok (), demo_started ms)"
  by (simp add: demo_started_def demo_scheduler_def demo_sched_config_def new_scheduler_def
      init_circuit_breaker_def start_scheduler_def sched_is_active_def check_circuit_breaker_def)

lemma demo_restart:
  "\<exists>s. start_scheduler (\<lambda>i. VDone) VDone stored 3 0 0 (demo_scheduler ms) = (Ok (), s) \<and> sc_status s = RUNNING \<and>
     sc_config s = demo_sched_config ms \<and> 0 \<le> sc_sequence_number s \<and> \<not> cb_open (sc_breaker s)"
proof -
  note f = new_scheduler_fields [OF demo_scheduler_new [of ms]]
  have "\<not> cb_open (sc_breaker (demo_scheduler ms))"
    by (simp add: demo_scheduler_def demo_sched_config_def new_scheduler_def init_circuit_breaker_def)
  then have b: "check_circuit_breaker ''start'' (Some 3) 3 0 (sc_breaker (demo_scheduler ms)) = Ok (sc_breaker (demo_scheduler ms))"
    by (simp add: check_circuit_breaker_def)
  show ?thesis
    using f b \<open>\<not> cb_open (sc_breaker (demo_scheduler ms))\<close>
      load_frame [of "demo_scheduler ms\<lparr>sc_status := STARTING\<rparr>" "\<lambda>i. VDone" VDone stored]
    by (simp add: start_scheduler_def sched_is_active_def)
qed

lemma demo_started_fields:
  "sc_status (demo_started ms) = RUNNING" "sc_sequence_number (demo_started ms) = 0"
  "sc_config (demo_started ms) = demo_sched_config ms" "\<not> cb_open (sc_breaker (demo_started ms))"
  by (simp_all add: demo_sched_defs new_scheduler_def init_circuit_breaker_def start_scheduler_def
        sched_is_active_def check_circuit_breaker_def load_sequence_number_def get_valkey_client_def)

lemma published_tick:
  assumes "tick_interval_ok (sc_config s)" "0 \<le> sc_sequence_number s" "\<not> cb_open (sc_breaker s)"
    "te_publish env = Published"
  shows "\<exists>t s'. emit_tick now env s = (Ok (), [t], s') \<and> sc_status s' = sc_status s \<and> sc_config s' = sc_config s \<and>
    sc_sequence_number s' = sc_sequence_number s + 1"
  using assms by (simp add: emit_tick_def mk_tick_ok Let_def check_circuit_breaker_def record_tick_success_def)

lemma stopped_status:
  "\<not> sched_is_terminal (sc_status s) \<Longrightarrow> stop_scheduler ping reply applied stored s = (st, s') \<Longrightarrow>
   sc_status s' = STOPPED"
  by (auto simp: stop_scheduler_def close_valkey_client_def Let_def split: prod.splits)

lemma stopped_config: "stop_scheduler ping reply applied stored s = (st, s') \<Longrightarrow> sc_config s' = sc_config s"
  by (auto simp: stop_scheduler_def persist_sequence_number_def get_valkey_client_def close_valkey_client_def Let_def
      split: if_splits prod.splits valkey_reply.splits)

lemma small_number: "(1 :: int) < 10 ^ int_digit_limit"
  by (rule one_less_power) (simp_all add: int_digit_limit_def)

section \<open>Properties\<close>



text \<open>
  While every publish fails, a started scheduler bothers the event bus with no more than \<open>threshold\<close> ticks
  until the circuit may be tried again; every further round is counted as failed without a call, and
  the consecutive failures are counted twice, once by the tick and once by the loop.
\<close>
lemma scheduler_outage:
  assumes "new_scheduler fresh c = Ok s0" "tick_interval_ok c"
    and "start_scheduler ping reply stored cid now begun s0 = (Ok (), s)"
    and "\<And>env. env \<in> set envs \<Longrightarrow> te_publish env \<noteq> Published"
    and "\<And>env. env \<in> set (drop (nat (sg_circuit_breaker_threshold c)) envs) \<Longrightarrow>
      te_monotonic env < te_monotonic (envs ! (nat (sg_circuit_breaker_threshold c) - 1)) +
        sg_circuit_breaker_reset_timeout c"
  shows "\<exists>ticks s'. tick_loop envs s = (ticks, s') \<and>
    length ticks = min (nat (sg_circuit_breaker_threshold c)) (length envs) \<and>
    sc_ticks_failed s' = sc_ticks_failed s + int (length envs) \<and>
    sc_consecutive_failures s' = sc_consecutive_failures s + 2 * int (length envs)"
proof -
  note f = new_scheduler_fields [OF assms(1)]
  then have inv: "breaker_inv (sc_breaker s0)" "circuit_of (sc_breaker s0) = Closed 0"
    using fresh_breaker_view [of "sc_breaker s0"] by auto
  have check: "check_circuit_breaker ''start'' (Some cid) cid now (sc_breaker s0) = Ok (sc_breaker s0)"
    using inv(2) by (auto simp: circuit_of_def check_circuit_breaker_def split: if_splits)
  have "sc_config s = c \<and> 0 \<le> sc_sequence_number s \<and> \<not> sc_shutdown s \<and> sc_breaker s = sc_breaker s0"
    using assms(3) f check load_frame [of "s0\<lparr>sc_status := STARTING, sc_breaker := sc_breaker s0\<rparr>" ping reply stored]
    by (auto simp: start_scheduler_def sched_is_active_def)
  moreover have "0 < cb_threshold (sc_breaker s0)" using inv(1) by (simp add: breaker_inv_defs)
  ultimately show ?thesis
    using outage_rounds [of s 0 envs "nat (sg_circuit_breaker_threshold c)"] assms(2,4,5) inv f by auto
qed

text \<open>
  A scheduler configured with an interval from 10 to 99 milliseconds, which its configuration accepts,
  never ticks: the tick refuses the interval before anything is published, and neither the failure count
  nor the circuit shows it.
\<close>
lemma fast_interval_never_ticks:
  "mk_scheduler_config c = Ok c \<Longrightarrow> sg_tick_interval_ms c < 100 \<Longrightarrow> sc_config s = c \<Longrightarrow> \<not> sc_shutdown s \<Longrightarrow>
   \<exists>s'. tick_loop envs s = ([], s') \<and> sc_breaker s' = sc_breaker s \<and>
     sc_ticks_emitted s' = sc_ticks_emitted s \<and> sc_ticks_failed s' = sc_ticks_failed s \<and>
     sc_sequence_number s' = sc_sequence_number s + int (length envs)"
  by (rule refused_rounds)

end
