(* ===== verification/BindingResolver.thy ===== *)
theory BindingResolver imports Infra_Prelude begin

text \<open>
  Operation bindings of \<^verbatim>\<open>runtime/binding_resolver.py\<close>: the parser of binding expressions, the
  traversal of a path through the message, and the resolution of all bindings of an operation with its
  metrics.

  A Python value is a \<open>pyval\<close>; objects other than the JSON types, UUIDs and times are opaque
  (\<open>VObj\<close>), and \<open>getattr\<close> on a value that is not a dictionary is an argument. Durations are
  arguments as well.
\<close>

section \<open>Python values\<close>

datatype 'o pyval =
    VNone | VBool bool | VInt int | VFloat pyfloat | VStr string | VUuid uuid | VTime timestamp
  | VList "'o pyval list" | VDict "('o pyval \<times> 'o pyval) list" | VObj 'o

datatype 'o attr_reply = NoAttr | Attr "'o pyval" | AttrRaises

type_synonym 'o getattr = "'o pyval \<Rightarrow> string \<Rightarrow> 'o attr_reply"

fun is_dict :: "'o pyval \<Rightarrow> bool" where
  "is_dict (VDict _) = True"
| "is_dict _ = False"

fun is_str :: "'o pyval \<Rightarrow> bool" where
  "is_str (VStr _) = True"
| "is_str _ = False"

text \<open>\<open>d.get(key)\<close> with a text key; \<open>None\<close> when the key is absent.\<close>

fun vdict_get :: "'o pyval \<Rightarrow> string \<Rightarrow> 'o pyval" where
  "vdict_get (VDict kvs) key = or_else (dict_get kvs (VStr key)) VNone"
| "vdict_get _ key = VNone"

fun json_compatible :: "nat \<Rightarrow> nat \<Rightarrow> 'o pyval \<Rightarrow> bool" where
  "json_compatible max_depth depth (VList xs) \<longleftrightarrow>
     depth \<le> max_depth \<and> (\<forall>x \<in> set xs. json_compatible max_depth (depth + 1) x)"
| "json_compatible max_depth depth (VDict kvs) \<longleftrightarrow>
     depth \<le> max_depth \<and> (\<forall>kv \<in> set kvs. is_str (fst kv) \<and> json_compatible max_depth (depth + 1) (snd kv))"
| "json_compatible max_depth depth (VTime t) \<longleftrightarrow> False"
| "json_compatible max_depth depth (VObj x) \<longleftrightarrow> False"
| "json_compatible max_depth depth _ \<longleftrightarrow> depth \<le> max_depth"

section \<open>Parsing an expression\<close>

datatype binding_source = Payload | Envelope | Context

datatype parse_error =
    ExpressionMalformed | InvalidSource | PathTooDeep | ExpressionTooLong | EmptyPathSegment | InvalidContextPath

definition max_expression_length :: nat where "max_expression_length = 256"

definition max_path_segments :: nat where "max_path_segments = 20"

definition valid_context_paths :: "string list" where
  "valid_context_paths = [''now_iso'', ''dispatcher_id'', ''correlation_id'']"

definition source_named :: "string \<Rightarrow> binding_source option" where
  "source_named name =
     (if name = ''payload'' then Some Payload else if name = ''envelope'' then Some Envelope
      else if name = ''context'' then Some Context else None)"

definition is_lower :: "char \<Rightarrow> bool" where
  "is_lower c \<longleftrightarrow> 97 \<le> (of_char c :: nat) \<and> (of_char c :: nat) \<le> 122"

definition is_upper :: "char \<Rightarrow> bool" where
  "is_upper c \<longleftrightarrow> 65 \<le> (of_char c :: nat) \<and> (of_char c :: nat) \<le> 90"

definition is_path_char :: "char \<Rightarrow> bool" where
  "is_path_char c \<longleftrightarrow> is_lower c \<or> is_upper c \<or> is_dec_digit c \<or> c = CHR ''_'' \<or> c = CHR ''.''"

text \<open>
  \<^verbatim>\<open>^\$\{([a-z]+)\.([a-zA-Z0-9_.]+)\}$\<close> and its two groups; the final anchor also matches before
  one newline at the end.
\<close>

definition expression_pattern :: "string \<Rightarrow> (string \<times> string) option" where
  "expression_pattern expression =
     (let body = (if expression \<noteq> [] \<and> last expression = CHR 0x0A then butlast expression else expression);
          inner = butlast (drop 2 body);
          name = takeWhile is_lower inner;
          rest = dropWhile is_lower inner
      in if take 2 body = ''${'' \<and> 2 < length body \<and> last body = CHR ''}'' \<and> name \<noteq> [] \<and>
           rest \<noteq> [] \<and> hd rest = CHR ''.'' \<and> tl rest \<noteq> [] \<and> list_all is_path_char (tl rest)
         then Some (name, tl rest) else None)"

definition parse_expression ::
  "nat option \<Rightarrow> nat option \<Rightarrow> string list \<Rightarrow> string \<Rightarrow> parse_error + (binding_source \<times> string list)" where
  "parse_expression max_length max_segments extra_paths expression =
     (if length expression > or_else max_length max_expression_length then Err ExpressionTooLong
      else if CHR ''['' \<in> set expression \<or> CHR '']'' \<in> set expression then Err ExpressionMalformed
      else case expression_pattern expression of
        None \<Rightarrow> Err ExpressionMalformed
      | Some (name, path) \<Rightarrow>
          (case source_named name of
             None \<Rightarrow> Err InvalidSource
           | Some source \<Rightarrow>
               let segments = py_split CHR ''.'' path in
               if [] \<in> set segments then Err EmptyPathSegment
               else if length segments > or_else max_segments max_path_segments then Err PathTooDeep
               else if source = Context \<and> hd segments \<notin> set (valid_context_paths @ extra_paths)
                 then Err InvalidContextPath
               else Ok (source, segments)))"

section \<open>Resolving a binding\<close>

record 'o binding =
  bi_parameter_name :: string
  bi_source :: binding_source
  bi_path_segments :: "string list"
  bi_required :: bool
  bi_default :: "'o pyval"
  bi_original_expression :: string

record 'o bindings_subcontract =
  bs_additional_context_paths :: "string list"
  bs_bindings :: "(string, 'o binding list) py_dict"
  bs_global_bindings :: "'o binding list option"
  bs_max_json_recursion_depth :: nat

text \<open>\<open>None\<close> stands for an exception of the attribute access.\<close>

fun traverse :: "'o getattr \<Rightarrow> 'o pyval \<Rightarrow> string list \<Rightarrow> 'o pyval option" where
  "traverse attr current [] = Some current"
| "traverse attr current (segment # segments) =
     (if current = VNone then Some VNone
      else if is_dict current then traverse attr (vdict_get current segment) segments
      else case attr current segment of
        AttrRaises \<Rightarrow> None
      | Attr v \<Rightarrow> traverse attr v segments
      | NoAttr \<Rightarrow> Some VNone)"

definition traverse_path :: "'o getattr \<Rightarrow> nat \<Rightarrow> 'o pyval \<Rightarrow> string list \<Rightarrow> 'o pyval option" where
  "traverse_path attr max_depth obj segments =
     (case traverse attr obj segments of
        None \<Rightarrow> None
      | Some v \<Rightarrow> Some (if json_compatible max_depth 0 v then v else VNone))"

definition get_payload :: "'o getattr \<Rightarrow> 'o pyval \<Rightarrow> 'o pyval option" where
  "get_payload attr envelope =
     (if is_dict envelope then Some (vdict_get envelope ''payload'')
      else case attr envelope ''payload'' of
        AttrRaises \<Rightarrow> None | Attr v \<Rightarrow> Some v | NoAttr \<Rightarrow> Some VNone)"

definition resolve_single_binding ::
  "'o getattr \<Rightarrow> nat \<Rightarrow> 'o pyval \<Rightarrow> 'o pyval \<Rightarrow> 'o binding \<Rightarrow> 'o pyval option" where
  "resolve_single_binding attr max_depth envelope ctx b =
     (case (case bi_source b of Payload \<Rightarrow> get_payload attr envelope | Envelope \<Rightarrow> Some envelope
              | Context \<Rightarrow> Some ctx) of
        None \<Rightarrow> None
      | Some source_obj \<Rightarrow>
          if source_obj = VNone then Some VNone
          else traverse_path attr max_depth source_obj (bi_path_segments b))"

datatype binding_error =
  BindingResolutionError (be_operation: string) (be_parameter: string) (be_expression: string)
    (be_missing_segment: "string option") (be_correlation: "uuid option")

text \<open>One pass of the loop body: the value of a binding, or the error that ends the resolution.\<close>

definition binding_value ::
  "'o getattr \<Rightarrow> string \<Rightarrow> nat \<Rightarrow> 'o pyval \<Rightarrow> 'o pyval \<Rightarrow> uuid option \<Rightarrow> 'o binding \<Rightarrow> binding_error + 'o pyval" where
  "binding_value attr operation max_depth envelope ctx cid b =
     (let failed = (\<lambda>missing. Err (BindingResolutionError operation (bi_parameter_name b)
            (bi_original_expression b) missing cid))
      in case resolve_single_binding attr max_depth envelope ctx b of
        None \<Rightarrow> failed None
      | Some v \<Rightarrow>
          if v = VNone \<and> bi_required b
          then failed (if bi_path_segments b = [] then None else Some (last (bi_path_segments b)))
          else Ok (if v = VNone \<and> bi_default b \<noteq> VNone then bi_default b else v))"

section \<open>Metrics\<close>

record resolution_metrics =
  rm_total :: int
  rm_successful :: int
  rm_failed :: int
  rm_bindings_resolved :: int
  rm_total_latency :: real
  rm_min_latency :: "real option"
  rm_max_latency :: "real option"
  rm_histogram :: "(string, int) py_dict"
  rm_per_operation :: "(string, int) py_dict"
  rm_per_operation_errors :: "(string, int) py_dict"

definition latency_buckets :: "(real \<times> string) list" where
  "latency_buckets = [(1/10, ''le_0.1ms''), (1/2, ''le_0.5ms''), (1, ''le_1ms''), (5/2, ''le_2.5ms''),
     (5, ''le_5ms''), (10, ''le_10ms''), (25, ''le_25ms''), (50, ''le_50ms''), (100, ''le_100ms'')]"

text \<open>From 1 ms on the label is the integer part, so 2.5 ms falls under \<^verbatim>\<open>le_2ms\<close>.\<close>

definition bucket_label :: "real \<times> string \<Rightarrow> string" where
  "bucket_label b = (if fst b < 1 then snd b else ''le_'' @ string_of_int \<lfloor>fst b\<rfloor> @ ''ms'')"

definition histogram_bucket :: "real \<Rightarrow> string" where
  "histogram_bucket duration_ms =
     (case filter (\<lambda>b. duration_ms \<le> fst b) latency_buckets of
        [] \<Rightarrow> ''gt_100ms'' | b # _ \<Rightarrow> bucket_label b)"

definition empty_resolution_metrics :: resolution_metrics where
  "empty_resolution_metrics = \<lparr>rm_total = 0, rm_successful = 0, rm_failed = 0, rm_bindings_resolved = 0,
     rm_total_latency = 0, rm_min_latency = None, rm_max_latency = None,
     rm_histogram = map (\<lambda>b. (snd b, 0)) latency_buckets @ [(''gt_100ms'', 0)],
     rm_per_operation = [], rm_per_operation_errors = []\<rparr>"

definition bump :: "'k \<Rightarrow> ('k, int) py_dict \<Rightarrow> ('k, int) py_dict" where
  "bump k d = dict_put k (or_else (dict_get d k) 0 + 1) d"

definition record_resolution ::
  "real \<Rightarrow> bool \<Rightarrow> string \<Rightarrow> int \<Rightarrow> resolution_metrics \<Rightarrow> resolution_metrics" where
  "record_resolution duration_ms success operation bindings_resolved m =
     m\<lparr>rm_total := rm_total m + 1,
       rm_successful := rm_successful m + (if success then 1 else 0),
       rm_failed := rm_failed m + (if success then 0 else 1),
       rm_bindings_resolved := rm_bindings_resolved m + bindings_resolved,
       rm_total_latency := rm_total_latency m + duration_ms,
       rm_min_latency := Some (case rm_min_latency m of None \<Rightarrow> duration_ms | Some x \<Rightarrow> min x duration_ms),
       rm_max_latency := Some (case rm_max_latency m of None \<Rightarrow> duration_ms | Some x \<Rightarrow> max x duration_ms),
       rm_histogram := bump (histogram_bucket duration_ms) (rm_histogram m),
       rm_per_operation := bump operation (rm_per_operation m),
       rm_per_operation_errors := (if success then rm_per_operation_errors m
         else bump operation (rm_per_operation_errors m))\<rparr>"

section \<open>Resolving an operation\<close>

record 'o resolution =
  rs_operation_name :: string
  rs_resolved_parameters :: "(string, 'o pyval) py_dict"
  rs_resolved_from :: "(string, string) py_dict"

definition bindings_to_process :: "'o bindings_subcontract \<Rightarrow> string \<Rightarrow> 'o binding list" where
  "bindings_to_process sub operation =
     or_else (bs_global_bindings sub) [] @ or_else (dict_get (bs_bindings sub) operation) []"

fun resolve_loop ::
  "('o binding \<Rightarrow> binding_error + 'o pyval) \<Rightarrow> 'o binding list \<Rightarrow> 'o resolution \<Rightarrow>
   (binding_error option) \<times> 'o resolution" where
  "resolve_loop value_of [] r = (None, r)"
| "resolve_loop value_of (b # bs) r =
     (case value_of b of
        Err e \<Rightarrow> (Some e, r)
      | Ok v \<Rightarrow> resolve_loop value_of bs
          (r\<lparr>rs_resolved_parameters := dict_put (bi_parameter_name b) v (rs_resolved_parameters r),
             rs_resolved_from := dict_put (bi_parameter_name b) (bi_original_expression b) (rs_resolved_from r)\<rparr>))"

definition resolve ::
  "'o getattr \<Rightarrow> real \<Rightarrow> string \<Rightarrow> 'o bindings_subcontract \<Rightarrow> 'o pyval \<Rightarrow> 'o pyval \<Rightarrow> uuid option \<Rightarrow>
   resolution_metrics \<Rightarrow> (binding_error + 'o resolution) \<times> resolution_metrics" where
  "resolve attr duration_ms operation sub envelope ctx cid m =
     (let (err, r) = resolve_loop
            (binding_value attr operation (bs_max_json_recursion_depth sub) envelope ctx cid)
            (bindings_to_process sub operation)
            \<lparr>rs_operation_name = operation, rs_resolved_parameters = [], rs_resolved_from = []\<rparr>;
          n = int (length (rs_resolved_parameters r))
      in case err of
        Some e \<Rightarrow> (Err e, record_resolution duration_ms False operation n m)
      | None \<Rightarrow> (Ok r, record_resolution duration_ms True operation n m))"

end
