(* ===== verification/DlqTopics.thy ===== *)
theory DlqTopics imports EndpointAllowlist InfraErrors begin

text \<open>
  The dead letter topics of \<^verbatim>\<open>event_bus/topic_constants.py\<close>: building, parsing, and the choice of a topic
  for a message nobody handles. The category of a topic and its plural form belong to the core library
  and are arguments. A pattern that ends in \<^verbatim>\<open>$\<close> also matches before one final newline.
\<close>

definition dlq_category_char :: "char \<Rightarrow> bool" where
  "dlq_category_char c \<longleftrightarrow>
     97 \<le> (of_char c :: nat) \<and> (of_char c :: nat) \<le> 122 \<or> is_dec_digit c \<or> c = CHR ''_'' \<or> c = CHR ''-''"

definition dlq_category :: "string \<Rightarrow> bool" where
  "dlq_category s \<longleftrightarrow> s \<noteq> [] \<and> 97 \<le> (of_char (hd s) :: nat) \<and> (of_char (hd s) :: nat) \<le> 122 \<and>
     list_all dlq_category_char s"

definition before_newline :: "string \<Rightarrow> string" where
  "before_newline s = (if s \<noteq> [] \<and> last s = CHR 0x0A then butlast s else s)"

definition dlq_category_pattern :: "string \<Rightarrow> bool" where
  "dlq_category_pattern s \<longleftrightarrow> dlq_category (before_newline s)"

definition normalize_category :: "string \<Rightarrow> string" where
  "normalize_category c =
     (if c \<in> {''intent'', ''intents''} then ''intents''
      else if c \<in> {''event'', ''events''} then ''events''
      else if c \<in> {''command'', ''commands''} then ''commands'' else c)"

definition build_dlq_topic :: "uuid \<Rightarrow> string option \<Rightarrow> string \<Rightarrow> infra_error + string" where
  "build_dlq_topic fresh version category =
     (let cat = py_strip (map ascii_lower category);
          invalid = Err (ProtocolConfigurationError
            (with_correlation fresh None (Some KAFKA) (Some ''build_dlq_topic'') None) (Some ''category'') None)
      in if cat = [] then invalid
         else if \<not> dlq_category_pattern cat then invalid
         else Ok (join_with CHR ''.'' [''onex'', ''dlq'', ''omnibase-infra'', normalize_category cat,
           case version of None \<Rightarrow> ''v1'' | Some v \<Rightarrow> if v = [] then ''v1'' else v]))"

definition get_dlq_topic_for_original :: "uuid \<Rightarrow> (string \<Rightarrow> string option) \<Rightarrow> string \<Rightarrow> infra_error + string option" where
  "get_dlq_topic_for_original fresh category_suffix original_topic =
     (case category_suffix original_topic of
        None \<Rightarrow> Ok None | Some suffix \<Rightarrow> map_sum id Some (build_dlq_topic fresh None suffix))"

definition derive_dlq_topic_for_event_type ::
  "uuid \<Rightarrow> (string \<Rightarrow> string option) \<Rightarrow> string option \<Rightarrow> string \<Rightarrow> infra_error + string option" where
  "derive_dlq_topic_for_event_type fresh category_suffix event_type original_topic =
     (let normalized = (case event_type of None \<Rightarrow> [] | Some t \<Rightarrow> py_strip t) in
      if normalized \<noteq> [] then
        let prefix = takeWhile (\<lambda>c. c \<noteq> CHR ''.'') normalized;
            domain = map ascii_lower (if prefix \<noteq> [] \<and> CHR ''.'' \<in> set normalized then prefix else normalized)
        in if dlq_category_pattern domain then map_sum id Some (build_dlq_topic fresh None domain) else Ok None
      else get_dlq_topic_for_original fresh category_suffix original_topic)"

section \<open>Parsing\<close>

text \<open>\<^verbatim>\<open>[\w-]+\<close> and \<^verbatim>\<open>v\d+\<close> on ASCII texts, ignoring case.\<close>

definition word_or_dash :: "char \<Rightarrow> bool" where
  "word_or_dash c \<longleftrightarrow> dlq_category_char (ascii_lower c)"

definition dlq_version :: "string \<Rightarrow> bool" where
  "dlq_version v \<longleftrightarrow> 1 < length v \<and> ascii_lower (hd v) = CHR ''v'' \<and> list_all is_dec_digit (tl v)"

definition parse_dlq_topic :: "string \<Rightarrow> (string \<times> string \<times> string \<times> string) option" where
  "parse_dlq_topic topic =
     (let lower = map ascii_lower;
          ok = (\<lambda>p d c v. p \<noteq> [] \<and> list_all word_or_dash p \<and> lower d = ''dlq'' \<and>
            dlq_category (lower c) \<and> dlq_version v)
      in case py_split CHR ''.'' (before_newline topic) of
        [p, d, c, v] \<Rightarrow> if ok p d c v then Some (p, [], c, v) else None
      | [p, d, r, c, v] \<Rightarrow> if ok p d c v \<and> lower r = ''omnibase-infra'' then Some (p, r, c, v) else None
      | _ \<Rightarrow> None)"

end
