(* ===== verification/MessageDispatch.thy ===== *)
theory MessageDispatch imports BindingResolver DlqTopics begin

text \<open>
  The dispatch engine of \<^verbatim>\<open>runtime/message_dispatch_engine.py\<close>: registration of routes and dispatchers
  up to the freeze, the choice of the dispatchers of a message, the preparation of their input
  (bindings, serialised payload, context) and the dispatch itself with its metrics.

  Arguments of the model (record \<open>platform\<close>): the dispatchers, what Python's reflection and text
  conversion return, and the parts that belong to the core library (topic categories, the validation of its
  models). The methods of a route and the payload matchers are functions in their records. One engine
  operation runs at a time; the locks make each of them atomic. Durations and times are arguments; message
  texts are not modelled.
\<close>

section \<open>Enumerations, contexts\<close>

datatype message_category = EVENT | COMMAND | INTENT

datatype node_kind = REDUCER | COMPUTE | ORCHESTRATOR | EFFECT | NODE_RUNTIME_HOST | OtherKind string

datatype core_code =
    INVALID_PARAMETER | INVALID_STATE | DUPLICATE_REGISTRATION | ITEM_NOT_REGISTERED
  | INVALID_CONFIGURATION | INTERNAL_ERROR | VALIDATION_ERROR | ENVELOPE_VALIDATION_FAILED
  | HANDLER_EXECUTION_ERROR

datatype engine_error = OnexError core_code | BadNodeKind | MissingAttribute | MatcherError | Interrupted

record dispatch_context =
  dc_correlation_id :: uuid
  dc_now :: "timestamp option"
  dc_node_kind :: node_kind

definition is_invalid_time_injection :: "dispatch_context \<Rightarrow> bool" where
  "is_invalid_time_injection c \<longleftrightarrow> dc_node_kind c \<in> {REDUCER, COMPUTE} \<and> dc_now c \<noteq> None"

text \<open>The validator of the model; \<open>None\<close> is its \<open>ValueError\<close>.\<close>

definition mk_dispatch_context :: "dispatch_context \<Rightarrow> dispatch_context option" where
  "mk_dispatch_context c = (if is_invalid_time_injection c then None else Some c)"

definition create_context_for_node_kind ::
  "node_kind \<Rightarrow> uuid \<Rightarrow> timestamp \<Rightarrow> dispatch_context option" where
  "create_context_for_node_kind kind cid now =
     (case kind of
        REDUCER \<Rightarrow> mk_dispatch_context \<lparr>dc_correlation_id = cid, dc_now = None, dc_node_kind = kind\<rparr>
      | COMPUTE \<Rightarrow> mk_dispatch_context \<lparr>dc_correlation_id = cid, dc_now = None, dc_node_kind = kind\<rparr>
      | OtherKind _ \<Rightarrow> None
      | _ \<Rightarrow> mk_dispatch_context \<lparr>dc_correlation_id = cid, dc_now = Some now, dc_node_kind = kind\<rparr>)"

section \<open>Routes, dispatchers, the engine\<close>

record route =
  rt_route_id :: string
  rt_enabled :: bool
  rt_category :: message_category
  rt_message_type :: "string option"
  rt_dispatcher_id :: "string option"
  rt_handler_id :: "string option"
  rt_matches_topic :: "string \<Rightarrow> bool"
  rt_matches :: "string \<Rightarrow> message_category \<Rightarrow> string \<Rightarrow> bool"

definition route_dispatcher_id :: "route \<Rightarrow> string option" where
  "route_dispatcher_id r = (case rt_dispatcher_id r of None \<Rightarrow> rt_handler_id r | Some i \<Rightarrow> Some i)"

datatype match_reply = Matches | Rejects "string option" | MatcherRaises

record ('d, 'o) dispatch_entry =
  de_dispatcher_id :: string
  de_dispatcher :: 'd
  de_category :: message_category
  de_message_types :: "string list option"
  de_node_kind :: "node_kind option"
  de_accepts_context :: bool
  de_bindings :: "'o bindings_subcontract option"
  de_matcher :: "('o pyval \<Rightarrow> match_reply) option"
  de_owner :: "string option"

record dispatcher_metrics =
  dm_execution_count :: int
  dm_success_count :: int
  dm_error_count :: int
  dm_total_latency :: real
  dm_min_latency :: real
  dm_max_latency :: real
  dm_last_topic :: string

record dispatch_metrics =
  ds_total :: int
  ds_successful :: int
  ds_failed :: int
  ds_no_dispatcher :: int
  ds_category_mismatch :: int
  ds_executions :: int
  ds_errors :: int
  ds_routes_matched :: int
  ds_total_latency :: real
  ds_min_latency :: "real option"
  ds_max_latency :: "real option"
  ds_histogram :: "(string, int) py_dict"
  ds_dispatchers :: "(string, dispatcher_metrics) py_dict"
  ds_categories :: "(string, int) py_dict"

record ('d, 'o) engine =
  en_routes :: "(string, route) py_dict"
  en_dispatchers :: "(string, ('d, 'o) dispatch_entry) py_dict"
  en_by_category :: "message_category \<Rightarrow> string list"
  en_frozen :: bool
  en_metrics :: dispatch_metrics
  en_resolution_metrics :: resolution_metrics

section \<open>Metrics\<close>

definition new_dispatcher_metrics :: dispatcher_metrics where
  "new_dispatcher_metrics = \<lparr>dm_execution_count = 0, dm_success_count = 0, dm_error_count = 0,
     dm_total_latency = 0, dm_min_latency = - 1, dm_max_latency = - 1, dm_last_topic = []\<rparr>"

definition record_execution :: "real \<Rightarrow> bool \<Rightarrow> string \<Rightarrow> dispatcher_metrics \<Rightarrow> dispatcher_metrics" where
  "record_execution duration_ms success topic m =
     m\<lparr>dm_execution_count := dm_execution_count m + 1,
       dm_success_count := dm_success_count m + (if success then 1 else 0),
       dm_error_count := dm_error_count m + (if success then 0 else 1),
       dm_total_latency := dm_total_latency m + duration_ms,
       dm_min_latency := (if dm_min_latency m < 0 then duration_ms else min (dm_min_latency m) duration_ms),
       dm_max_latency := (if dm_max_latency m < 0 then duration_ms else max (dm_max_latency m) duration_ms),
       dm_last_topic := (if topic = [] then dm_last_topic m else topic)\<rparr>"

definition dispatch_buckets :: "(real \<times> string) list" where
  "dispatch_buckets = map (\<lambda>t. (real_of_int t, ''le_'' @ string_of_int t @ ''ms''))
     [1, 5, 10, 25, 50, 100, 250, 500, 1000, 2500, 5000, 10000]"

definition dispatch_histogram_bucket :: "real \<Rightarrow> string" where
  "dispatch_histogram_bucket duration_ms =
     (case filter (\<lambda>b. duration_ms \<le> fst b) dispatch_buckets of [] \<Rightarrow> ''gt_10000ms'' | b # _ \<Rightarrow> snd b)"

fun category_key :: "message_category \<Rightarrow> string" where
  "category_key EVENT = ''event''"
| "category_key COMMAND = ''command''"
| "category_key INTENT = ''intent''"

definition new_dispatch_metrics :: dispatch_metrics where
  "new_dispatch_metrics = \<lparr>ds_total = 0, ds_successful = 0, ds_failed = 0, ds_no_dispatcher = 0,
     ds_category_mismatch = 0, ds_executions = 0, ds_errors = 0, ds_routes_matched = 0, ds_total_latency = 0,
     ds_min_latency = None, ds_max_latency = None,
     ds_histogram = map (\<lambda>b. (snd b, 0)) dispatch_buckets @ [(''gt_10000ms'', 0)], ds_dispatchers = [],
     ds_categories = [(''event'', 0), (''command'', 0), (''intent'', 0), (''projection'', 0)]\<rparr>"

text \<open>The engine always passes \<open>dispatcher_id = None\<close>, \<open>handler_error = False\<close> and no category mismatch.\<close>

definition record_dispatch ::
  "real \<Rightarrow> bool \<Rightarrow> message_category option \<Rightarrow> bool \<Rightarrow> nat \<Rightarrow> dispatch_metrics \<Rightarrow> dispatch_metrics" where
  "record_dispatch duration_ms success category no_dispatcher routes_matched m =
     m\<lparr>ds_total := ds_total m + 1,
       ds_successful := ds_successful m + (if success then 1 else 0),
       ds_failed := ds_failed m + (if success then 0 else 1),
       ds_no_dispatcher := ds_no_dispatcher m + (if no_dispatcher then 1 else 0),
       ds_routes_matched := ds_routes_matched m + int routes_matched,
       ds_total_latency := ds_total_latency m + duration_ms,
       ds_min_latency := Some (case ds_min_latency m of None \<Rightarrow> duration_ms | Some x \<Rightarrow> min x duration_ms),
       ds_max_latency := Some (case ds_max_latency m of None \<Rightarrow> duration_ms | Some x \<Rightarrow> max x duration_ms),
       ds_histogram := bump (dispatch_histogram_bucket duration_ms) (ds_histogram m),
       ds_categories := (case category of None \<Rightarrow> ds_categories m
         | Some c \<Rightarrow> bump (category_key c) (ds_categories m))\<rparr>"

text \<open>The inline update of the dispatcher loop.\<close>

definition record_dispatcher_run ::
  "string \<Rightarrow> real \<Rightarrow> bool \<Rightarrow> string \<Rightarrow> dispatch_metrics \<Rightarrow> dispatch_metrics" where
  "record_dispatcher_run dispatcher_id duration_ms success topic m =
     (let existing = or_else (dict_get (ds_dispatchers m) dispatcher_id) new_dispatcher_metrics in
      m\<lparr>ds_executions := ds_executions m + 1,
        ds_errors := ds_errors m + (if success then 0 else 1),
        ds_dispatchers := dict_put dispatcher_id (record_execution duration_ms success topic existing)
          (ds_dispatchers m)\<rparr>)"

section \<open>Registration\<close>

definition new_engine :: "('d, 'o) engine" where
  "new_engine = \<lparr>en_routes = [], en_dispatchers = [], en_by_category = (\<lambda>c. []), en_frozen = False,
     en_metrics = new_dispatch_metrics, en_resolution_metrics = empty_resolution_metrics\<rparr>"

definition blank :: "string \<Rightarrow> bool" where
  "blank s \<longleftrightarrow> s = [] \<or> py_strip s = []"

definition canonical :: "string \<Rightarrow> bool" where
  "canonical s \<longleftrightarrow> s \<noteq> [] \<and> s = py_strip s"

text \<open>
  The debug message after the insertion reads the dispatcher of the route; a route that names none raises
  there, when it is already registered.
\<close>

definition register_route :: "route option \<Rightarrow> ('d, 'o) engine \<Rightarrow> (engine_error + unit) \<times> ('d, 'o) engine" where
  "register_route route_or_none e =
     (case route_or_none of
        None \<Rightarrow> (Err (OnexError INVALID_PARAMETER), e)
      | Some r \<Rightarrow>
          if en_frozen e then (Err (OnexError INVALID_STATE), e)
          else if dict_get (en_routes e) (rt_route_id r) \<noteq> None
            then (Err (OnexError DUPLICATE_REGISTRATION), e)
          else (if route_dispatcher_id r = None then Err MissingAttribute else Ok (),
            e\<lparr>en_routes := dict_put (rt_route_id r) r (en_routes e)\<rparr>))"

text \<open>
  The arguments of a registration: \<open>None\<close> for an object that is not callable, a category that cannot
  be coerced, a node kind of another type; the signature is what the inspection returns, if it works.
\<close>

record ('d, 'o) registration =
  rg_dispatcher_id :: string
  rg_dispatcher :: "'d option"
  rg_category :: "message_category option"
  rg_message_types :: "string list option"
  rg_node_kind :: "node_kind option option"
  rg_signature :: "string list option"
  rg_bindings :: "'o bindings_subcontract option"
  rg_matcher :: "('o pyval \<Rightarrow> match_reply) option"
  rg_owner :: "string option"

definition validate_dispatcher_registration ::
  "('d, 'o) registration \<Rightarrow> engine_error + ('d \<times> message_category)" where
  "validate_dispatcher_registration g =
     (if blank (rg_dispatcher_id g) then Err (OnexError INVALID_PARAMETER)
      else case rg_dispatcher g of
        None \<Rightarrow> Err (OnexError INVALID_PARAMETER)
      | Some d \<Rightarrow> (case rg_category g of
          None \<Rightarrow> Err (OnexError INVALID_PARAMETER) | Some c \<Rightarrow> Ok (d, c)))"

definition dispatcher_accepts_context :: "string list option \<Rightarrow> bool" where
  "dispatcher_accepts_context signature = (case signature of None \<Rightarrow> False | Some ps \<Rightarrow> \<not> length ps < 2)"

definition register_dispatcher_unlocked ::
  "'d \<Rightarrow> message_category \<Rightarrow> node_kind option \<Rightarrow> 'o bindings_subcontract option \<Rightarrow> ('d, 'o) registration \<Rightarrow>
   ('d, 'o) engine \<Rightarrow> (engine_error + unit) \<times> ('d, 'o) engine" where
  "register_dispatcher_unlocked d category kind bindings g e =
     (if dict_get (en_dispatchers e) (rg_dispatcher_id g) \<noteq> None then (Err (OnexError DUPLICATE_REGISTRATION), e)
      else if (case rg_owner g of None \<Rightarrow> False | Some owner \<Rightarrow> \<not> canonical owner)
        then (Err (OnexError INVALID_PARAMETER), e)
      else
        let entry = \<lparr>de_dispatcher_id = rg_dispatcher_id g, de_dispatcher = d, de_category = category,
              de_message_types = rg_message_types g, de_node_kind = kind,
              de_accepts_context = dispatcher_accepts_context (rg_signature g), de_bindings = bindings,
              de_matcher = rg_matcher g, de_owner = rg_owner g\<rparr>
        in (Ok (), e\<lparr>en_dispatchers := dict_put (rg_dispatcher_id g) entry (en_dispatchers e),
              en_by_category := (en_by_category e)
                (category := en_by_category e category @ [rg_dispatcher_id g])\<rparr>))"

definition register_dispatcher ::
  "('d, 'o) registration \<Rightarrow> ('d, 'o) engine \<Rightarrow> (engine_error + unit) \<times> ('d, 'o) engine" where
  "register_dispatcher g e =
     (case validate_dispatcher_registration g of
        Err err \<Rightarrow> (Err err, e)
      | Ok (d, category) \<Rightarrow>
          (case rg_node_kind g of
             None \<Rightarrow> (Err BadNodeKind, e)
           | Some kind \<Rightarrow>
               if en_frozen e then (Err (OnexError INVALID_STATE), e)
               else register_dispatcher_unlocked d category kind (rg_bindings g) g e))"

definition freeze :: "('d, 'o) engine \<Rightarrow> (engine_error + unit) \<times> ('d, 'o) engine" where
  "freeze e =
     (if en_frozen e then (Ok (), e)
      else case find (\<lambda>(_, r). case route_dispatcher_id r of None \<Rightarrow> True
             | Some i \<Rightarrow> dict_get (en_dispatchers e) i = None) (en_routes e) of
        Some (_, r) \<Rightarrow> (Err (if route_dispatcher_id r = None then MissingAttribute
          else OnexError ITEM_NOT_REGISTERED), e)
      | None \<Rightarrow> (Ok (), e\<lparr>en_frozen := True\<rparr>))"

definition register_dispatcher_dynamic ::
  "('d, 'o) registration \<Rightarrow> ('d, 'o) engine \<Rightarrow> (engine_error + unit) \<times> ('d, 'o) engine" where
  "register_dispatcher_dynamic g e =
     (case validate_dispatcher_registration g of
        Err err \<Rightarrow> (Err err, e)
      | Ok (d, category) \<Rightarrow> register_dispatcher_unlocked d category None None g e)"

definition register_route_dynamic ::
  "route option \<Rightarrow> ('d, 'o) engine \<Rightarrow> (engine_error + unit) \<times> ('d, 'o) engine" where
  "register_route_dynamic route_or_none e =
     (case route_or_none of
        None \<Rightarrow> (Err (OnexError INVALID_PARAMETER), e)
      | Some r \<Rightarrow>
          if dict_get (en_routes e) (rt_route_id r) \<noteq> None then (Err (OnexError DUPLICATE_REGISTRATION), e)
          else case route_dispatcher_id r of
            None \<Rightarrow> (Err MissingAttribute, e)
          | Some i \<Rightarrow>
              if dict_get (en_dispatchers e) i = None then (Err (OnexError ITEM_NOT_REGISTERED), e)
              else (Ok (), e\<lparr>en_routes := dict_put (rt_route_id r) r (en_routes e)\<rparr>))"

definition reset_metrics :: "('d, 'o) engine \<Rightarrow> ('d, 'o) engine" where
  "reset_metrics e = e\<lparr>en_metrics := new_dispatch_metrics\<rparr>"


section \<open>Checks before a batch of registrations\<close>

definition first_repeated :: "string list \<Rightarrow> bool" where
  "first_repeated xs \<longleftrightarrow> \<not> distinct xs"

definition validate_registration_batch ::
  "string list \<Rightarrow> string list \<Rightarrow> (string, string) py_dict \<Rightarrow> bool \<Rightarrow> ('d, 'o) engine \<Rightarrow> engine_error + unit" where
  "validate_registration_batch dispatcher_ids route_ids owners allow_frozen e =
     (let ids_error = (\<lambda>ids. if \<not> list_all canonical ids then Some INVALID_PARAMETER
            else if first_repeated ids then Some DUPLICATE_REGISTRATION else None)
      in case ids_error dispatcher_ids of
        Some c \<Rightarrow> Err (OnexError c)
      | None \<Rightarrow> (case ids_error route_ids of
          Some c \<Rightarrow> Err (OnexError c)
        | None \<Rightarrow>
            if fst ` set owners \<noteq> set dispatcher_ids \<or> \<not> list_all (canonical \<circ> snd) owners
              then Err (OnexError INVALID_CONFIGURATION)
            else if en_frozen e \<and> \<not> allow_frozen \<and> (dispatcher_ids \<noteq> [] \<or> route_ids \<noteq> [])
              then Err (OnexError INVALID_STATE)
            else if list_ex (\<lambda>i. dict_get (en_dispatchers e) i \<noteq> None) dispatcher_ids
              then Err (OnexError DUPLICATE_REGISTRATION)
            else if list_ex (\<lambda>i. dict_get (en_routes e) i \<noteq> None) route_ids
              then Err (OnexError DUPLICATE_REGISTRATION)
            else if list_ex (\<lambda>(_, d). \<exists>(_, owner) \<in> set owners. de_owner d = Some owner) (en_dispatchers e)
              then Err (OnexError INVALID_CONFIGURATION)
            else Ok ()))"

definition owner_scope :: "string \<Rightarrow> ('d, 'o) engine \<Rightarrow> string set" where
  "owner_scope contract_name e =
     fst ` set (filter (\<lambda>(_, d). de_owner d = Some contract_name) (en_dispatchers e))"

definition validate_contract_dispatcher_scope ::
  "string \<Rightarrow> string list \<Rightarrow> ('d, 'o) engine \<Rightarrow> engine_error + string set" where
  "validate_contract_dispatcher_scope contract_name dispatcher_ids e =
     (if \<not> canonical contract_name \<or> \<not> list_all canonical dispatcher_ids \<or> first_repeated dispatcher_ids
        then Err (OnexError INVALID_CONFIGURATION)
      else if list_ex (\<lambda>i. dict_get (en_dispatchers e) i = None) dispatcher_ids
        then Err (OnexError ITEM_NOT_REGISTERED)
      else if list_ex (\<lambda>i. map_option de_owner (dict_get (en_dispatchers e) i) \<noteq> Some (Some contract_name))
        dispatcher_ids then Err (OnexError INVALID_CONFIGURATION)
      else if set dispatcher_ids \<noteq> owner_scope contract_name e then Err (OnexError INVALID_CONFIGURATION)
      else Ok (owner_scope contract_name e))"

section \<open>Choosing the dispatchers\<close>

record 'o criteria =
  cr_topic :: string
  cr_category :: message_category
  cr_message_type :: string
  cr_payload :: "'o pyval"
  cr_scope :: "string list option"

record scoping_outcome =
  so_rejected :: bool
  so_detail :: "string option"

definition payload_matches_dispatcher :: "('d, 'o) dispatch_entry \<Rightarrow> 'o pyval \<Rightarrow> match_reply" where
  "payload_matches_dispatcher d payload = (case de_matcher d of None \<Rightarrow> Matches | Some matcher \<Rightarrow> matcher payload)"

text \<open>The filters of the loop that look at the route alone.\<close>

definition route_applies :: "'o criteria \<Rightarrow> route \<Rightarrow> bool" where
  "route_applies c r \<longleftrightarrow> rt_enabled r \<and> rt_matches_topic r (cr_topic c) \<and> rt_category r = cr_category c \<and>
     (case rt_message_type r of None \<Rightarrow> True | Some t \<Rightarrow> t = cr_message_type c)"

definition in_scope :: "string list option \<Rightarrow> string \<Rightarrow> bool" where
  "in_scope scope i \<longleftrightarrow> (case scope of None \<Rightarrow> True | Some ids \<Rightarrow> i \<in> set ids)"

definition takes_type :: "('d, 'o) dispatch_entry \<Rightarrow> string \<Rightarrow> bool" where
  "takes_type d t \<longleftrightarrow> (case de_message_types d of None \<Rightarrow> True | Some ts \<Rightarrow> t \<in> set ts)"

fun matching_loop ::
  "('d, 'o) engine \<Rightarrow> 'o criteria \<Rightarrow> route list \<Rightarrow> ('d, 'o) dispatch_entry list \<Rightarrow> scoping_outcome \<Rightarrow>
   engine_error + (('d, 'o) dispatch_entry list \<times> scoping_outcome)" where
  "matching_loop e c [] found so = Ok (found, so)"
| "matching_loop e c (r # rs) found so =
     (if \<not> route_applies c r then matching_loop e c rs found so
      else case route_dispatcher_id r of
        None \<Rightarrow> Err MissingAttribute
      | Some i \<Rightarrow>
          if \<not> in_scope (cr_scope c) i then matching_loop e c rs found so
          else if i \<in> set (map de_dispatcher_id found) then matching_loop e c rs found so
          else case dict_get (en_dispatchers e) i of
            None \<Rightarrow> matching_loop e c rs found so
          | Some d \<Rightarrow>
              if \<not> takes_type d (cr_message_type c) then matching_loop e c rs found so
              else if cr_payload c = VNone then matching_loop e c rs (found @ [d]) so
              else case payload_matches_dispatcher d (cr_payload c) of
                Matches \<Rightarrow> matching_loop e c rs (found @ [d]) so
              | Rejects detail \<Rightarrow> matching_loop e c rs found
                  \<lparr>so_rejected = True, so_detail = (case so_detail so of Some t \<Rightarrow> Some t
                     | None \<Rightarrow> if detail = Some [] then None else detail)\<rparr>
              | MatcherRaises \<Rightarrow> Err MatcherError)"

definition find_matching_dispatchers ::
  "('d, 'o) engine \<Rightarrow> 'o criteria \<Rightarrow> engine_error + (('d, 'o) dispatch_entry list \<times> scoping_outcome)" where
  "find_matching_dispatchers e c =
     matching_loop e c (map snd (en_routes e)) [] \<lparr>so_rejected = False, so_detail = None\<rparr>"

section \<open>Preparing the input of a dispatcher\<close>

text \<open>What a dispatcher may return; \<open>Stops\<close> is a cancellation or an exit request.\<close>

datatype ('e, 'i) dispatcher_output =
    NoOutput | Topic string | Topics "string list" | Result "string list option" "'e list" "'i list"
  | WithOutputs "string list option" | OtherOutput

datatype ('e, 'i) reply = Raises | Stops | Returns "('e, 'i) dispatcher_output"

record ('d, 'o, 'e, 'i) platform =
  pf_getattr :: "'o getattr"
  pf_str :: "'o pyval \<Rightarrow> string"
  pf_type_name :: "'o pyval \<Rightarrow> string"
  pf_isoformat :: "timestamp \<Rightarrow> string"
  pf_model_dump :: "'o \<Rightarrow> 'o pyval option"
  pf_vars :: "'o \<Rightarrow> (string \<times> 'o pyval) list option"
  pf_mock_module :: "'o pyval \<Rightarrow> bool"
  pf_parse_uuid :: "string \<Rightarrow> uuid option"
  pf_category_of_topic :: "string \<Rightarrow> message_category option"
  pf_topic_suffix :: "message_category \<Rightarrow> string"
  pf_materialized_ok :: "'o pyval \<Rightarrow> bool"
  pf_outputs_ok :: "string list \<Rightarrow> bool"
  pf_result_ok :: "string list \<Rightarrow> bool"
  pf_call :: "'d \<Rightarrow> 'o pyval \<Rightarrow> dispatch_context option \<Rightarrow> ('e, 'i) reply"

text \<open>\<open>bool(value)\<close>; the objects that occur define no truth value of their own.\<close>

fun truthy :: "'o pyval \<Rightarrow> bool" where
  "truthy VNone = False"
| "truthy (VBool b) = b"
| "truthy (VInt i) = (i \<noteq> 0)"
| "truthy (VFloat f) = (f \<noteq> Finite 0)"
| "truthy (VStr s) = (s \<noteq> [])"
| "truthy (VList xs) = (xs \<noteq> [])"
| "truthy (VDict kvs) = (kvs \<noteq> [])"
| "truthy _ = True"

text \<open>\<open>getattr(value, name, None)\<close> and plain attribute access; an accessor that raises is no value.\<close>

definition attr_or_none :: "'o getattr \<Rightarrow> 'o pyval \<Rightarrow> string \<Rightarrow> 'o pyval" where
  "attr_or_none attr v name = (case attr v name of Attr x \<Rightarrow> x | _ \<Rightarrow> VNone)"

definition has_attr :: "'o getattr \<Rightarrow> 'o pyval \<Rightarrow> string \<Rightarrow> bool" where
  "has_attr attr v name \<longleftrightarrow> attr v name \<noteq> NoAttr"

definition envelope_field :: "'o getattr \<Rightarrow> 'o pyval \<Rightarrow> string \<Rightarrow> 'o pyval" where
  "envelope_field attr envelope name =
     (if is_dict envelope then vdict_get envelope name else attr_or_none attr envelope name)"

definition extract_operation :: "('d, 'o, 'e, 'i) platform \<Rightarrow> 'o pyval \<Rightarrow> string option" where
  "extract_operation pf envelope =
     (let operation = envelope_field (pf_getattr pf) envelope ''operation''
      in if operation = VNone then None
         else Some (case operation of VStr s \<Rightarrow> s | v \<Rightarrow> pf_str pf v))"

definition extract_correlation_id :: "('d, 'o, 'e, 'i) platform \<Rightarrow> 'o pyval \<Rightarrow> uuid option" where
  "extract_correlation_id pf envelope =
     (case envelope_field (pf_getattr pf) envelope ''correlation_id'' of
        VUuid u \<Rightarrow> Some u | VStr s \<Rightarrow> pf_parse_uuid pf s | _ \<Rightarrow> None)"

fun serialize_value :: "('d, 'o, 'e, 'i) platform \<Rightarrow> 'o pyval \<Rightarrow> 'o pyval" where
  "serialize_value pf (VUuid u) = VStr (uuid_str u)"
| "serialize_value pf (VTime t) = VStr (pf_isoformat pf t)"
| "serialize_value pf (VDict kvs) = VDict (map (\<lambda>kv. (fst kv, serialize_value pf (snd kv))) kvs)"
| "serialize_value pf (VList xs) = VList (map (serialize_value pf) xs)"
| "serialize_value pf (VObj x) = or_else (pf_model_dump pf x) (VStr (pf_str pf (VObj x)))"
| "serialize_value pf v = v"

definition serialize_dict :: "('d, 'o, 'e, 'i) platform \<Rightarrow> (string \<times> 'o pyval) list \<Rightarrow> 'o pyval" where
  "serialize_dict pf kvs = VDict (map (\<lambda>(k, v). (VStr k, serialize_value pf v)) kvs)"

definition original_payload :: "('d, 'o, 'e, 'i) platform \<Rightarrow> 'o pyval \<Rightarrow> 'o pyval" where
  "original_payload pf envelope =
     (case envelope of
        VDict kvs \<Rightarrow> or_else (dict_get kvs (VStr ''payload'')) envelope
      | _ \<Rightarrow> (case pf_getattr pf envelope ''payload'' of Attr v \<Rightarrow> v | _ \<Rightarrow> envelope))"

definition raw_value :: "'o pyval \<Rightarrow> 'o pyval" where
  "raw_value v = VDict [(VStr ''_raw'', v)]"

definition serialize_payload :: "('d, 'o, 'e, 'i) platform \<Rightarrow> 'o pyval \<Rightarrow> 'o pyval" where
  "serialize_payload pf envelope =
     (case original_payload pf envelope of
        VObj x \<Rightarrow> (case pf_model_dump pf x of
          Some json \<Rightarrow> json
        | None \<Rightarrow> (case pf_vars pf x of
            Some attrs \<Rightarrow> serialize_dict pf attrs | None \<Rightarrow> raw_value (VStr (pf_str pf (VObj x)))))
      | VDict kvs \<Rightarrow> serialize_value pf (VDict kvs)
      | VList xs \<Rightarrow> serialize_value pf (VList xs)
      | VUuid u \<Rightarrow> raw_value (VStr (uuid_str u))
      | VTime t \<Rightarrow> raw_value (VStr (pf_str pf (VTime t)))
      | v \<Rightarrow> raw_value v)"


text \<open>\<open>_safe_str\<close>: other values lose the texts that reveal interpreter internals or mocks.\<close>

definition internal_prefixes :: "string list" where
  "internal_prefixes = [''<class '', ''<function '', ''<module '', ''<bound method '', ''<built-in '',
     ''<coroutine '', ''<generator '', ''<async_generator '']"

definition safe_str :: "('d, 'o, 'e, 'i) platform \<Rightarrow> 'o pyval \<Rightarrow> 'o pyval" where
  "safe_str pf v =
     (case v of
        VNone \<Rightarrow> VNone
      | VStr s \<Rightarrow> VStr s
      | VUuid u \<Rightarrow> VStr (uuid_str u)
      | VTime t \<Rightarrow> VStr (pf_isoformat pf t)
      | _ \<Rightarrow>
          let text = pf_str pf v in
          if pf_mock_module pf v then VNone
          else if contains_text ''Mock'' text then VNone
          else if text \<noteq> [] \<and> hd text = CHR ''<'' \<and> last text = CHR ''>'' \<and>
              list_ex (\<lambda>prefix. take (length prefix) text = prefix) internal_prefixes then VNone
          else VStr text)"

definition debug_trace_snapshot :: "('d, 'o, 'e, 'i) platform \<Rightarrow> 'o pyval \<Rightarrow> string \<Rightarrow> 'o pyval" where
  "debug_trace_snapshot pf envelope topic =
     (let field = (\<lambda>name. (VStr name, safe_str pf (envelope_field (pf_getattr pf) envelope name)))
      in VDict [field ''event_type'', field ''correlation_id'', field ''trace_id'', field ''causation_id'',
           (VStr ''topic'', VStr topic), field ''timestamp'', field ''partition_key''])"

text \<open>\<open>None\<close> when the validation of the result fails.\<close>

definition materialize_envelope ::
  "('d, 'o, 'e, 'i) platform \<Rightarrow> 'o pyval \<Rightarrow> (string, 'o pyval) py_dict \<Rightarrow> string \<Rightarrow> 'o pyval option" where
  "materialize_envelope pf envelope bindings topic =
     (let materialized = VDict [(VStr ''payload'', serialize_payload pf envelope),
            (VStr ''__bindings'', serialize_dict pf bindings),
            (VStr ''__debug_trace'', debug_trace_snapshot pf envelope topic)]
      in if pf_materialized_ok pf materialized then Some materialized else None)"

section \<open>Running a dispatcher\<close>

text \<open>
  The times of one dispatch: the clock read for the bindings and for the context of a dispatcher, how long
  its bindings and its run took, and the identifier drawn when the message has no correlation id.
\<close>

record dispatch_clock =
  ck_now :: "string \<Rightarrow> timestamp"
  ck_binding_ms :: "string \<Rightarrow> real"
  ck_dispatcher_ms :: "string \<Rightarrow> real"
  ck_total_ms :: real
  ck_fresh_id :: uuid

definition binding_context ::
  "('d, 'o, 'e, 'i) platform \<Rightarrow> timestamp \<Rightarrow> string \<Rightarrow> uuid option \<Rightarrow> 'o pyval" where
  "binding_context pf now dispatcher_id cid =
     VDict [(VStr ''now_iso'', VStr (pf_isoformat pf now)), (VStr ''dispatcher_id'', VStr dispatcher_id),
       (VStr ''correlation_id'', case cid of None \<Rightarrow> VNone | Some u \<Rightarrow> VUuid u)]"

text \<open>The resolved bindings, \<open>None\<close> when their resolution raises.\<close>

definition dispatcher_bindings ::
  "('d, 'o, 'e, 'i) platform \<Rightarrow> dispatch_clock \<Rightarrow> ('d, 'o) dispatch_entry \<Rightarrow> 'o pyval \<Rightarrow> resolution_metrics \<Rightarrow>
   (string, 'o pyval) py_dict option \<times> resolution_metrics" where
  "dispatcher_bindings pf ck d envelope m =
     (case de_bindings d of
        None \<Rightarrow> (Some [], m)
      | Some sub \<Rightarrow>
          (let cid = extract_correlation_id pf envelope in
           case extract_operation pf envelope of
             None \<Rightarrow> (None, m)
           | Some operation \<Rightarrow>
               let (res, m') = resolve (pf_getattr pf) (ck_binding_ms ck (de_dispatcher_id d)) operation sub envelope
                     (binding_context pf (ck_now ck (de_dispatcher_id d)) (de_dispatcher_id d) cid) cid m
               in (case res of Err _ \<Rightarrow> None | Ok r \<Rightarrow> Some (rs_resolved_parameters r), m')))"

text \<open>
  The context enforcer reads \<open>envelope.correlation_id\<close> and \<open>envelope.trace_id\<close> as attributes, which a
  dictionary does not have; \<open>None\<close> for the error.
\<close>

definition dispatcher_context ::
  "('d, 'o, 'e, 'i) platform \<Rightarrow> dispatch_clock \<Rightarrow> ('d, 'o) dispatch_entry \<Rightarrow> 'o pyval \<Rightarrow> dispatch_context option option" where
  "dispatcher_context pf ck d envelope =
     (case de_node_kind d of
        None \<Rightarrow> Some None
      | Some kind \<Rightarrow>
          if \<not> de_accepts_context d then Some None
          else if \<not> has_attr (pf_getattr pf) envelope ''correlation_id'' \<or>
              \<not> has_attr (pf_getattr pf) envelope ''trace_id'' then None
          else
            let cid = (case attr_or_none (pf_getattr pf) envelope ''correlation_id'' of
                  VUuid u \<Rightarrow> u | _ \<Rightarrow> ck_fresh_id ck)
            in map_option Some (create_context_for_node_kind kind cid (ck_now ck (de_dispatcher_id d))))"

definition execute_dispatcher ::
  "('d, 'o, 'e, 'i) platform \<Rightarrow> dispatch_clock \<Rightarrow> ('d, 'o) dispatch_entry \<Rightarrow> 'o pyval \<Rightarrow> string \<Rightarrow>
   resolution_metrics \<Rightarrow> ('e, 'i) reply \<times> resolution_metrics" where
  "execute_dispatcher pf ck d envelope topic m =
     (let (bindings, m') = dispatcher_bindings pf ck d envelope m in
      case bindings of
        None \<Rightarrow> (Raises, m')
      | Some bs \<Rightarrow> (case materialize_envelope pf envelope bs topic of
          None \<Rightarrow> (Raises, m')
        | Some input \<Rightarrow> (case dispatcher_context pf ck d envelope of
            None \<Rightarrow> (Raises, m') | Some context_arg \<Rightarrow> (pf_call pf (de_dispatcher d) input context_arg, m'))))"

section \<open>Dispatching\<close>

datatype dispatch_status = SUCCESS | HANDLER_ERROR | NO_DISPATCHER | INVALID_MESSAGE | RESULT_INTERNAL_ERROR

datatype failure_class = PUBLISHER_MALFORMED | FC_NO_DISPATCHER

record ('e, 'i) dispatch_result =
  dr_status :: dispatch_status
  dr_topic :: string
  dr_category :: "message_category option"
  dr_message_type :: "string option"
  dr_route_id :: "string option"
  dr_dispatcher_ids :: "string list"
  dr_outputs :: "string list option"
  dr_output_count :: nat
  dr_events :: "'e list"
  dr_intents :: "'i list"
  dr_error_code :: "core_code option"
  dr_failure_class :: "failure_class option"
  dr_dlq_topic :: "string option"

definition failed_result :: "dispatch_status \<Rightarrow> core_code \<Rightarrow> string \<Rightarrow> ('e, 'i) dispatch_result" where
  "failed_result status code topic =
     \<lparr>dr_status = status, dr_topic = topic, dr_category = None, dr_message_type = None, dr_route_id = None,
      dr_dispatcher_ids = [], dr_outputs = None, dr_output_count = 0, dr_events = [], dr_intents = [],
      dr_error_code = Some code, dr_failure_class = None, dr_dlq_topic = None\<rparr>"

text \<open>\<open>ModelDispatchOutcome.from_legacy_output\<close>; \<open>None\<close> for the type error.\<close>

fun from_legacy_output :: "('e, 'i) dispatcher_output \<Rightarrow> string list option" where
  "from_legacy_output NoOutput = Some []"
| "from_legacy_output (Topic t) = Some [t]"
| "from_legacy_output (Topics ts) = Some ts"
| "from_legacy_output (Result topics events intents) = Some (or_else topics [])"
| "from_legacy_output (WithOutputs topics) = Some (or_else topics [])"
| "from_legacy_output OtherOutput = None"

fun output_events :: "('e, 'i) dispatcher_output \<Rightarrow> 'e list" where
  "output_events (Result topics events intents) = events"
| "output_events _ = []"

fun output_intents :: "('e, 'i) dispatcher_output \<Rightarrow> 'i list" where
  "output_intents (Result topics events intents) = intents"
| "output_intents _ = []"

text \<open>What the loop over the dispatchers accumulates; an error is the identifier of its dispatcher.\<close>

record ('e, 'i) progress =
  pg_outputs :: "string list"
  pg_events :: "'e list"
  pg_intents :: "'i list"
  pg_errors :: "string list"
  pg_executed :: "string list"
  pg_metrics :: dispatch_metrics
  pg_resolution :: resolution_metrics

definition start_progress :: "('d, 'o) engine \<Rightarrow> ('e, 'i) progress" where
  "start_progress e = \<lparr>pg_outputs = [], pg_events = [], pg_intents = [], pg_errors = [], pg_executed = [],
     pg_metrics = en_metrics e, pg_resolution = en_resolution_metrics e\<rparr>"

definition dispatcher_failed :: "string \<Rightarrow> real \<Rightarrow> string \<Rightarrow> ('e, 'i) progress \<Rightarrow> ('e, 'i) progress" where
  "dispatcher_failed i ms topic p =
     p\<lparr>pg_errors := pg_errors p @ [i], pg_metrics := record_dispatcher_run i ms False topic (pg_metrics p)\<rparr>"

text \<open>
  One dispatcher; \<open>True\<close> when a cancellation ends the dispatch. The run counts as a success before its
  output is looked at, so an output of the wrong type counts once more, as a failure.
\<close>

definition run_one ::
  "('d, 'o, 'e, 'i) platform \<Rightarrow> dispatch_clock \<Rightarrow> 'o pyval \<Rightarrow> string \<Rightarrow> ('d, 'o) dispatch_entry \<Rightarrow>
   ('e, 'i) progress \<Rightarrow> bool \<times> ('e, 'i) progress" where
  "run_one pf ck envelope topic d p =
     (let i = de_dispatcher_id d; ms = ck_dispatcher_ms ck i;
          (answer, rm) = execute_dispatcher pf ck d envelope topic (pg_resolution p);
          p1 = p\<lparr>pg_resolution := rm\<rparr>
      in case answer of
        Stops \<Rightarrow> (True, p1)
      | Raises \<Rightarrow> (False, dispatcher_failed i ms topic p1)
      | Returns out \<Rightarrow>
          (let p2 = p1\<lparr>pg_executed := pg_executed p1 @ [i],
                 pg_metrics := record_dispatcher_run i ms True topic (pg_metrics p1)\<rparr>
           in case from_legacy_output out of
             None \<Rightarrow> (False, dispatcher_failed i ms topic p2)
           | Some topics \<Rightarrow> (False, p2\<lparr>pg_outputs := pg_outputs p2 @ topics,
               pg_events := pg_events p2 @ output_events out,
               pg_intents := pg_intents p2 @ output_intents out\<rparr>)))"

fun run_all ::
  "('d, 'o, 'e, 'i) platform \<Rightarrow> dispatch_clock \<Rightarrow> 'o pyval \<Rightarrow> string \<Rightarrow> ('d, 'o) dispatch_entry list \<Rightarrow>
   ('e, 'i) progress \<Rightarrow> bool \<times> ('e, 'i) progress" where
  "run_all pf ck envelope topic [] p = (False, p)"
| "run_all pf ck envelope topic (d # ds) p =
     (case run_one pf ck envelope topic d p of
        (True, p') \<Rightarrow> (True, p')
      | (False, p') \<Rightarrow> run_all pf ck envelope topic ds p')"

text \<open>The routing key: the event type when there is one, else the class name of the payload.\<close>

definition event_type_of :: "('d, 'o, 'e, 'i) platform \<Rightarrow> 'o pyval \<Rightarrow> string" where
  "event_type_of pf envelope =
     (case envelope_field (pf_getattr pf) envelope ''event_type'' of
        VNone \<Rightarrow> [] | VStr s \<Rightarrow> py_strip s | v \<Rightarrow> py_strip (pf_str pf v))"

definition routed_payload :: "('d, 'o, 'e, 'i) platform \<Rightarrow> 'o pyval \<Rightarrow> 'o pyval" where
  "routed_payload pf envelope =
     (case envelope of
        VDict kvs \<Rightarrow> or_else (dict_get kvs (VStr ''payload'')) envelope
      | _ \<Rightarrow> attr_or_none (pf_getattr pf) envelope ''payload'')"

definition message_type_of :: "('d, 'o, 'e, 'i) platform \<Rightarrow> 'o pyval \<Rightarrow> string" where
  "message_type_of pf envelope =
     (let t = event_type_of pf envelope in
      if t \<noteq> [] then t else pf_type_name pf (routed_payload pf envelope))"

text \<open>The two checks of \<open>dispatch\<close> before it starts, with the scope of a contract.\<close>

definition dispatch_refused ::
  "string \<Rightarrow> 'o pyval \<Rightarrow> string list option \<Rightarrow> ('d, 'o) engine \<Rightarrow> core_code option" where
  "dispatch_refused topic envelope scope e =
     (if \<not> en_frozen e then Some INVALID_STATE
      else if blank topic then Some INVALID_PARAMETER
      else if envelope = VNone then Some INVALID_PARAMETER
      else case scope of
        None \<Rightarrow> None
      | Some ids \<Rightarrow>
          if ids = [] then Some INVALID_PARAMETER
          else if list_ex (\<lambda>i. dict_get (en_dispatchers e) i = None) ids then Some ITEM_NOT_REGISTERED
          else None)"

text \<open>The first route that would match, for the report; the loop reads the dispatcher of each route in scope mode.\<close>

definition matched_route :: "('d, 'o) engine \<Rightarrow> string list option \<Rightarrow> string \<Rightarrow> message_category \<Rightarrow> string \<Rightarrow> string" where
  "matched_route e scope topic category message_type =
     (case find (\<lambda>(_, r). (case scope of None \<Rightarrow> True
            | Some ids \<Rightarrow> (case route_dispatcher_id r of None \<Rightarrow> False | Some i \<Rightarrow> i \<in> set ids)) \<and>
            rt_matches r topic category message_type) (en_routes e) of
        None \<Rightarrow> [] | Some (_, r) \<Rightarrow> rt_route_id r)"

definition no_dispatcher_result ::
  "('d, 'o, 'e, 'i) platform \<Rightarrow> dispatch_clock \<Rightarrow> 'o pyval \<Rightarrow> string \<Rightarrow> message_category \<Rightarrow> scoping_outcome \<Rightarrow>
   ('e, 'i) dispatch_result" where
  "no_dispatcher_result pf ck envelope topic category so =
     (let event_type = event_type_of pf envelope;
          dlq = derive_dlq_topic_for_event_type (ck_fresh_id ck)
            (\<lambda>t. map_option (pf_topic_suffix pf) (pf_category_of_topic pf t))
            (if event_type = [] then None else Some event_type) topic
      in (failed_result NO_DISPATCHER
            (if so_rejected so then ENVELOPE_VALIDATION_FAILED else ITEM_NOT_REGISTERED) topic)
         \<lparr>dr_category := Some category, dr_message_type := Some (message_type_of pf envelope),
           dr_dlq_topic := (case dlq of Err _ \<Rightarrow> None | Ok t \<Rightarrow> t),
           dr_failure_class := Some (if so_rejected so then PUBLISHER_MALFORMED else FC_NO_DISPATCHER)\<rparr>)"

text \<open>The end of a dispatch: the metrics are recorded before the outputs are validated.\<close>

definition dispatch_report ::
  "('d, 'o, 'e, 'i) platform \<Rightarrow> ('d, 'o) engine \<Rightarrow> string list option \<Rightarrow> string \<Rightarrow> message_category \<Rightarrow> string \<Rightarrow>
   ('e, 'i) progress \<Rightarrow> ('e, 'i) dispatch_result" where
  "dispatch_report pf e scope topic category message_type p =
     (let outputs_bad = pg_outputs p \<noteq> [] \<and> \<not> pf_outputs_ok pf (pg_outputs p);
          failed = pg_errors p \<noteq> [] \<or> outputs_bad
      in if \<not> pf_result_ok pf (pg_outputs p) then failed_result RESULT_INTERNAL_ERROR INTERNAL_ERROR topic
         else \<lparr>dr_status = (if failed then HANDLER_ERROR else SUCCESS), dr_topic = topic,
           dr_category = Some category, dr_message_type = Some message_type,
           dr_route_id = Some (matched_route e scope topic category message_type),
           dr_dispatcher_ids = pg_executed p,
           dr_outputs = (if pg_outputs p = [] \<or> outputs_bad then None else Some (pg_outputs p)),
           dr_output_count = length (pg_outputs p), dr_events = pg_events p, dr_intents = pg_intents p,
           dr_error_code = (if failed then Some HANDLER_EXECUTION_ERROR else None),
           dr_failure_class = None, dr_dlq_topic = None\<rparr>)"

definition dispatch ::
  "('d, 'o, 'e, 'i) platform \<Rightarrow> dispatch_clock \<Rightarrow> string \<Rightarrow> 'o pyval \<Rightarrow> string list option \<Rightarrow> ('d, 'o) engine \<Rightarrow>
   (engine_error + ('e, 'i) dispatch_result) \<times> ('d, 'o) engine" where
  "dispatch pf ck topic envelope scope e =
     (case dispatch_refused topic envelope scope e of
        Some code \<Rightarrow> (Err (OnexError code), e)
      | None \<Rightarrow>
          let ms = ck_total_ms ck in
          case pf_category_of_topic pf topic of
            None \<Rightarrow> (Ok (failed_result INVALID_MESSAGE VALIDATION_ERROR topic),
              e\<lparr>en_metrics := record_dispatch ms False None False 0 (en_metrics e)\<rparr>)
          | Some category \<Rightarrow>
              let message_type = message_type_of pf envelope in
              case find_matching_dispatchers e \<lparr>cr_topic = topic, cr_category = category,
                  cr_message_type = message_type, cr_payload = routed_payload pf envelope, cr_scope = scope\<rparr> of
                Err err \<Rightarrow> (Err err, e)
              | Ok (found, so) \<Rightarrow>
                  if found = [] then
                    (Ok (no_dispatcher_result pf ck envelope topic category so),
                     e\<lparr>en_metrics := record_dispatch ms False (Some category) True 0 (en_metrics e)\<rparr>)
                  else
                    let (stopped, p) = run_all pf ck envelope topic found (start_progress e);
                        e1 = e\<lparr>en_resolution_metrics := pg_resolution p\<rparr>
                    in if stopped then (Err Interrupted, e1\<lparr>en_metrics := pg_metrics p\<rparr>)
                       else (Ok (dispatch_report pf e scope topic category message_type p),
                         e1\<lparr>en_metrics := record_dispatch ms (pg_errors p = []) (Some category) False
                           (length found) (pg_metrics p)\<rparr>))"

definition dispatch_scoped ::
  "('d, 'o, 'e, 'i) platform \<Rightarrow> dispatch_clock \<Rightarrow> string \<Rightarrow> 'o pyval \<Rightarrow> string list \<Rightarrow> ('d, 'o) engine \<Rightarrow>
   (engine_error + ('e, 'i) dispatch_result) \<times> ('d, 'o) engine" where
  "dispatch_scoped pf ck topic envelope ids e = dispatch pf ck topic envelope (Some ids) e"

definition dispatch_with_transaction ::
  "('d, 'o, 'e, 'i) platform \<Rightarrow> dispatch_clock \<Rightarrow> string \<Rightarrow> 'o pyval \<Rightarrow> ('d, 'o) engine \<Rightarrow>
   (engine_error + ('e, 'i) dispatch_result) \<times> ('d, 'o) engine" where
  "dispatch_with_transaction pf ck topic envelope e =
     (if \<not> en_frozen e then (Err (OnexError INVALID_STATE), e)
      else if blank topic \<or> envelope = VNone then (Err (OnexError INVALID_PARAMETER), e)
      else dispatch pf ck topic envelope None e)"

end
