(* ===== verification/BindingProps.thy ===== *)
theory BindingProps imports BindingResolver Interfaces begin

text \<open>
  What the binding language accepts, which value each parameter gets, and what the metrics count.
\<close>

section \<open>The expression language\<close>

text \<open>The text of a reference, and the segments it may have.\<close>

fun source_name :: "binding_source \<Rightarrow> string" where
  "source_name Payload = ''payload''"
| "source_name Envelope = ''envelope''"
| "source_name Context = ''context''"

definition format_expression :: "binding_source \<Rightarrow> string list \<Rightarrow> string" where
  "format_expression source segments = ''${'' @ source_name source @ ''.'' @ join_with CHR ''.'' segments @ ''}''"

definition segment_ok :: "string \<Rightarrow> bool" where
  "segment_ok s \<longleftrightarrow> s \<noteq> [] \<and> list_all is_path_char s \<and> CHR ''.'' \<notin> set s"

lemma source_named_iff: "source_named name = Some source \<longleftrightarrow> name = source_name source"
  by (cases source) (auto simp: source_named_def split: if_splits)

lemma chars_eval [simp]:
  "\<not> is_lower CHR ''.''" "is_path_char CHR ''.''" "\<not> is_path_char CHR ''[''" "\<not> is_path_char CHR '']''"
  "\<not> is_lower CHR ''[''" "\<not> is_lower CHR '']''"
  by (simp_all add: is_path_char_def is_lower_def is_upper_def is_dec_digit_def)

lemma source_name_lower [simp]: "list_all is_lower (source_name source)" "source_name source \<noteq> []"
  by (cases source; simp add: is_lower_def)+

lemma takeWhile_group:
  assumes "list_all P xs" "\<not> P c"
  shows "takeWhile P (xs @ c # ys) = xs" "dropWhile P (xs @ c # ys) = c # ys"
  using assms by (induction xs) auto

lemma expression_pattern_iff:
  "expression_pattern e = Some (name, path) \<longleftrightarrow>
   (\<exists>nl. e = ''${'' @ name @ ''.'' @ path @ ''}'' @ nl \<and> nl \<in> {[], [CHR 0x0A]}) \<and>
   name \<noteq> [] \<and> list_all is_lower name \<and> path \<noteq> [] \<and> list_all is_path_char path" (is "?l \<longleftrightarrow> ?r")
proof
  assume ?r
  then obtain nl where e: "e = ''${'' @ name @ ''.'' @ path @ ''}'' @ nl" "nl \<in> {[], [CHR 0x0A]}"
    and ok: "name \<noteq> []" "list_all is_lower name" "path \<noteq> []" "list_all is_path_char path" by blast
  let ?body = "''${'' @ name @ ''.'' @ path @ ''}''"
  have "(if e \<noteq> [] \<and> last e = CHR 0x0A then butlast e else e) = ?body"
    using e by (auto simp: butlast_append)
  moreover have "butlast (drop 2 ?body) = name @ CHR ''.'' # path" by (simp add: butlast_append)
  ultimately show ?l
    using ok takeWhile_group [of is_lower name "CHR ''.''" path] by (simp add: expression_pattern_def Let_def)
next
  assume l: ?l
  define body where "body = (if e \<noteq> [] \<and> last e = CHR 0x0A then butlast e else e)"
  define inner where "inner = butlast (drop 2 body)"
  have p: "take 2 body = ''${''" "2 < length body" "last body = CHR ''}''" "name = takeWhile is_lower inner" "name \<noteq> []"
    "dropWhile is_lower inner \<noteq> []" "hd (dropWhile is_lower inner) = CHR ''.''"
    "path = tl (dropWhile is_lower inner)" "path \<noteq> []" "list_all is_path_char path"
    using l unfolding expression_pattern_def Let_def body_def [symmetric] inner_def [symmetric]
    by (auto split: if_splits)
  have "inner = name @ CHR ''.'' # path"
    using p(4,6,7,8) takeWhile_dropWhile_id [of is_lower inner] by (cases "dropWhile is_lower inner") auto
  moreover have "drop 2 body = inner @ [last body]"
    using p(2) append_butlast_last_id [of "drop 2 body"] by (simp add: inner_def last_drop)
  ultimately have "body = ''${'' @ name @ ''.'' @ path @ ''}''"
    using p(1,3) append_take_drop_id [of 2 body] by simp
  moreover have "e = body \<or> e = body @ [CHR 0x0A]"
    unfolding body_def by (metis append_butlast_last_id)
  moreover have "list_all is_lower name" unfolding p(4) by (auto simp: list_all_iff dest: set_takeWhileD)
  ultimately show ?r using p by auto
qed

lemma segments_iff:
  "path \<noteq> [] \<and> list_all is_path_char path \<and> py_split CHR ''.'' path = segments \<and> [] \<notin> set segments \<longleftrightarrow>
   path = join_with CHR ''.'' segments \<and> segments \<noteq> [] \<and> list_all segment_ok segments" (is "?l \<longleftrightarrow> ?r")
proof
  assume l: ?l
  then have "path = join_with CHR ''.'' segments" using join_with_split [of "CHR ''.''" path] by simp
  moreover have "segment_ok s" if "s \<in> set segments" for s
    using l that py_split_members [of s "CHR ''.''" path] by (auto simp: segment_ok_def list_all_iff)
  ultimately show ?r using l by (auto simp: list_all_iff)
next
  assume r: ?r
  then have "list_all is_path_char path"
    using set_join_with [of "CHR ''.''" segments] by (fastforce simp: list_all_iff segment_ok_def)
  moreover have "path \<noteq> []" using r join_with_nonempty [of segments "CHR ''.''"] by (auto simp: list_all_iff segment_ok_def)
  moreover have "py_split CHR ''.'' path = segments"
    using r py_split_join [of segments "CHR ''.''"] by (auto simp: list_all_iff segment_ok_def)
  ultimately show ?l using r by (auto simp: list_all_iff segment_ok_def)
qed

lemma no_brackets:
  "list_all is_lower name \<Longrightarrow> list_all is_path_char path \<Longrightarrow> nl \<in> {[], [CHR 0x0A]} \<Longrightarrow>
   CHR ''['' \<notin> set (''${'' @ name @ ''.'' @ path @ ''}'' @ nl) \<and>
   CHR '']'' \<notin> set (''${'' @ name @ ''.'' @ path @ ''}'' @ nl)"
  by (auto simp: list_all_iff)

lemma parse_expression_iff:
  "parse_expression ml ms extra e = Ok (source, segments) \<longleftrightarrow>
   (e = format_expression source segments \<or> e = format_expression source segments @ [CHR 0x0A]) \<and>
   segments \<noteq> [] \<and> list_all segment_ok segments \<and>
   length e \<le> or_else ml max_expression_length \<and> length segments \<le> or_else ms max_path_segments \<and>
   (source = Context \<longrightarrow> hd segments \<in> set (valid_context_paths @ extra))" (is "?l \<longleftrightarrow> ?r")
proof
  assume l: ?l
  then obtain name path where p: "expression_pattern e = Some (name, path)" "source_named name = Some source"
    "py_split CHR ''.'' path = segments" "[] \<notin> set segments"
    and bounds: "length e \<le> or_else ml max_expression_length" "length segments \<le> or_else ms max_path_segments"
      "source = Context \<longrightarrow> hd segments \<in> set (valid_context_paths @ extra)"
    by (auto simp: parse_expression_def Let_def split: if_splits option.splits prod.splits)
  from p(1) have "path \<noteq> [] \<and> list_all is_path_char path" by (simp add: expression_pattern_iff)
  then have s: "path = join_with CHR ''.'' segments" "segments \<noteq> []" "list_all segment_ok segments"
    using p(3,4) segments_iff [of path segments] by blast+
  moreover have "e = format_expression source segments \<or> e = format_expression source segments @ [CHR 0x0A]"
    using p(1,2) s(1) by (auto simp: expression_pattern_iff source_named_iff format_expression_def)
  ultimately show ?r using bounds by blast
next
  assume r: ?r
  let ?path = "join_with CHR ''.'' segments"
  have path: "?path \<noteq> [] \<and> list_all is_path_char ?path" "py_split CHR ''.'' ?path = segments" "[] \<notin> set segments"
    using r segments_iff [of ?path segments] by blast+
  obtain nl where e: "e = ''${'' @ source_name source @ ''.'' @ ?path @ ''}'' @ nl" "nl \<in> {[], [CHR 0x0A]}"
    using r by (auto simp: format_expression_def)
  have "expression_pattern e = Some (source_name source, ?path)"
    unfolding expression_pattern_iff using e path(1) by auto
  moreover have "CHR ''['' \<notin> set e \<and> CHR '']'' \<notin> set e"
    unfolding e(1) using path(1) e(2) by (intro no_brackets) auto
  ultimately show ?l using r path(2,3) by (simp add: parse_expression_def source_named_iff [THEN iffD2] Let_def)
qed

section \<open>Resolution\<close>

text \<open>The loop stops at the first binding without a value; otherwise the last binding of a name wins.\<close>

lemma resolve_loop_error:
  "resolve_loop val bs r = (Some e, r') \<Longrightarrow>
   \<exists>xs b ys. bs = xs @ b # ys \<and> (\<forall>x \<in> set xs. \<not> isl (val x)) \<and> val b = Err e"
proof (induction bs arbitrary: r)
  case (Cons b bs)
  show ?case
  proof (cases "val b")
    case (Inl e')
    then have "b # bs = [] @ b # bs \<and> (\<forall>x \<in> set []. \<not> isl (val x)) \<and> val b = Err e" using Cons.prems by auto
    then show ?thesis by blast
  next
    case (Inr v)
    then obtain xs c ys where "bs = xs @ c # ys" "\<forall>x \<in> set xs. \<not> isl (val x)" "val c = Err e"
      using Cons by fastforce
    then have "b # bs = (b # xs) @ c # ys \<and> (\<forall>x \<in> set (b # xs). \<not> isl (val x)) \<and> val c = Err e"
      using Inr by auto
    then show ?thesis by blast
  qed
qed simp

lemma resolve_loop_ok:
  assumes "resolve_loop val bs r = (None, r')"
  shows "(\<forall>b \<in> set bs. \<not> isl (val b)) \<and> rs_operation_name r' = rs_operation_name r \<and>
    dict_get (rs_resolved_parameters r') p =
      (case find (\<lambda>b. bi_parameter_name b = p) (rev bs) of
         None \<Rightarrow> dict_get (rs_resolved_parameters r) p | Some b \<Rightarrow> Some (projr (val b)))"
  using assms
proof (induction bs arbitrary: r)
  case (Cons b bs)
  obtain v where v: "val b = Ok v" using Cons.prems by (cases "val b") auto
  have find: "find P (xs @ ys) = (case find P xs of None \<Rightarrow> find P ys | Some x \<Rightarrow> Some x)" for P :: "'b binding \<Rightarrow> bool" and xs ys
    by (induction xs) auto
  show ?case
    using Cons.IH [of "r\<lparr>rs_resolved_parameters := dict_put (bi_parameter_name b) v (rs_resolved_parameters r),
        rs_resolved_from := dict_put (bi_parameter_name b) (bi_original_expression b) (rs_resolved_from r)\<rparr>"] Cons.prems v
    by (auto simp: find dict_get_put split: option.splits)
qed simp

lemma resolve_spec:
  "case fst (resolve attr d operation sub envelope ctx cid m) of
     Err e \<Rightarrow> (\<exists>xs b ys. bindings_to_process sub operation = xs @ b # ys \<and>
        (\<forall>x \<in> set xs. \<not> isl (binding_value attr operation (bs_max_json_recursion_depth sub) envelope ctx cid x)) \<and>
        binding_value attr operation (bs_max_json_recursion_depth sub) envelope ctx cid b = Err e)
   | Ok r \<Rightarrow> (\<forall>p. dict_get (rs_resolved_parameters r) p = map_option
        (\<lambda>b. projr (binding_value attr operation (bs_max_json_recursion_depth sub) envelope ctx cid b))
        (find (\<lambda>b. bi_parameter_name b = p) (rev (bindings_to_process sub operation))))"
proof -
  let ?val = "binding_value attr operation (bs_max_json_recursion_depth sub) envelope ctx cid"
  let ?r0 = "\<lparr>rs_operation_name = operation, rs_resolved_parameters = [], rs_resolved_from = []\<rparr>"
  obtain err r where run: "resolve_loop ?val (bindings_to_process sub operation) ?r0 = (err, r)" by fastforce
  show ?thesis
  proof (cases err)
    case (Some e)
    then show ?thesis using resolve_loop_error [of ?val _ ?r0 e r] run by (simp add: resolve_def)
  next
    case None
    then have "dict_get (rs_resolved_parameters r) p = map_option (\<lambda>b. projr (?val b))
        (find (\<lambda>b. bi_parameter_name b = p) (rev (bindings_to_process sub operation)))" for p
      using resolve_loop_ok [of ?val "bindings_to_process sub operation" ?r0 r p] run
      by (cases "find (\<lambda>b. bi_parameter_name b = p) (rev (bindings_to_process sub operation))") auto
    then show ?thesis using None run by (simp add: resolve_def)
  qed
qed

section \<open>What the metrics count\<close>

text \<open>Any sequence of resolutions, each with its duration, success, operation and number of values.\<close>

definition metrics_after :: "(real \<times> bool \<times> string \<times> int) list \<Rightarrow> resolution_metrics" where
  "metrics_after rs = fold (\<lambda>(d, ok, oper, n). record_resolution d ok oper n) rs empty_resolution_metrics"

definition counts :: "('k, int) py_dict \<Rightarrow> int" where
  "counts d = sum_list (map snd d)"

lemma counts_bump: "wf_dict d \<Longrightarrow> counts (bump k d) = counts d + 1"
proof (induction d)
  case (Cons kv d)
  then have "wf_dict d" "fst kv \<notin> fst ` set d" by (auto simp: wf_dict_def)
  with Cons.IH show ?case
    by (cases kv) (auto simp: bump_def counts_def or_else_def map_of_eq_None_iff [THEN iffD2])
qed (simp add: bump_def counts_def)

lemma wf_bump [simp]: "wf_dict d \<Longrightarrow> wf_dict (bump k d)"
  by (simp add: bump_def)

lemma bump_get: "dict_get (bump k d) k' = (if k' = k then Some (or_else (dict_get d k) 0 + 1) else dict_get d k')"
  by (simp add: bump_def dict_get_put)

lemma bucket_labels:
  "histogram_bucket d \<in> {''le_0.1ms'', ''le_0.5ms'', ''le_1ms'', ''le_2ms'', ''le_5ms'', ''le_10ms'',
     ''le_25ms'', ''le_50ms'', ''le_100ms'', ''gt_100ms''}"
  "1 < d \<Longrightarrow> d \<le> 5/2 \<Longrightarrow> histogram_bucket d = ''le_2ms''"
  by (auto simp: histogram_bucket_def latency_buckets_def bucket_label_def string_of_int_def dec_digits_eval dec_digit_eval)

definition metrics_ok :: "resolution_metrics \<Rightarrow> bool" where
  [inv_defs]: "metrics_ok m \<longleftrightarrow> rm_total m = rm_successful m + rm_failed m \<and> 0 \<le> rm_successful m \<and> 0 \<le> rm_failed m \<and>
     wf_dict (rm_histogram m) \<and> counts (rm_histogram m) = rm_total m \<and>
     wf_dict (rm_per_operation m) \<and> counts (rm_per_operation m) = rm_total m \<and>
     wf_dict (rm_per_operation_errors m) \<and> counts (rm_per_operation_errors m) = rm_failed m \<and>
     dict_get (rm_histogram m) ''le_2.5ms'' = Some 0"

lemma metrics_ok_record: "metrics_ok m \<Longrightarrow> metrics_ok (record_resolution d ok oper n m)"
  using bucket_labels(1) [of d]
  by (auto simp: metrics_ok_def record_resolution_def counts_bump bump_get)

lemma metrics_ok_empty: "metrics_ok empty_resolution_metrics"
  by (simp add: metrics_ok_def empty_resolution_metrics_def latency_buckets_def counts_def wf_dict_def)

lemma metrics_ok_after: "metrics_ok (metrics_after rs)"
proof -
  have "metrics_ok m \<Longrightarrow> metrics_ok (fold (\<lambda>(d, ok, oper, n). record_resolution d ok oper n) rs m)" for m
    by (induction rs arbitrary: m) (auto intro: metrics_ok_record)
  then show ?thesis using metrics_ok_empty by (simp add: metrics_after_def)
qed

section \<open>Properties\<close>

text \<open>
  C29: The parser accepts exactly the texts of a reference to the payload, the envelope or the context whose
  path segments are non-empty words, within the length and depth limits, a context path starting with an
  allowed name; it returns the reference the text was made from. One newline at the end is accepted too.
\<close>
theorem binding_expressions:
  "parse_expression ml ms extra e = Ok (source, segments) \<longleftrightarrow>
   (e = format_expression source segments \<or> e = format_expression source segments @ [CHR 0x0A]) \<and>
   segments \<noteq> [] \<and> (\<forall>s \<in> set segments. segment_ok s) \<and>
   length e \<le> or_else ml max_expression_length \<and> length segments \<le> or_else ms max_path_segments \<and>
   (source = Context \<longrightarrow> hd segments \<in> set (valid_context_paths @ extra))"
  unfolding parse_expression_iff list_all_iff ..

theorem binding_expressions_witness:
  "parse_expression None None [] ''${context.now_iso}'' = Ok (Context, [''now_iso'']) \<and>
   parse_expression None None [] (''${context.now_iso}'' @ [CHR 0x0A]) = Ok (Context, [''now_iso''])"
  unfolding binding_expressions
  by (simp add: format_expression_def segment_ok_def is_path_char_def is_lower_def max_expression_length_def
      max_path_segments_def valid_context_paths_def)

text \<open>
  C23: Resolution is all or nothing: it fails with the error of the first binding, globals before those of
  the operation, that has no value; otherwise it gives every parameter the value of the last binding of
  its name, so an operation overrides the globals, and no other parameter.
\<close>
theorem bindings_resolve:
  "case fst (resolve attr d operation sub envelope ctx cid m) of
     Err e \<Rightarrow> (\<exists>xs b ys. or_else (bs_global_bindings sub) [] @ or_else (dict_get (bs_bindings sub) operation) [] = xs @ b # ys \<and>
        (\<forall>x \<in> set xs. \<not> isl (binding_value attr operation (bs_max_json_recursion_depth sub) envelope ctx cid x)) \<and>
        binding_value attr operation (bs_max_json_recursion_depth sub) envelope ctx cid b = Err e)
   | Ok r \<Rightarrow> (\<forall>p. dict_get (rs_resolved_parameters r) p = map_option
        (\<lambda>b. projr (binding_value attr operation (bs_max_json_recursion_depth sub) envelope ctx cid b))
        (find (\<lambda>b. bi_parameter_name b = p) (rev (or_else (bs_global_bindings sub) [] @ or_else (dict_get (bs_bindings sub) operation) []))))"
  using resolve_spec [where attr = attr and d = d and operation = operation and sub = sub and envelope = envelope
      and ctx = ctx and cid = cid and m = m] unfolding bindings_to_process_def .

definition demo_bindings :: "unit bindings_subcontract" where
  "demo_bindings = \<lparr>bs_additional_context_paths = [],
     bs_bindings = [(''read'', [\<lparr>bi_parameter_name = ''key'', bi_source = Payload, bi_path_segments = [''user'', ''id''],
       bi_required = True, bi_default = VNone, bi_original_expression = ''${payload.user.id}''\<rparr>])],
     bs_global_bindings = None, bs_max_json_recursion_depth = 100\<rparr>"

definition demo_message :: "unit pyval" where
  "demo_message = VDict [(VStr ''payload'', VDict [(VStr ''user'', VDict [(VStr ''id'', VInt 7)])])]"

theorem bindings_resolve_witness:
  "dict_get (rs_resolved_parameters (projr (fst (resolve (\<lambda>v s. NoAttr) 1 ''read'' demo_bindings demo_message VNone None
     empty_resolution_metrics)))) ''key'' = Some (VInt 7)"
proof -
  have "\<not> isl (fst (resolve (\<lambda>v s. NoAttr) 1 ''read'' demo_bindings demo_message VNone None empty_resolution_metrics))"
    by (simp add: resolve_def bindings_to_process_def binding_value_def resolve_single_binding_def get_payload_def
        traverse_path_def demo_bindings_def demo_message_def)
  then show ?thesis
    using bindings_resolve [where attr = "\<lambda>v s. NoAttr" and d = 1 and operation = "''read''" and sub = demo_bindings
        and envelope = demo_message and ctx = VNone and cid = None and m = empty_resolution_metrics]
    by (simp add: bindings_to_process_def binding_value_def resolve_single_binding_def get_payload_def
        traverse_path_def demo_bindings_def demo_message_def split: sum.splits)
qed

text \<open>
  After any resolutions the counters agree: successes and failures add up to the total, and so do the
  buckets of the histogram and the operations. But the bucket for 2.5 ms never counts: durations
  between 1 and 2.5 ms are recorded under a label of their own, \<^verbatim>\<open>le_2ms\<close>.
\<close>
lemma resolution_metrics_agree:
  "rm_total (metrics_after rs) = rm_successful (metrics_after rs) + rm_failed (metrics_after rs) \<and>
   counts (rm_histogram (metrics_after rs)) = rm_total (metrics_after rs) \<and>
   counts (rm_per_operation (metrics_after rs)) = rm_total (metrics_after rs) \<and>
   counts (rm_per_operation_errors (metrics_after rs)) = rm_failed (metrics_after rs) \<and>
   dict_get (rm_histogram (metrics_after rs)) ''le_2.5ms'' = Some 0 \<and> histogram_bucket 2 = ''le_2ms''"
  using metrics_ok_after [of rs] bucket_labels(2) [of 2] by (simp add: metrics_ok_def)

end
