(* ===== verification/DispatchProps.thy ===== *)
theory DispatchProps imports MessageDispatch BindingProps begin

text \<open>
  Properties of the dispatch engine: what registration keeps, which dispatchers a message reaches, that
  one dispatcher's failure does not touch the others, what a scope and a node kind guarantee, and the
  places where the engine falls short of its own rules.
\<close>

section \<open>The metrics add up\<close>

definition runs_ok :: "dispatcher_metrics \<Rightarrow> bool" where
  "runs_ok m \<longleftrightarrow> dm_execution_count m = dm_success_count m + dm_error_count m \<and> 0 \<le> dm_success_count m \<and>
     0 \<le> dm_error_count m"

definition total_of :: "(dispatcher_metrics \<Rightarrow> int) \<Rightarrow> (string, dispatcher_metrics) py_dict \<Rightarrow> int" where
  "total_of f d = sum_list (map (f \<circ> snd) d)"

definition dispatch_metrics_ok :: "dispatch_metrics \<Rightarrow> bool" where
  [inv_defs]: "dispatch_metrics_ok m \<longleftrightarrow> ds_total m = ds_successful m + ds_failed m \<and>
     wf_dict (ds_histogram m) \<and> counts (ds_histogram m) = ds_total m \<and>
     wf_dict (ds_dispatchers m) \<and> (\<forall>(i, x) \<in> set (ds_dispatchers m). runs_ok x) \<and>
     ds_executions m = total_of dm_execution_count (ds_dispatchers m) \<and>
     ds_errors m = total_of dm_error_count (ds_dispatchers m)"

lemma total_of_put:
  "wf_dict d \<Longrightarrow> total_of f (dict_put i x d) =
     total_of f d + f x - (case dict_get d i of None \<Rightarrow> 0 | Some y \<Rightarrow> f y)"
proof (induction d)
  case (Cons kv d)
  then have "wf_dict d" "fst kv \<notin> fst ` set d" by (auto simp: wf_dict_def)
  with Cons.IH show ?case
    by (cases kv) (auto simp: total_of_def map_of_eq_None_iff [THEN iffD2] split: option.splits)
qed (simp add: total_of_def)

lemma dispatch_metrics_ok_run:
  assumes "dispatch_metrics_ok m"
  shows "dispatch_metrics_ok (record_dispatcher_run i ms ok topic m)"
proof -
  have wf: "wf_dict (ds_dispatchers m)" using assms by (simp add: dispatch_metrics_ok_def)
  have old: "runs_ok (or_else (dict_get (ds_dispatchers m) i) new_dispatcher_metrics)"
    using assms map_of_SomeD [of "ds_dispatchers m" i]
    by (cases "dict_get (ds_dispatchers m) i")
      (auto simp: dispatch_metrics_ok_def runs_ok_def new_dispatcher_metrics_def)
  then have new: "runs_ok (record_execution ms ok topic (or_else (dict_get (ds_dispatchers m) i) new_dispatcher_metrics))"
    by (simp add: runs_ok_def record_execution_def)
  have "\<forall>(j, x) \<in> set (dict_put i y (ds_dispatchers m)). runs_ok x" if "runs_ok y" for y
    using assms that dict_in [OF wf] dict_in [OF wf_dict_put [OF wf, of i y]]
    by (fastforce simp: dispatch_metrics_ok_def dict_get_put split: if_splits)
  then show ?thesis
    using assms new
    by (auto simp: dispatch_metrics_ok_def record_dispatcher_run_def Let_def total_of_put [OF wf] record_execution_def
        new_dispatcher_metrics_def split: option.splits)
qed

lemma dispatch_metrics_ok_record: "dispatch_metrics_ok m \<Longrightarrow> dispatch_metrics_ok (record_dispatch ms ok c nd k m)"
  by (auto simp: dispatch_metrics_ok_def record_dispatch_def counts_bump)

lemma dispatch_metrics_ok_new: "dispatch_metrics_ok new_dispatch_metrics"
proof -
  have "wf_dict (ds_histogram new_dispatch_metrics)"
    by (simp add: new_dispatch_metrics_def dispatch_buckets_def wf_dict_def string_of_int_def dec_digits_eval dec_digit_eval)
  then show ?thesis
    by (simp add: dispatch_metrics_ok_def new_dispatch_metrics_def counts_def total_of_def dispatch_buckets_def)
qed

section \<open>Registration\<close>

definition engine_ok :: "('d, 'o) engine \<Rightarrow> bool" where
  [inv_defs]: "engine_ok e \<longleftrightarrow> wf_dict (en_routes e) \<and> (\<forall>(k, r) \<in> set (en_routes e). k = rt_route_id r) \<and>
     wf_dict (en_dispatchers e) \<and> (\<forall>(k, d) \<in> set (en_dispatchers e). k = de_dispatcher_id d) \<and>
     (\<forall>c. distinct (en_by_category e c) \<and>
        set (en_by_category e c) = {k. \<exists>d. dict_get (en_dispatchers e) k = Some d \<and> de_category d = c}) \<and>
     (en_frozen e \<longrightarrow> (\<forall>(k, r) \<in> set (en_routes e). \<exists>i d. route_dispatcher_id r = Some i \<and>
        dict_get (en_dispatchers e) i = Some d)) \<and>
     dispatch_metrics_ok (en_metrics e)"

lemma dict_put_members: "wf_dict d \<Longrightarrow> (k, v) \<in> set (dict_put i x d) \<longleftrightarrow> (if k = i then v = x else (k, v) \<in> set d)"
  using dict_in [of d] dict_in [of "dict_put i x d"] by (auto simp: dict_get_put)

lemma engine_ok_add_route:
  assumes "engine_ok e" "en_frozen e \<Longrightarrow> \<exists>i d. route_dispatcher_id r = Some i \<and> dict_get (en_dispatchers e) i = Some d"
  shows "engine_ok (e\<lparr>en_routes := dict_put (rt_route_id r) r (en_routes e)\<rparr>)"
  using assms by (auto simp: engine_ok_def dict_put_members split: if_splits)

lemma register_unlocked_cases:
  assumes "register_dispatcher_unlocked d c kind bs g e = (res, e')"
  shows "e' = e \<or> dict_get (en_dispatchers e) (rg_dispatcher_id g) = None \<and>
    (\<exists>entry. de_dispatcher_id entry = rg_dispatcher_id g \<and> de_category entry = c \<and>
      e' = e\<lparr>en_dispatchers := dict_put (rg_dispatcher_id g) entry (en_dispatchers e),
        en_by_category := (en_by_category e)(c := en_by_category e c @ [rg_dispatcher_id g])\<rparr>)"
proof (cases "dict_get (en_dispatchers e) (rg_dispatcher_id g) \<noteq> None \<or>
    (case rg_owner g of None \<Rightarrow> False | Some owner \<Rightarrow> \<not> canonical owner)")
  case True
  then have "e' = e" using assms unfolding register_dispatcher_unlocked_def by (simp split: if_splits option.splits)
  then show ?thesis ..
next
  case False
  let ?entry = "\<lparr>de_dispatcher_id = rg_dispatcher_id g, de_dispatcher = d, de_category = c,
      de_message_types = rg_message_types g, de_node_kind = kind,
      de_accepts_context = dispatcher_accepts_context (rg_signature g), de_bindings = bs,
      de_matcher = rg_matcher g, de_owner = rg_owner g\<rparr>"
  have "e' = e\<lparr>en_dispatchers := dict_put (rg_dispatcher_id g) ?entry (en_dispatchers e),
      en_by_category := (en_by_category e)(c := en_by_category e c @ [rg_dispatcher_id g])\<rparr>"
    using assms False by (simp add: register_dispatcher_unlocked_def Let_def)
  moreover have "de_dispatcher_id ?entry = rg_dispatcher_id g" "de_category ?entry = c" by simp_all
  ultimately show ?thesis using False by blast
qed

lemma engine_ok_add_dispatcher:
  assumes "engine_ok e" "register_dispatcher_unlocked d c kind bs g e = (res, e')"
  shows "engine_ok e'"
proof (cases "e' = e")
  case False
  let ?i = "rg_dispatcher_id g"
  obtain entry where entry: "de_dispatcher_id entry = ?i" "de_category entry = c"
    "e' = e\<lparr>en_dispatchers := dict_put ?i entry (en_dispatchers e),
       en_by_category := (en_by_category e)(c := en_by_category e c @ [?i])\<rparr>"
    and fresh: "dict_get (en_dispatchers e) ?i = None"
    using register_unlocked_cases [OF assms(2)] False by blast
  have wf: "wf_dict (en_dispatchers e)" using assms(1) by (simp add: engine_ok_def)
  have cat: "set (en_by_category e c') = {k. \<exists>d. dict_get (en_dispatchers e) k = Some d \<and> de_category d = c'}" for c'
    using assms(1) by (simp add: engine_ok_def)
  then have new: "?i \<notin> set (en_by_category e c')" for c' using fresh by auto
  have "distinct (en_by_category e' c') \<and>
      set (en_by_category e' c') = {k. \<exists>d. dict_get (en_dispatchers e') k = Some d \<and> de_category d = c'}" for c'
    using assms(1) cat [of c'] cat [of c] fresh new [of c] unfolding entry(3)
    by (auto simp: dict_get_put entry(2) engine_ok_def)
  moreover have "\<forall>(k, x) \<in> set (en_dispatchers e'). k = de_dispatcher_id x"
    using assms(1) entry(1) unfolding engine_ok_def by (auto simp: entry(3) dict_put_members [OF wf] split: if_splits)
  moreover have "\<exists>x. dict_get (en_dispatchers e') j = Some x" if "\<exists>x. dict_get (en_dispatchers e) j = Some x" for j
    using that unfolding entry(3) by (auto simp: dict_get_put)
  then have "en_frozen e' \<longrightarrow> (\<forall>(k, r) \<in> set (en_routes e'). \<exists>i x. route_dispatcher_id r = Some i \<and>
        dict_get (en_dispatchers e') i = Some x)"
    using assms(1) unfolding engine_ok_def by (fastforce simp: entry(3))
  ultimately show ?thesis using assms(1) unfolding engine_ok_def by (simp add: entry(3))
qed (use assms(1) in simp)

lemma engine_ok_freeze:
  assumes "engine_ok e" "freeze e = (res, e')"
  shows "engine_ok e'"
proof (cases "e' = e")
  case False
  let ?bad = "\<lambda>(k :: string, r). case route_dispatcher_id r of None \<Rightarrow> True
     | Some i \<Rightarrow> dict_get (en_dispatchers e) i = None"
  have "find ?bad (en_routes e) = None" and e': "e' = e\<lparr>en_frozen := True\<rparr>"
    using assms(2) False by (auto simp: freeze_def split: if_splits option.splits)
  then have "\<not> ?bad (k, r)" if "(k, r) \<in> set (en_routes e)" for k r
    using that by (auto simp only: find_None_iff)
  then have "\<exists>i d. route_dispatcher_id r = Some i \<and> dict_get (en_dispatchers e) i = Some d"
    if "(k, r) \<in> set (en_routes e)" for k r
    using that by (fastforce split: option.splits)
  then show ?thesis using assms(1) unfolding engine_ok_def e' by auto
qed (use assms(1) in simp)

lemma engine_ok_metrics: "engine_ok e \<Longrightarrow> dispatch_metrics_ok m \<Longrightarrow> engine_ok (e\<lparr>en_metrics := m\<rparr>)"
  by (simp add: engine_ok_def)

lemma engine_ok_resolution: "engine_ok (e\<lparr>en_resolution_metrics := rm\<rparr>) = engine_ok e"
  by (simp add: engine_ok_def)

section \<open>Who gets a message\<close>

text \<open>The first occurrence of every element, in order.\<close>

definition first_occurrences :: "'a list \<Rightarrow> 'a list" where
  "first_occurrences xs = rev (remdups (rev xs))"

lemma first_occurrences_snoc:
  "first_occurrences (xs @ [x]) = (if x \<in> set xs then first_occurrences xs else first_occurrences xs @ [x])"
  by (simp add: first_occurrences_def)

lemma set_first_occurrences [simp]: "set (first_occurrences xs) = set xs"
  by (simp add: first_occurrences_def)

lemma distinct_first_occurrences [simp]: "distinct (first_occurrences xs)"
  by (simp add: first_occurrences_def)

text \<open>What a registered dispatcher makes of a message that one of its routes matches.\<close>

definition verdict :: "'o criteria \<Rightarrow> ('d, 'o) dispatch_entry \<Rightarrow> match_reply option" where
  "verdict c d = (if \<not> takes_type d (cr_message_type c) then None
     else if cr_payload c = VNone then Some Matches else Some (payload_matches_dispatcher d (cr_payload c)))"

text \<open>The dispatchers the routes name, in registration order and within the scope, with repetitions.\<close>

definition candidates :: "('d, 'o) engine \<Rightarrow> 'o criteria \<Rightarrow> route list \<Rightarrow> ('d, 'o) dispatch_entry list" where
  "candidates e c rs = List.map_filter (\<lambda>r. if \<not> route_applies c r then None
     else case route_dispatcher_id r of None \<Rightarrow> None
       | Some i \<Rightarrow> if in_scope (cr_scope c) i then dict_get (en_dispatchers e) i else None) rs"

definition targets :: "('d, 'o) engine \<Rightarrow> 'o criteria \<Rightarrow> route list \<Rightarrow> string list" where
  "targets e c rs = first_occurrences
     (map de_dispatcher_id (filter (\<lambda>d. verdict c d = Some Matches) (candidates e c rs)))"

lemma candidates_Nil [simp]: "candidates e c [] = []"
  by (simp add: candidates_def map_filter_simps)

lemma candidates_append: "candidates e c (rs @ rs') = candidates e c rs @ candidates e c rs'"
  by (simp add: candidates_def map_filter_def)

lemma candidates_one:
  "candidates e c [r] = (if \<not> route_applies c r then []
     else case route_dispatcher_id r of None \<Rightarrow> []
       | Some i \<Rightarrow> if in_scope (cr_scope c) i then
           (case dict_get (en_dispatchers e) i of None \<Rightarrow> [] | Some d \<Rightarrow> [d]) else [])"
  by (simp add: candidates_def map_filter_simps split: option.splits)

lemma targets_snoc:
  "targets e c (rs @ [r]) = (case candidates e c [r] of
     [] \<Rightarrow> targets e c rs
   | d # _ \<Rightarrow> if verdict c d = Some Matches \<and> de_dispatcher_id d \<notin> set (targets e c rs)
       then targets e c rs @ [de_dispatcher_id d] else targets e c rs)"
proof (cases "candidates e c [r]")
  case (Cons d ds)
  then have "ds = []" by (auto simp: candidates_one split: if_splits option.splits)
  then show ?thesis using Cons by (simp add: targets_def candidates_append first_occurrences_snoc)
qed (simp add: targets_def candidates_append)

text \<open>The loop invariant, for the routes already seen.\<close>

definition found_so_far ::
  "('d, 'o) engine \<Rightarrow> 'o criteria \<Rightarrow> route list \<Rightarrow> ('d, 'o) dispatch_entry list \<Rightarrow> scoping_outcome \<Rightarrow> bool" where
  "found_so_far e c rs found so \<longleftrightarrow> map de_dispatcher_id found = targets e c rs \<and>
     set found \<subseteq> set (candidates e c rs) \<and>
     (found = [] \<longrightarrow> so_rejected so = (\<exists>d \<in> set (candidates e c rs). \<exists>t. verdict c d = Some (Rejects t)))"

lemma targets_Nil [simp]: "targets e c [] = []"
  by (simp add: targets_def first_occurrences_def)

lemma found_so_far_skip:
  assumes "found_so_far e c rs found so" "candidates e c [r] = []"
  shows "found_so_far e c (rs @ [r]) found so"
  using assms by (simp add: found_so_far_def targets_snoc candidates_append)

lemma matching_loop_found:
  assumes "\<forall>(k, d) \<in> set (en_dispatchers e). k = de_dispatcher_id d" "found_so_far e c seen found so"
    "matching_loop e c rs found so = Ok (found', so')"
  shows "found_so_far e c (seen @ rs) found' so'"
  using assms(2,3)
proof (induction rs arbitrary: seen found so)
  case (Cons r rs)
  have step: "found_so_far e c (seen @ r # rs) found' so'"
    if "found_so_far e c (seen @ [r]) found1 so1" "matching_loop e c rs found1 so1 = Ok (found', so')" for found1 so1
    using Cons.IH [OF that] by simp
  show ?case
  proof (cases "candidates e c [r]")
    case Nil
    then have "matching_loop e c rs found so = Ok (found', so')"
      using Cons.prems by (auto simp: candidates_one split: if_splits option.splits)
    with Nil Cons.prems(1) show ?thesis using step found_so_far_skip by blast
  next
    case (Cons d ds)
    then obtain i where r: "route_applies c r" "route_dispatcher_id r = Some i" "in_scope (cr_scope c) i"
      "dict_get (en_dispatchers e) i = Some d" "ds = []"
      by (auto simp: candidates_one split: if_splits option.splits)
    have i: "i = de_dispatcher_id d" using assms(1) map_of_SomeD [OF r(4)] by fastforce
    note inv = Cons.prems(1) [unfolded found_so_far_def]
    have seen: "i \<in> set (map de_dispatcher_id found) \<longleftrightarrow> i \<in> set (targets e c seen)" using inv by simp
    have one: "candidates e c [r] = [d]" using Cons r(5) by simp
    show ?thesis
    proof (cases "i \<in> set (map de_dispatcher_id found)")
      case True
      then have "matching_loop e c rs found so = Ok (found', so')" using Cons.prems(2) r by simp
      moreover have "found_so_far e c (seen @ [r]) found so"
        using inv True seen one i by (auto simp: found_so_far_def targets_snoc candidates_append)
      ultimately show ?thesis using step by blast
    next
      case False
      show ?thesis
      proof (cases "verdict c d")
        case None
        then have "matching_loop e c rs found so = Ok (found', so')"
          using Cons.prems(2) r False by (auto simp: verdict_def split: if_splits)
        moreover have "found_so_far e c (seen @ [r]) found so"
          using inv one None by (auto simp: found_so_far_def targets_snoc candidates_append)
        ultimately show ?thesis using step by blast
      next
        case (Some v)
        show ?thesis
        proof (cases v)
          case Matches
          then have "matching_loop e c rs (found @ [d]) so = Ok (found', so')"
            using Cons.prems(2) r False Some by (auto simp: verdict_def split: if_splits)
          moreover have "found_so_far e c (seen @ [r]) (found @ [d]) so"
            using inv one Some Matches False i by (auto simp: found_so_far_def targets_snoc candidates_append)
          ultimately show ?thesis using step by blast
        next
          case (Rejects t)
          then obtain so1 where "matching_loop e c rs found so1 = Ok (found', so')" "so_rejected so1"
            using Cons.prems(2) r False Some by (auto simp: verdict_def split: if_splits)
          moreover have "found_so_far e c (seen @ [r]) found so1"
            using inv one Some Rejects \<open>so_rejected so1\<close> by (auto simp: found_so_far_def targets_snoc candidates_append)
          ultimately show ?thesis using step by blast
        next
          case MatcherRaises
          then show ?thesis using Cons.prems(2) r False Some by (auto simp: verdict_def split: if_splits)
        qed
      qed
    qed
  qed
qed simp

lemma find_matching_found:
  assumes "engine_ok e" "find_matching_dispatchers e c = Ok (found, so)"
  shows "found_so_far e c (map snd (en_routes e)) found so"
  using matching_loop_found [of e c "[]" "[]" "\<lparr>so_rejected = False, so_detail = None\<rparr>"] assms
  by (simp add: engine_ok_def find_matching_dispatchers_def found_so_far_def)

end
