(* ===== verification/DispatchRuns.thy ===== *)
theory DispatchRuns imports DispatchProps Interfaces begin

text \<open>
  What a dispatch does with the dispatchers it has chosen, and the reachable states of the engine.
\<close>

section \<open>One dispatcher\<close>

text \<open>The answer of a dispatcher does not depend on the metrics that are threaded through the loop.\<close>

definition answer ::
  "('d, 'o, 'e, 'i) platform \<Rightarrow> dispatch_clock \<Rightarrow> 'o pyval \<Rightarrow> string \<Rightarrow> ('d, 'o) dispatch_entry \<Rightarrow> ('e, 'i) reply" where
  "answer pf ck envelope topic d = fst (execute_dispatcher pf ck d envelope topic empty_resolution_metrics)"

lemma resolve_fst: "fst (resolve attr ms oper sub envelope ctx cid m) = fst (resolve attr ms oper sub envelope ctx cid m')"
  by (simp add: resolve_def Let_def split: prod.splits option.splits)

lemma dispatcher_bindings_fst:
  "fst (dispatcher_bindings pf ck d envelope m) = fst (dispatcher_bindings pf ck d envelope m')"
  using resolve_fst [where attr = "pf_getattr pf" and m = m and m' = m']
  by (auto simp: dispatcher_bindings_def Let_def split_beta split: option.splits)

lemma execute_dispatcher_fst: "fst (execute_dispatcher pf ck d envelope topic m) = answer pf ck envelope topic d"
  using dispatcher_bindings_fst [of pf ck d envelope m empty_resolution_metrics]
  by (simp add: answer_def execute_dispatcher_def split_beta split: option.splits)

fun topics_of :: "('e, 'i) reply \<Rightarrow> string list" where
  "topics_of (Returns out) = or_else (from_legacy_output out) []"
| "topics_of _ = []"

fun events_of :: "('e, 'i) reply \<Rightarrow> 'e list" where
  "events_of (Returns out) = output_events out"
| "events_of _ = []"

fun intents_of :: "('e, 'i) reply \<Rightarrow> 'i list" where
  "intents_of (Returns out) = output_intents out"
| "intents_of _ = []"

fun misshapen :: "('e, 'i) reply \<Rightarrow> bool" where
  "misshapen (Returns out) \<longleftrightarrow> from_legacy_output out = None"
| "misshapen _ \<longleftrightarrow> False"

definition failing :: "('e, 'i) reply \<Rightarrow> bool" where
  "failing a \<longleftrightarrow> a = Raises \<or> misshapen a"

lemma no_output_none: "from_legacy_output out = None \<Longrightarrow> output_events out = [] \<and> output_intents out = []"
  by (cases out) auto

text \<open>The counters a run moves: the executions, the errors, and the metrics of other dispatchers.\<close>

definition count_if :: "('a \<Rightarrow> bool) \<Rightarrow> 'a list \<Rightarrow> int" where
  "count_if P xs = int (length (filter P xs))"

lemma count_if_simps [simp]: "count_if P [] = 0" "count_if P (x # xs) = (if P x then 1 else 0) + count_if P xs"
  by (simp_all add: count_if_def)

definition run_effect ::
  "('d \<Rightarrow> ('e, 'i) reply) \<Rightarrow> ('d \<Rightarrow> string) \<Rightarrow> 'd list \<Rightarrow> ('e, 'i) progress \<Rightarrow> ('e, 'i) progress \<Rightarrow> bool" where
  "run_effect ans name ds p p' \<longleftrightarrow>
     pg_outputs p' = pg_outputs p @ concat (map (topics_of \<circ> ans) ds) \<and>
     pg_events p' = pg_events p @ concat (map (events_of \<circ> ans) ds) \<and>
     pg_intents p' = pg_intents p @ concat (map (intents_of \<circ> ans) ds) \<and>
     pg_errors p' = pg_errors p @ map name (filter (failing \<circ> ans) ds) \<and>
     pg_executed p' = pg_executed p @ map name (filter (\<lambda>d. ans d \<noteq> Raises) ds) \<and>
     ds_executions (pg_metrics p') = ds_executions (pg_metrics p) + int (length ds) + count_if (misshapen \<circ> ans) ds \<and>
     ds_errors (pg_metrics p') = ds_errors (pg_metrics p) + count_if (failing \<circ> ans) ds \<and>
     ds_successful (pg_metrics p') = ds_successful (pg_metrics p) \<and> ds_failed (pg_metrics p') = ds_failed (pg_metrics p) \<and>
     (\<forall>j. j \<notin> name ` set ds \<longrightarrow>
        dict_get (ds_dispatchers (pg_metrics p')) j = dict_get (ds_dispatchers (pg_metrics p)) j)"

lemma run_effect_trans:
  "run_effect ans name [d] p p1 \<Longrightarrow> run_effect ans name ds p1 p2 \<Longrightarrow> run_effect ans name (d # ds) p p2"
  by (auto simp: run_effect_def)

lemma record_dispatcher_run_simps [simp]:
  "ds_executions (record_dispatcher_run i ms ok topic m) = ds_executions m + 1"
  "ds_errors (record_dispatcher_run i ms ok topic m) = ds_errors m + (if ok then 0 else 1)"
  "ds_successful (record_dispatcher_run i ms ok topic m) = ds_successful m"
  "ds_failed (record_dispatcher_run i ms ok topic m) = ds_failed m"
  "j \<noteq> i \<Longrightarrow> dict_get (ds_dispatchers (record_dispatcher_run i ms ok topic m)) j = dict_get (ds_dispatchers m) j"
  by (simp_all add: record_dispatcher_run_def Let_def dict_get_put)

lemma run_one_effect:
  assumes "answer pf ck envelope topic d \<noteq> Stops"
  shows "\<exists>p'. run_one pf ck envelope topic d p = (False, p') \<and>
    run_effect (answer pf ck envelope topic) de_dispatcher_id [d] p p'"
proof -
  obtain rm where ex: "execute_dispatcher pf ck d envelope topic (pg_resolution p) = (answer pf ck envelope topic d, rm)"
    using execute_dispatcher_fst [of pf ck d envelope topic "pg_resolution p"] by (metis prod.collapse)
  show ?thesis
  proof (cases "answer pf ck envelope topic d")
    case Raises
    then show ?thesis using ex by (simp add: run_one_def Let_def dispatcher_failed_def run_effect_def failing_def)
  next
    case Stops
    then show ?thesis using assms by simp
  next
    case (Returns out)
    then show ?thesis
      using ex no_output_none [of out]
      by (cases "from_legacy_output out")
        (simp_all add: run_one_def Let_def dispatcher_failed_def run_effect_def failing_def)
  qed
qed

lemma run_all_effect:
  "\<forall>d \<in> set ds. answer pf ck envelope topic d \<noteq> Stops \<Longrightarrow>
   \<exists>p'. run_all pf ck envelope topic ds p = (False, p') \<and>
     run_effect (answer pf ck envelope topic) de_dispatcher_id ds p p'"
proof (induction ds arbitrary: p)
  case Nil
  then show ?case by (simp add: run_effect_def)
next
  case (Cons d ds)
  obtain p1 where p1: "run_one pf ck envelope topic d p = (False, p1)"
    "run_effect (answer pf ck envelope topic) de_dispatcher_id [d] p p1"
    using run_one_effect [of pf ck envelope topic d p] Cons.prems by auto
  then show ?case using Cons.IH [of p1] Cons.prems run_effect_trans [OF p1(2)] by auto
qed

text \<open>The metrics stay consistent, also when a cancellation ends the loop.\<close>

lemma run_one_metrics_ok:
  "dispatch_metrics_ok (pg_metrics p) \<Longrightarrow> run_one pf ck envelope topic d p = (stopped, p') \<Longrightarrow>
   dispatch_metrics_ok (pg_metrics p')"
  by (auto simp: run_one_def Let_def dispatcher_failed_def intro!: dispatch_metrics_ok_run
      split: prod.splits reply.splits option.splits)

lemma run_all_metrics_ok:
  "dispatch_metrics_ok (pg_metrics p) \<Longrightarrow> run_all pf ck envelope topic ds p = (stopped, p') \<Longrightarrow>
   dispatch_metrics_ok (pg_metrics p')"
proof (induction ds arbitrary: p)
  case (Cons d ds)
  then show ?case using run_one_metrics_ok by (fastforce split: prod.splits bool.splits)
qed simp

section \<open>Reachable engines\<close>

datatype engine_event = RouteEvent | DispatcherEvent | FreezeEvent | DispatchEvent | ResetEvent

inductive engine_step ::
  "('d, 'o, 'e, 'i) platform \<Rightarrow> engine_event \<Rightarrow> ('d, 'o) engine \<Rightarrow> ('d, 'o) engine \<Rightarrow> bool" for pf where
  "register_route r e = (res, e') \<Longrightarrow> engine_step pf RouteEvent e e'"
| "register_route_dynamic r e = (res, e') \<Longrightarrow> engine_step pf RouteEvent e e'"
| "register_dispatcher g e = (res, e') \<Longrightarrow> engine_step pf DispatcherEvent e e'"
| "register_dispatcher_dynamic g e = (res, e') \<Longrightarrow> engine_step pf DispatcherEvent e e'"
| "freeze e = (res, e') \<Longrightarrow> engine_step pf FreezeEvent e e'"
| "dispatch pf ck topic envelope scope e = (res', e') \<Longrightarrow> engine_step pf DispatchEvent e e'"
| "engine_step pf ResetEvent e (reset_metrics e)"

lemma engine_ok_dispatch:
  assumes "engine_ok e" "dispatch pf ck topic envelope scope e = (res, e')"
  shows "engine_ok e'"
proof -
  have m: "dispatch_metrics_ok (en_metrics e)" using assms(1) by (simp add: engine_ok_def)
  then have "dispatch_metrics_ok (pg_metrics p)" if "run_all pf ck envelope topic ds (start_progress e) = (stopped, p)" for ds stopped p
    using run_all_metrics_ok [OF _ that] by (simp add: start_progress_def)
  then show ?thesis
    using assms m unfolding dispatch_def
    by (auto simp: Let_def engine_ok_resolution intro!: engine_ok_metrics dispatch_metrics_ok_record
        split: option.splits sum.splits prod.splits if_splits)
qed

lemma engine_ok_step: "engine_step pf ev e e' \<Longrightarrow> engine_ok e \<Longrightarrow> engine_ok e'"
proof (induction rule: engine_step.induct)
  case (1 r e res e')
  then show ?case by (auto simp: register_route_def intro!: engine_ok_add_route split: option.splits if_splits)
next
  case (2 r e res e')
  then show ?case
    by (auto simp: register_route_dynamic_def intro!: engine_ok_add_route split: option.splits if_splits)
next
  case (3 g e res e')
  then show ?case
    by (auto simp: register_dispatcher_def intro: engine_ok_add_dispatcher split: sum.splits option.splits if_splits)
next
  case (4 g e res e')
  then show ?case
    by (auto simp: register_dispatcher_dynamic_def intro: engine_ok_add_dispatcher split: sum.splits)
next
  case (5 e res e')
  then show ?case by (blast intro: engine_ok_freeze)
next
  case (6 ck topic envelope scope e res' e')
  then show ?case by (blast intro: engine_ok_dispatch)
next
  case (7 e)
  then show ?case by (simp add: reset_metrics_def engine_ok_metrics dispatch_metrics_ok_new)
qed

lemma engine_ok_new: "engine_ok new_engine"
  by (simp add: engine_ok_def new_engine_def dispatch_metrics_ok_new)

definition first_engine :: "('d, 'o) engine \<Rightarrow> bool" where
  "first_engine e \<longleftrightarrow> e = new_engine"

interpretation engine_machine: invariant_machine first_engine "engine_step pf" engine_ok for pf
  by unfold_locales (simp add: first_engine_def engine_ok_new, rule engine_ok_step)

section \<open>Calls outside a scope\<close>

text \<open>Platforms that differ only in what the dispatchers do.\<close>

lemma execute_dispatcher_call:
  "f (de_dispatcher d) = g (de_dispatcher d) \<Longrightarrow>
   execute_dispatcher (pf\<lparr>pf_call := f\<rparr>) ck d envelope topic m = execute_dispatcher (pf\<lparr>pf_call := g\<rparr>) ck d envelope topic m"
proof -
  assume f: "f (de_dispatcher d) = g (de_dispatcher d)"
  have ser: "serialize_value (pf\<lparr>pf_call := h\<rparr>) v = serialize_value pf v" for h v
    by (induction pf v rule: serialize_value.induct) auto
  have dict: "serialize_dict (pf\<lparr>pf_call := h\<rparr>) kvs = serialize_dict pf kvs" for h kvs
    by (simp add: serialize_dict_def ser)
  have "original_payload (pf\<lparr>pf_call := h\<rparr>) envelope = original_payload pf envelope" for h
    by (cases envelope) (simp_all add: original_payload_def)
  then have payload: "serialize_payload (pf\<lparr>pf_call := h\<rparr>) envelope = serialize_payload pf envelope" for h
    by (cases "original_payload pf envelope") (simp_all add: serialize_payload_def ser dict split: option.split)
  have "safe_str (pf\<lparr>pf_call := h\<rparr>) v = safe_str pf v" for h v
    by (cases v) (simp_all add: safe_str_def)
  then have "debug_trace_snapshot (pf\<lparr>pf_call := h\<rparr>) envelope topic = debug_trace_snapshot pf envelope topic" for h
    by (simp add: debug_trace_snapshot_def)
  then have "materialize_envelope (pf\<lparr>pf_call := h\<rparr>) envelope bs topic = materialize_envelope pf envelope bs topic" for h bs
    by (simp add: materialize_envelope_def payload dict)
  moreover have "dispatcher_bindings (pf\<lparr>pf_call := h\<rparr>) ck d envelope m = dispatcher_bindings pf ck d envelope m" for h
    by (cases "envelope_field (pf_getattr pf) envelope ''correlation_id''";
        cases "envelope_field (pf_getattr pf) envelope ''operation''")
      (simp_all add: dispatcher_bindings_def binding_context_def extract_operation_def extract_correlation_id_def Let_def
        split: option.split)
  moreover have "dispatcher_context (pf\<lparr>pf_call := h\<rparr>) ck d envelope = dispatcher_context pf ck d envelope" for h
    by (cases "attr_or_none (pf_getattr pf) envelope ''correlation_id''") (simp_all add: dispatcher_context_def split: option.split)
  ultimately show ?thesis using f by (simp add: execute_dispatcher_def split: prod.splits option.splits)
qed

lemma run_all_call:
  "\<forall>d \<in> set ds. f (de_dispatcher d) = g (de_dispatcher d) \<Longrightarrow>
   run_all (pf\<lparr>pf_call := f\<rparr>) ck envelope topic ds p = run_all (pf\<lparr>pf_call := g\<rparr>) ck envelope topic ds p"
proof (induction ds arbitrary: p)
  case (Cons d ds)
  then have "run_one (pf\<lparr>pf_call := f\<rparr>) ck envelope topic d p = run_one (pf\<lparr>pf_call := g\<rparr>) ck envelope topic d p"
    using execute_dispatcher_call [of f d g] by (simp add: run_one_def)
  then show ?case using Cons by (simp split: prod.splits bool.splits)
qed simp

lemma candidates_one_in_scope:
  assumes "engine_ok e" "d \<in> set (candidates e c [r])"
  shows "in_scope (cr_scope c) (de_dispatcher_id d) \<and> dict_get (en_dispatchers e) (de_dispatcher_id d) = Some d"
proof -
  obtain x xs where x: "candidates e c [r] = x # xs" using assms(2) by (cases "candidates e c [r]") auto
  then obtain i where i: "in_scope (cr_scope c) i" "dict_get (en_dispatchers e) i = Some x" "xs = []"
    by (auto simp: candidates_one split: if_splits option.splits)
  have "x = d" using assms(2) x i(3) by simp
  with i(2) have i': "dict_get (en_dispatchers e) i = Some d" by simp
  have "\<forall>(k, x) \<in> set (en_dispatchers e). k = de_dispatcher_id x"
    using assms(1) unfolding engine_ok_def by blast
  from bspec [OF this map_of_SomeD [OF i']] have "i = de_dispatcher_id d" by simp
  with i(1) i' show ?thesis by simp
qed

lemma candidates_in_scope:
  assumes "engine_ok e"
  shows "d \<in> set (candidates e c rs) \<Longrightarrow>
    in_scope (cr_scope c) (de_dispatcher_id d) \<and> dict_get (en_dispatchers e) (de_dispatcher_id d) = Some d"
proof (induction rs rule: rev_induct)
  case (snoc r rs)
  then show ?case using candidates_one_in_scope [OF assms, of d c r] unfolding candidates_append by auto
qed simp

lemma found_in_scope:
  assumes "engine_ok e" "find_matching_dispatchers e c = Ok (found, so)" "d \<in> set found"
  shows "in_scope (cr_scope c) (de_dispatcher_id d)" "dict_get (en_dispatchers e) (de_dispatcher_id d) = Some d"
  using candidates_in_scope [OF assms(1)] find_matching_found [OF assms(1,2)] assms(3)
  by (auto simp: found_so_far_def)

section \<open>The criteria of a dispatch\<close>

definition criteria_of ::
  "('d, 'o, 'e, 'i) platform \<Rightarrow> string \<Rightarrow> 'o pyval \<Rightarrow> string list option \<Rightarrow> message_category \<Rightarrow> 'o criteria" where
  "criteria_of pf topic envelope scope category = \<lparr>cr_topic = topic, cr_category = category,
     cr_message_type = message_type_of pf envelope, cr_payload = routed_payload pf envelope, cr_scope = scope\<rparr>"

lemma dispatch_runs:
  assumes "dispatch_refused topic envelope scope e = None" "pf_category_of_topic pf topic = Some category"
    "find_matching_dispatchers e (criteria_of pf topic envelope scope category) = Ok (found, so)" "found \<noteq> []"
    "\<forall>d \<in> set found. answer pf ck envelope topic d \<noteq> Stops"
  shows "\<exists>p e'. dispatch pf ck topic envelope scope e =
      (Ok (dispatch_report pf e scope topic category (message_type_of pf envelope) p), e') \<and>
    run_effect (answer pf ck envelope topic) de_dispatcher_id found (start_progress e) p \<and>
    en_metrics e' = record_dispatch (ck_total_ms ck) (pg_errors p = []) (Some category) False (length found) (pg_metrics p)"
proof -
  obtain p where p: "run_all pf ck envelope topic found (start_progress e) = (False, p)"
    "run_effect (answer pf ck envelope topic) de_dispatcher_id found (start_progress e) p"
    using run_all_effect [OF assms(5)] by blast
  have "dispatch pf ck topic envelope scope e =
      (Ok (dispatch_report pf e scope topic category (message_type_of pf envelope) p),
       e\<lparr>en_resolution_metrics := pg_resolution p, en_metrics := record_dispatch (ck_total_ms ck) (pg_errors p = [])
         (Some category) False (length found) (pg_metrics p)\<rparr>)"
    using assms(1-4) p(1) by (simp add: dispatch_def criteria_of_def Let_def)
  then show ?thesis using p(2) by auto
qed

section \<open>A concrete engine for the witnesses\<close>

definition demo_registration :: "string \<Rightarrow> (string, unit) registration" where
  "demo_registration i = \<lparr>rg_dispatcher_id = i, rg_dispatcher = Some i, rg_category = Some EVENT,
     rg_message_types = None, rg_node_kind = Some None, rg_signature = Some [''envelope''], rg_bindings = None,
     rg_matcher = None, rg_owner = None\<rparr>"

definition demo_route :: "string \<Rightarrow> string \<Rightarrow> route" where
  "demo_route k i = \<lparr>rt_route_id = k, rt_enabled = True, rt_category = EVENT, rt_message_type = None,
     rt_dispatcher_id = Some i, rt_handler_id = None, rt_matches_topic = (\<lambda>t. True),
     rt_matches = (\<lambda>t c m. True)\<rparr>"

definition demo_registered :: "(string, unit) engine" where
  "demo_registered = snd (register_dispatcher (demo_registration ''b'') (snd (register_dispatcher (demo_registration ''a'') new_engine)))"

definition demo_engine :: "(string, unit) engine" where
  "demo_engine = snd (freeze (snd (register_route (Some (demo_route ''r2'' ''b''))
     (snd (register_route (Some (demo_route ''r1'' ''a'')) demo_registered)))))"

definition demo_entry :: "string \<Rightarrow> (string, unit) dispatch_entry" where
  "demo_entry i = \<lparr>de_dispatcher_id = i, de_dispatcher = i, de_category = EVENT, de_message_types = None,
     de_node_kind = None, de_accepts_context = False, de_bindings = None, de_matcher = None, de_owner = None\<rparr>"

definition demo_calls :: "string \<Rightarrow> unit pyval \<Rightarrow> dispatch_context option \<Rightarrow> (unit, unit) reply" where
  "demo_calls d input ctx = (if d = ''a'' then Raises else Returns (Topic ''out''))"

definition demo_platform :: "(string, unit, unit, unit) platform" where
  "demo_platform = \<lparr>pf_getattr = (\<lambda>v s. NoAttr), pf_str = (\<lambda>v. ''?''), pf_type_name = (\<lambda>v. ''dict''),
     pf_isoformat = (\<lambda>t. ''now''), pf_model_dump = (\<lambda>x. None), pf_vars = (\<lambda>x. None),
     pf_mock_module = (\<lambda>v. False), pf_parse_uuid = (\<lambda>s. None), pf_category_of_topic = (\<lambda>t. Some EVENT),
     pf_topic_suffix = (\<lambda>c. ''events''), pf_materialized_ok = (\<lambda>v. True), pf_outputs_ok = (\<lambda>ts. True),
     pf_result_ok = (\<lambda>ts. True), pf_call = demo_calls\<rparr>"

definition demo_clock :: dispatch_clock where
  "demo_clock = \<lparr>ck_now = (\<lambda>i. 0), ck_binding_ms = (\<lambda>i. 1), ck_dispatcher_ms = (\<lambda>i. 1), ck_total_ms = 2, ck_fresh_id = 1\<rparr>"

definition demo_envelope :: "unit pyval" where
  "demo_envelope = VDict [(VStr ''event_type'', VStr ''node.seen''), (VStr ''payload'', VDict [])]"

lemma demo_engine_eq:
  "demo_engine = \<lparr>en_routes = [(''r1'', demo_route ''r1'' ''a''), (''r2'', demo_route ''r2'' ''b'')],
     en_dispatchers = [(''a'', demo_entry ''a''), (''b'', demo_entry ''b'')],
     en_by_category = (\<lambda>c. if c = EVENT then [''a'', ''b''] else []), en_frozen = True,
     en_metrics = new_dispatch_metrics, en_resolution_metrics = empty_resolution_metrics\<rparr>"
  by (auto simp: demo_engine_def demo_registered_def register_dispatcher_def validate_dispatcher_registration_def
      demo_registration_def blank_def py_strip_def is_py_space_def register_dispatcher_unlocked_def new_engine_def
      dispatcher_accepts_context_def register_route_def demo_route_def route_dispatcher_id_def freeze_def demo_entry_def
      fun_eq_iff)

lemma demo_engine_reachable: "reach first_engine (engine_step pf) demo_engine"
proof -
  have "reach first_engine (engine_step pf) (new_engine :: (string, unit) engine)"
    by (rule reach_init) (simp add: first_engine_def)
  moreover have "engine_step pf DispatcherEvent e (snd (register_dispatcher g e))"
    "engine_step pf RouteEvent e (snd (register_route r e))" "engine_step pf FreezeEvent e (snd (freeze e))"
    for g r and e :: "(string, unit) engine"
    by (rule engine_step.intros, rule surjective_pairing)+
  ultimately show ?thesis unfolding demo_engine_def demo_registered_def by (meson reach_step)
qed

definition demo_criteria :: "string list option \<Rightarrow> unit criteria" where
  "demo_criteria scope = criteria_of demo_platform ''t'' demo_envelope scope EVENT"

lemma demo_found:
  "find_matching_dispatchers demo_engine (demo_criteria None) =
     Ok ([demo_entry ''a'', demo_entry ''b''], \<lparr>so_rejected = False, so_detail = None\<rparr>)"
  by (simp add: find_matching_dispatchers_def demo_engine_eq route_applies_def demo_route_def demo_criteria_def
      criteria_of_def route_dispatcher_id_def in_scope_def takes_type_def demo_entry_def routed_payload_def
      demo_envelope_def payload_matches_dispatcher_def)

section \<open>Properties\<close>

text \<open>
  C19: In every reachable engine each dispatcher is listed exactly once, under its category; after the freeze
  every route names a registered dispatcher, also when routes are added dynamically; and the metrics
  add up: dispatches, executions and errors are the sums of their parts.
\<close>
theorem engine_reachable_ok:
  "reach first_engine (engine_step pf) e \<Longrightarrow>
   (\<forall>c. distinct (en_by_category e c) \<and>
      set (en_by_category e c) = {i. \<exists>d. dict_get (en_dispatchers e) i = Some d \<and> de_category d = c}) \<and>
   (en_frozen e \<longrightarrow> (\<forall>(k, r) \<in> set (en_routes e). \<exists>i d. route_dispatcher_id r = Some i \<and>
      dict_get (en_dispatchers e) i = Some d)) \<and>
   ds_total (en_metrics e) = ds_successful (en_metrics e) + ds_failed (en_metrics e) \<and>
   ds_executions (en_metrics e) = total_of dm_execution_count (ds_dispatchers (en_metrics e)) \<and>
   ds_errors (en_metrics e) = total_of dm_error_count (ds_dispatchers (en_metrics e))"
  using engine_machine.reach_inv [of pf e] by (simp add: engine_ok_def dispatch_metrics_ok_def)

theorem engine_reachable_ok_witness:
  "set (en_by_category demo_engine EVENT) = {i. \<exists>d. dict_get (en_dispatchers demo_engine) i = Some d \<and> de_category d = EVENT} \<and>
   en_frozen demo_engine"
proof
  show "set (en_by_category demo_engine EVENT) =
      {i. \<exists>d. dict_get (en_dispatchers demo_engine) i = Some d \<and> de_category d = EVENT}"
    using engine_reachable_ok [OF demo_engine_reachable [of demo_platform]] by blast
qed (simp add: demo_engine_eq)

text \<open>
  C20: The dispatchers of a message are exactly those a reference reading of the routes gives: in the order
  of registration, each once, the registered dispatchers inside the scope that an enabled route for the
  topic, category and type names and that take the type and do not reject the payload. When there is
  none, a rejection is reported exactly if some candidate rejected the payload.
\<close>
theorem dispatch_targets:
  "reach first_engine (engine_step pf) e \<Longrightarrow> find_matching_dispatchers e c = Ok (found, so) \<Longrightarrow>
   map de_dispatcher_id found = targets e c (map snd (en_routes e)) \<and>
   (\<forall>d \<in> set found. dict_get (en_dispatchers e) (de_dispatcher_id d) = Some d) \<and>
   (found = [] \<longrightarrow> so_rejected so =
      (\<exists>d \<in> set (candidates e c (map snd (en_routes e))). \<exists>t. verdict c d = Some (Rejects t)))"
  using find_matching_found [of e c found so] found_in_scope(2) [of e c found so] engine_machine.reach_inv [of pf e]
  by (simp add: found_so_far_def)

theorem dispatch_targets_witness:
  "targets demo_engine (demo_criteria None) (map snd (en_routes demo_engine)) = [''a'', ''b'']"
proof -
  have "map de_dispatcher_id [demo_entry ''a'', demo_entry ''b''] =
      targets demo_engine (demo_criteria None) (map snd (en_routes demo_engine))"
    using dispatch_targets [OF demo_engine_reachable [of demo_platform] demo_found] by simp
  then show ?thesis by (simp add: demo_entry_def)
qed



text \<open>
  C22: A dispatch scoped to a set of dispatchers depends on no other: whatever the dispatchers outside the
  scope would do, the result and the engine are the same, for they are never called.
\<close>
theorem scope_confines_dispatch:
  assumes "reach first_engine (engine_step pf) e"
    "\<And>i d. i \<in> set ids \<Longrightarrow> dict_get (en_dispatchers e) i = Some d \<Longrightarrow> f (de_dispatcher d) = g (de_dispatcher d)"
  shows "dispatch_scoped (pf\<lparr>pf_call := f\<rparr>) ck topic envelope ids e =
    dispatch_scoped (pf\<lparr>pf_call := g\<rparr>) ck topic envelope ids e"
proof -
  have ok: "engine_ok e" using engine_machine.reach_inv assms(1) by blast
  have "event_type_of (pf\<lparr>pf_call := h\<rparr>) envelope = event_type_of pf envelope" for h
    by (cases "envelope_field (pf_getattr pf) envelope ''event_type''") (simp_all add: event_type_of_def)
  moreover have "routed_payload (pf\<lparr>pf_call := h\<rparr>) envelope = routed_payload pf envelope" for h
    by (cases envelope) (simp_all add: routed_payload_def)
  ultimately have same: "event_type_of (pf\<lparr>pf_call := h\<rparr>) envelope = event_type_of pf envelope"
    "routed_payload (pf\<lparr>pf_call := h\<rparr>) envelope = routed_payload pf envelope"
    "message_type_of (pf\<lparr>pf_call := h\<rparr>) envelope = message_type_of pf envelope" for h
    by (auto simp: message_type_of_def Let_def)
  have run: "run_all (pf\<lparr>pf_call := f\<rparr>) ck envelope topic found p = run_all (pf\<lparr>pf_call := g\<rparr>) ck envelope topic found p"
    if "find_matching_dispatchers e c = Ok (found, so)" "cr_scope c = Some ids" for c found so p
    using found_in_scope [OF ok that(1)] assms(2) that(2) by (intro run_all_call) (auto simp: in_scope_def)
  have none: "no_dispatcher_result (pf\<lparr>pf_call := f\<rparr>) ck envelope topic category so =
      no_dispatcher_result (pf\<lparr>pf_call := g\<rparr>) ck envelope topic category so" for category so
    by (simp add: no_dispatcher_result_def same)
  have report: "dispatch_report (pf\<lparr>pf_call := f\<rparr>) = dispatch_report (pf\<lparr>pf_call := g\<rparr>)"
    by (intro ext) (simp add: dispatch_report_def)
  show ?thesis
  proof (cases "dispatch_refused topic envelope (Some ids) e")
    case (Some code)
    then show ?thesis by (simp add: dispatch_scoped_def dispatch_def)
  next
    case refused: None
    show ?thesis
    proof (cases "pf_category_of_topic pf topic")
      case None
      then show ?thesis using refused by (simp add: dispatch_scoped_def dispatch_def)
    next
      case (Some category)
      show ?thesis
      proof (cases "find_matching_dispatchers e (criteria_of pf topic envelope (Some ids) category)")
        case (Inl err)
        then show ?thesis using refused Some by (simp add: dispatch_scoped_def dispatch_def criteria_of_def same Let_def)
      next
        case (Inr fs)
        obtain found so where fs: "fs = (found, so)" by (cases fs)
        with Inr have "run_all (pf\<lparr>pf_call := f\<rparr>) ck envelope topic found p =
            run_all (pf\<lparr>pf_call := g\<rparr>) ck envelope topic found p" for p
          using run by (simp add: criteria_of_def)
        then show ?thesis using refused Some Inr fs none
          by (cases "run_all (pf\<lparr>pf_call := g\<rparr>) ck envelope topic found (start_progress e)") (simp add: dispatch_scoped_def dispatch_def criteria_of_def same Let_def report)
      qed
    qed
  qed
qed

theorem scope_confines_dispatch_witness:
  "dispatch_scoped (demo_platform\<lparr>pf_call := demo_calls\<rparr>) demo_clock ''t'' demo_envelope [''b''] demo_engine =
   dispatch_scoped (demo_platform\<lparr>pf_call := \<lambda>d input ctx. if d = ''a'' then Stops else Returns (Topic ''out'')\<rparr>)
     demo_clock ''t'' demo_envelope [''b''] demo_engine"
  by (rule scope_confines_dispatch [OF demo_engine_reachable])
    (auto simp: demo_engine_eq demo_entry_def demo_calls_def fun_eq_iff)

end
