(* ===== verification/DispatchInputs.thy ===== *)
theory DispatchInputs imports DispatchRuns begin

text \<open>
  The dead letter topic of a message nobody handles, the inputs that reach a dispatcher, and the cases
  where the engine breaks its own rules.
\<close>

section \<open>Dead letter topics\<close>

lemma newline_is_space: "is_py_space CHR 0x0A"
  by (simp add: is_py_space_def)

lemma dlq_char_facts:
  assumes "dlq_category_char c"
  shows "ascii_lower c = c" "c \<noteq> CHR ''.''" "c \<noteq> CHR 0x0A" "\<not> is_py_space c"
  using assms by (auto simp: dlq_category_char_def ascii_lower_def is_dec_digit_def is_py_space_def Let_def)

lemma dlq_category_text:
  assumes "dlq_category s"
  shows "map ascii_lower s = s" "CHR ''.'' \<notin> set s" "py_strip s = s" "before_newline s = s" "s \<noteq> []"
proof -
  have c: "c \<in> set s \<Longrightarrow> dlq_category_char c" for c using assms by (simp add: dlq_category_def list_all_iff)
  show "map ascii_lower s = s" by (rule map_idI) (use c dlq_char_facts(1) in blast)
  show "CHR ''.'' \<notin> set s" using c dlq_char_facts(2) by blast
  show ne: "s \<noteq> []" using assms by (simp add: dlq_category_def)
  show "py_strip s = s" by (rule py_strip_id [OF ne]) (use c dlq_char_facts(4) in blast)
  show "before_newline s = s" using c dlq_char_facts(3) ne by (auto simp: before_newline_def dest: last_in_set)
qed

lemma normalize_category_ok: "dlq_category s \<Longrightarrow> dlq_category (normalize_category s)"
  by (auto simp: normalize_category_def dlq_category_def dlq_category_char_def)

lemma build_dlq_topic_ok:
  "dlq_category s \<Longrightarrow>
   build_dlq_topic fresh None s = Ok (join_with CHR ''.'' [''onex'', ''dlq'', ''omnibase-infra'', normalize_category s, ''v1''])"
  using dlq_category_text [of s] by (simp add: build_dlq_topic_def Let_def dlq_category_pattern_def)

lemma derive_from_event_type:
  assumes "py_strip t = prefix @ CHR ''.'' # rest" "dlq_category prefix"
  shows "derive_dlq_topic_for_event_type fresh suffix (Some t) topic =
    Ok (Some (join_with CHR ''.'' [''onex'', ''dlq'', ''omnibase-infra'', normalize_category prefix, ''v1'']))"
proof -
  note prefix = dlq_category_text [OF assms(2)]
  have "takeWhile (\<lambda>c. c \<noteq> CHR ''.'') (py_strip t) = prefix"
    using prefix(2) unfolding assms(1) by (subst takeWhile_append2) auto
  then show ?thesis
    using assms prefix build_dlq_topic_ok [OF assms(2), of fresh]
    by (simp add: derive_dlq_topic_for_event_type_def Let_def dlq_category_pattern_def)
qed

section \<open>Unroutable messages\<close>

text \<open>
  A message without a dispatcher is reported as such, counted as a failure and never as an execution.
  It is blamed on its publisher exactly if a dispatcher for it exists that rejected the payload, and
  a dotted event type sends it to the dead letter topic of its first segment.
\<close>
lemma unroutable_message:
  assumes "reach first_engine (engine_step pf) e" "dispatch_refused topic envelope scope e = None"
    "pf_category_of_topic pf topic = Some category"
    "find_matching_dispatchers e (criteria_of pf topic envelope scope category) = Ok ([], so)"
    "event_type_of pf envelope = prefix @ CHR ''.'' # rest" "dlq_category prefix"
  shows "\<exists>r e'. dispatch pf ck topic envelope scope e = (Ok r, e') \<and> dr_status r = NO_DISPATCHER \<and>
    dr_failure_class r = Some (if \<exists>d \<in> set (candidates e (criteria_of pf topic envelope scope category) (map snd (en_routes e))).
        \<exists>t. verdict (criteria_of pf topic envelope scope category) d = Some (Rejects t)
      then PUBLISHER_MALFORMED else FC_NO_DISPATCHER) \<and>
    dr_dlq_topic r = Some (join_with CHR ''.'' [''onex'', ''dlq'', ''omnibase-infra'', normalize_category prefix, ''v1'']) \<and>
    ds_failed (en_metrics e') = ds_failed (en_metrics e) + 1 \<and>
    ds_no_dispatcher (en_metrics e') = ds_no_dispatcher (en_metrics e) + 1 \<and>
    ds_executions (en_metrics e') = ds_executions (en_metrics e)"
proof -
  have "found_so_far e (criteria_of pf topic envelope scope category) (map snd (en_routes e)) [] so"
    using find_matching_found [OF _ assms(4)] engine_machine.reach_inv assms(1) by blast
  moreover have "py_strip (event_type_of pf envelope) = event_type_of pf envelope"
    by (cases "envelope_field (pf_getattr pf) envelope ''event_type''") (simp_all add: event_type_of_def)
  then have "derive_dlq_topic_for_event_type fresh suffix (Some (event_type_of pf envelope)) topic =
      Ok (Some (join_with CHR ''.'' [''onex'', ''dlq'', ''omnibase-infra'', normalize_category prefix, ''v1'']))" for fresh suffix
    using assms(5,6) by (intro derive_from_event_type [where rest = rest]) simp_all
  ultimately show ?thesis
    using assms(2-6) by (simp add: dispatch_def criteria_of_def Let_def no_dispatcher_result_def failed_result_def
        record_dispatch_def found_so_far_def)
qed


definition demo_sent :: "unit pyval" where
  "demo_sent = VDict [(VStr ''event_type'', VStr ''agent.done''), (VStr ''payload'', VDict [])]"

definition idle_engine :: "(string, unit) engine" where
  "idle_engine = snd (freeze new_engine)"

text \<open>
  The topics the engine sends dead letters to can be read back: parsing a built topic gives its
  producer, its normalised category and its version.
\<close>
lemma dlq_topic_roundtrip:
  "build_dlq_topic fresh None category = Ok topic \<Longrightarrow>
   parse_dlq_topic topic = Some (''onex'', ''omnibase-infra'',
     normalize_category (py_strip (map ascii_lower category)), ''v1'')"
proof -
  assume built: "build_dlq_topic fresh None category = Ok topic"
  let ?cat = "py_strip (map ascii_lower category)"
  have ne: "?cat \<noteq> []" and pat: "dlq_category_pattern ?cat"
    and topic: "topic = join_with CHR ''.'' [''onex'', ''dlq'', ''omnibase-infra'', normalize_category ?cat, ''v1'']"
    using built by (auto simp: build_dlq_topic_def Let_def split: if_splits)
  have "last ?cat \<noteq> CHR 0x0A" using py_strip_last [OF ne] newline_is_space by metis
  then have "dlq_category ?cat" using pat by (simp add: dlq_category_pattern_def before_newline_def)
  then have c: "dlq_category (normalize_category ?cat)" by (rule normalize_category_ok)
  note c' = dlq_category_text [OF c]
  have "py_split CHR ''.'' topic = [''onex'', ''dlq'', ''omnibase-infra'', normalize_category ?cat, ''v1'']"
    unfolding topic using c'(2) by (intro py_split_join) auto
  moreover have "before_newline topic = topic" unfolding topic by (simp add: before_newline_def join_with_Cons)
  ultimately show ?thesis
    using c c' by (simp add: parse_dlq_topic_def Let_def word_or_dash_def dlq_category_char_def dlq_version_def
        ascii_lower_def is_dec_digit_def)
qed

section \<open>Time and reducers\<close>

text \<open>
  C32: The context of a reducer or a compute node never carries the time. But a binding to
  \<^verbatim>\<open>context.now_iso\<close>, which the expression language offers to every node kind, hands the clock to it all the
  same, among the bindings of its input.
\<close>
theorem time_reaches_reducers:
  assumes "de_node_kind d = Some kind" "kind \<in> {REDUCER, COMPUTE}" "de_bindings d = Some sub"
    "extract_operation pf envelope = Some operation" "bindings_to_process sub operation = [b]"
    "bi_source b = Context" "bi_path_segments b = [''now_iso'']" "\<And>v. pf_materialized_ok pf v"
    "dispatcher_context pf ck d envelope = Some (Some ctx)"
  shows "dc_now ctx = None \<and> (\<exists>trace. fst (execute_dispatcher pf ck d envelope topic m) =
    pf_call pf (de_dispatcher d) (VDict [(VStr ''payload'', serialize_payload pf envelope),
      (VStr ''__bindings'', VDict [(VStr (bi_parameter_name b), VStr (pf_isoformat pf (ck_now ck (de_dispatcher_id d))))]),
      (VStr ''__debug_trace'', trace)]) (Some ctx))"
proof
  show "dc_now ctx = None"
    using assms(1,2,9) by (auto simp: dispatcher_context_def create_context_for_node_kind_def mk_dispatch_context_def
        Let_def split: if_splits)
  let ?iso = "VStr (pf_isoformat pf (ck_now ck (de_dispatcher_id d)))"
  have "binding_value attr operation n envelope (binding_context pf (ck_now ck (de_dispatcher_id d)) i cid) cid' b = Ok ?iso"
    for attr n i cid cid'
    using assms(6,7) by (simp add: binding_value_def resolve_single_binding_def traverse_path_def binding_context_def)
  then have "fst (dispatcher_bindings pf ck d envelope m) = Some [(bi_parameter_name b, ?iso)]"
    using assms(3-5) by (simp add: dispatcher_bindings_def resolve_def Let_def)
  then show "\<exists>trace. fst (execute_dispatcher pf ck d envelope topic m) =
      pf_call pf (de_dispatcher d) (VDict [(VStr ''payload'', serialize_payload pf envelope),
        (VStr ''__bindings'', VDict [(VStr (bi_parameter_name b), ?iso)]), (VStr ''__debug_trace'', trace)]) (Some ctx)"
    using assms(8,9) by (intro exI [where x = "debug_trace_snapshot pf envelope topic"])
      (simp add: execute_dispatcher_def split_beta materialize_envelope_def Let_def serialize_dict_def)
qed

definition clock_binding :: "unit binding" where
  "clock_binding = \<lparr>bi_parameter_name = ''at'', bi_source = Context, bi_path_segments = [''now_iso''], bi_required = True,
     bi_default = VNone, bi_original_expression = ''${context.now_iso}''\<rparr>"

definition clock_bindings :: "unit bindings_subcontract" where
  "clock_bindings = \<lparr>bs_additional_context_paths = [], bs_bindings = [(''fold'', [clock_binding])],
     bs_global_bindings = None, bs_max_json_recursion_depth = 100\<rparr>"

definition reducer_entry :: "(string, unit) dispatch_entry" where
  "reducer_entry = (demo_entry ''r'')\<lparr>de_node_kind := Some REDUCER, de_accepts_context := True,
     de_bindings := Some clock_bindings\<rparr>"

text \<open>An object with the attributes of an envelope, and a dispatcher that answers with its bindings.\<close>

definition typed_platform :: "(string, unit, unit pyval, unit) platform" where
  "typed_platform = \<lparr>pf_getattr = (\<lambda>v s. if v = VObj () \<and> s = ''operation'' then Attr (VStr ''fold'')
       else if v = VObj () then Attr VNone else NoAttr),
     pf_str = (\<lambda>v. ''?''), pf_type_name = (\<lambda>v. ''dict''), pf_isoformat = (\<lambda>t. ''2026-01-01''),
     pf_model_dump = (\<lambda>x. None), pf_vars = (\<lambda>x. None), pf_mock_module = (\<lambda>v. False), pf_parse_uuid = (\<lambda>s. None),
     pf_category_of_topic = (\<lambda>t. Some EVENT), pf_topic_suffix = (\<lambda>c. ''events''), pf_materialized_ok = (\<lambda>v. True),
     pf_outputs_ok = (\<lambda>ts. True), pf_result_ok = (\<lambda>ts. True),
     pf_call = (\<lambda>d input ctx. Returns (Result None [vdict_get input ''__bindings''] []))\<rparr>"

theorem time_reaches_reducers_witness:
  "events_of (fst (execute_dispatcher typed_platform demo_clock reducer_entry (VObj ()) ''t'' empty_resolution_metrics)) =
   [VDict [(VStr ''at'', VStr ''2026-01-01'')]]"
proof -
  let ?ctx = "\<lparr>dc_correlation_id = 1, dc_now = None, dc_node_kind = REDUCER\<rparr>"
  have "dc_now ?ctx = None \<and> (\<exists>trace. fst (execute_dispatcher typed_platform demo_clock reducer_entry (VObj ()) ''t''
      empty_resolution_metrics) = pf_call typed_platform (de_dispatcher reducer_entry)
      (VDict [(VStr ''payload'', serialize_payload typed_platform (VObj ())),
        (VStr ''__bindings'', VDict [(VStr (bi_parameter_name clock_binding),
           VStr (pf_isoformat typed_platform (ck_now demo_clock (de_dispatcher_id reducer_entry))))]),
        (VStr ''__debug_trace'', trace)]) (Some ?ctx))"
    by (rule time_reaches_reducers [where kind = REDUCER and sub = clock_bindings and operation = "''fold''"])
      (simp_all add: reducer_entry_def demo_entry_def bindings_to_process_def clock_bindings_def clock_binding_def
        typed_platform_def extract_operation_def envelope_field_def attr_or_none_def dispatcher_context_def has_attr_def
        create_context_for_node_kind_def mk_dispatch_context_def is_invalid_time_injection_def demo_clock_def)
  then show ?thesis by (auto simp: typed_platform_def clock_binding_def or_else_def)
qed

section \<open>Dictionary messages and dispatchers with a context\<close>

text \<open>
  The engine accepts messages that are dictionaries, but building a context reads attributes a
  dictionary does not have: a dispatcher with a node kind and a context parameter is never run on such a
  message, and every dispatch that selects one ends in an error.
\<close>
lemma dict_message_breaks_context:
  assumes "dispatch_refused topic (VDict kvs) scope e = None" "pf_category_of_topic pf topic = Some category"
    "find_matching_dispatchers e (criteria_of pf topic (VDict kvs) scope category) = Ok (found, so)"
    "\<And>d'. d' \<in> set found \<Longrightarrow> answer pf ck (VDict kvs) topic d' \<noteq> Stops"
    "\<And>outs. pf_result_ok pf outs" "\<And>name. pf_getattr pf (VDict kvs) name = NoAttr"
    "d \<in> set found" "de_node_kind d = Some kind" "de_accepts_context d"
  shows "answer pf ck (VDict kvs) topic d = Raises \<and>
    (\<exists>r e'. dispatch pf ck topic (VDict kvs) scope e = (Ok r, e') \<and> dr_status r = HANDLER_ERROR)"
proof
  show raises: "answer pf ck (VDict kvs) topic d = Raises"
    using assms(6,8,9) by (simp add: answer_def execute_dispatcher_def dispatcher_context_def has_attr_def
        split: prod.split option.split)
  have ne: "found \<noteq> []" using assms(7) by auto
  obtain p e' where run: "dispatch pf ck topic (VDict kvs) scope e =
      (Ok (dispatch_report pf e scope topic category (message_type_of pf (VDict kvs)) p), e')"
    "run_effect (answer pf ck (VDict kvs) topic) de_dispatcher_id found (start_progress e) p"
    using dispatch_runs [OF assms(1-3) ne, of ck] assms(4) by blast
  have "d \<in> set (filter (failing \<circ> answer pf ck (VDict kvs) topic) found)"
    using assms(7) raises by (simp add: failing_def)
  then have "pg_errors p \<noteq> []" using run(2) by (auto simp: run_effect_def start_progress_def filter_empty_conv)
  then show "\<exists>r e'. dispatch pf ck topic (VDict kvs) scope e = (Ok r, e') \<and> dr_status r = HANDLER_ERROR"
    using run(1) assms(5) by (simp add: dispatch_report_def Let_def)
qed

definition context_entry :: "(string, unit) dispatch_entry" where
  "context_entry = (demo_entry ''c'')\<lparr>de_node_kind := Some EFFECT, de_accepts_context := True\<rparr>"

definition engine_of :: "(string, unit) dispatch_entry \<Rightarrow> (string, unit) engine" where
  "engine_of d = new_engine\<lparr>en_routes := [(''r'', demo_route ''r'' (de_dispatcher_id d))],
     en_dispatchers := [(de_dispatcher_id d, d)], en_frozen := True\<rparr>"

lemma engine_of_found:
  "de_message_types d = None \<Longrightarrow> de_matcher d = None \<Longrightarrow>
   find_matching_dispatchers (engine_of d) (criteria_of pf topic envelope None EVENT) =
     Ok ([d], \<lparr>so_rejected = False, so_detail = None\<rparr>)"
  by (simp add: find_matching_dispatchers_def engine_of_def route_applies_def demo_route_def criteria_of_def
      route_dispatcher_id_def in_scope_def takes_type_def payload_matches_dispatcher_def)

lemma engine_of_accepts: "envelope \<noteq> VNone \<Longrightarrow> dispatch_refused ''t'' envelope None (engine_of d) = None"
  by (simp add: dispatch_refused_def engine_of_def blank_def py_strip_def is_py_space_def)

section \<open>Outputs that fail their validation\<close>

text \<open>
  When the collected output topics fail their validation, the caller gets an error, but the metrics, recorded
  before the validation, count the dispatch as a success.
\<close>
lemma invalid_outputs_count_as_success:
  assumes "dispatch_refused topic envelope scope e = None" "pf_category_of_topic pf topic = Some category"
    "find_matching_dispatchers e (criteria_of pf topic envelope scope category) = Ok (found, so)" "found \<noteq> []"
    "\<And>d. d \<in> set found \<Longrightarrow> answer pf ck envelope topic d \<noteq> Stops \<and> \<not> failing (answer pf ck envelope topic d)"
    "concat (map (topics_of \<circ> answer pf ck envelope topic) found) = outs" "outs \<noteq> []"
    "\<not> pf_outputs_ok pf outs" "pf_result_ok pf outs"
  shows "\<exists>r e'. dispatch pf ck topic envelope scope e = (Ok r, e') \<and> dr_status r = HANDLER_ERROR \<and>
    ds_successful (en_metrics e') = ds_successful (en_metrics e) + 1 \<and> ds_failed (en_metrics e') = ds_failed (en_metrics e)"
proof -
  obtain p e' where run: "dispatch pf ck topic envelope scope e =
      (Ok (dispatch_report pf e scope topic category (message_type_of pf envelope) p), e')"
    "run_effect (answer pf ck envelope topic) de_dispatcher_id found (start_progress e) p"
    "en_metrics e' = record_dispatch (ck_total_ms ck) (pg_errors p = []) (Some category) False (length found) (pg_metrics p)"
    using dispatch_runs [OF assms(1-4), of ck] assms(5) by blast
  have "pg_errors p = []" "pg_outputs p = outs"
    using run(2) assms(5,6) by (auto simp: run_effect_def start_progress_def filter_empty_conv)
  moreover have "ds_successful (pg_metrics p) = ds_successful (en_metrics e)" "ds_failed (pg_metrics p) = ds_failed (en_metrics e)"
    using run(2) by (simp_all add: run_effect_def start_progress_def)
  ultimately show ?thesis using run(1,3) assms(7-9) by (simp add: dispatch_report_def Let_def record_dispatch_def)
qed

end
