(* ===== verification/InferenceGateway.thy ===== *)
theory InferenceGateway imports Interfaces InfraErrors "HOL-Library.Product_Lexorder" begin

text \<open>
  The LLM gateway of \<^verbatim>\<open>nodes/node_llm_inference_effect/handlers/bifrost\<close>: routing rules, failover over the
  backends of the matching rule, one circuit breaker per backend, and the shadow policy that is
  evaluated beside the static decision.

  Arguments of the model: the monotonic clock, the outcome of each inference call, what other coroutines do
  to the circuit states while this one waits (a lock is held only inside an operation on one circuit), HMAC
  and the text of the current time. Cancellation of the calling task and the wording of the error message
  are not modelled; latencies are arguments.
\<close>

section \<open>Requests and configuration\<close>

datatype llm_operation = CHAT_COMPLETION | COMPLETION | EMBEDDING

fun llm_operation_value :: "llm_operation \<Rightarrow> string" where
  "llm_operation_value CHAT_COMPLETION = ''chat_completion''"
| "llm_operation_value COMPLETION = ''completion''"
| "llm_operation_value EMBEDDING = ''embedding''"

datatype cost_tier = LOW | MID | HIGH

fun cost_tier_value :: "cost_tier \<Rightarrow> string" where
  "cost_tier_value LOW = ''low''"
| "cost_tier_value MID = ''mid''"
| "cost_tier_value HIGH = ''high''"

record bifrost_backend =
  bk_backend_id :: string
  bk_base_url :: string
  bk_hmac_secret :: "string option"
  bk_model_name :: "string option"
  bk_timeout_ms :: "int option"
  bk_weight :: int

text \<open>The field constraints that pydantic checks when an object of the class is built.\<close>

definition within_opt :: "'a::order \<Rightarrow> 'a \<Rightarrow> 'a option \<Rightarrow> bool" where
  "within_opt a b x = (case x of None \<Rightarrow> True | Some v \<Rightarrow> a \<le> v \<and> v \<le> b)"

definition mk_backend :: "bifrost_backend \<Rightarrow> infra_error + bifrost_backend" where
  "mk_backend b =
     (if 1 \<le> length (bk_backend_id b) \<and> length (bk_backend_id b) \<le> 128 \<and> 1 \<le> length (bk_base_url b) \<and>
         (case bk_hmac_secret b of None \<Rightarrow> True | Some k \<Rightarrow> length k \<le> 256) \<and>
         within_opt 100 600000 (bk_timeout_ms b) \<and> 1 \<le> bk_weight b
      then Ok b else Err ValidationError)"

record routing_rule =
  rr_rule_id :: uuid
  rr_priority :: int
  rr_match_operation_types :: "string list"
  rr_match_capabilities :: "string list"
  rr_match_cost_tiers :: "string list"
  rr_match_max_latency_ms_lte :: "int option"
  rr_backend_ids :: "string list"

definition mk_routing_rule :: "routing_rule \<Rightarrow> infra_error + routing_rule" where
  "mk_routing_rule r =
     (if 0 \<le> rr_priority r \<and> (case rr_match_max_latency_ms_lte r of None \<Rightarrow> True | Some n \<Rightarrow> 1 \<le> n) \<and>
         1 \<le> length (rr_backend_ids r)
      then Ok r else Err ValidationError)"

record bifrost_config =
  bf_backends :: "(string, bifrost_backend) py_dict"
  bf_routing_rules :: "routing_rule list"
  bf_default_backends :: "string list"
  bf_failover_attempts :: int
  bf_failover_backoff_base_ms :: int
  bf_failure_threshold :: int
  bf_window_seconds :: int
  bf_request_timeout_ms :: int
  bf_health_check_interval_seconds :: int

definition mk_bifrost_config :: "bifrost_config \<Rightarrow> infra_error + bifrost_config" where
  "mk_bifrost_config c =
     (if 1 \<le> length (bf_backends c) \<and> 1 \<le> bf_failover_attempts c \<and> bf_failover_attempts c \<le> 10 \<and>
         0 \<le> bf_failover_backoff_base_ms c \<and> bf_failover_backoff_base_ms c \<le> 10000 \<and>
         1 \<le> bf_failure_threshold c \<and> bf_failure_threshold c \<le> 100 \<and>
         1 \<le> bf_window_seconds c \<and> bf_window_seconds c \<le> 3600 \<and>
         100 \<le> bf_request_timeout_ms c \<and> bf_request_timeout_ms c \<le> 600000 \<and>
         1 \<le> bf_health_check_interval_seconds c \<and> bf_health_check_interval_seconds c \<le> 300
      then Ok c else Err ValidationError)"

record bifrost_request =
  br_operation_type :: llm_operation
  br_capabilities :: "string list"
  br_max_latency_ms :: int
  br_cost_tier :: cost_tier
  br_tenant_id :: uuid
  br_model :: "string option"
  br_messages :: "json list"
  br_prompt :: "string option"
  br_system_prompt :: "string option"
  br_max_tokens :: "int option"
  br_temperature :: "real option"
  br_correlation_id :: uuid
  br_session_id :: "string option"
  br_run_id :: "string option"

definition mk_bifrost_request :: "bifrost_request \<Rightarrow> infra_error + bifrost_request" where
  "mk_bifrost_request r =
     (if 1 \<le> br_max_latency_ms r \<and> br_max_latency_ms r \<le> 600000 \<and>
         (case br_max_tokens r of None \<Rightarrow> True | Some n \<Rightarrow> 1 \<le> n) \<and> within_opt 0 2 (br_temperature r) \<and>
         (case br_session_id r of None \<Rightarrow> True | Some t \<Rightarrow> length t \<le> 255) \<and>
         (case br_run_id r of None \<Rightarrow> True | Some t \<Rightarrow> length t \<le> 255)
      then Ok r else Err ValidationError)"

text \<open>The inference request the gateway builds; the fields it leaves at their defaults are not listed.\<close>

record inference_request =
  ir_endpoint_url :: string
  ir_base_url :: string
  ir_operation_type :: llm_operation
  ir_model :: string
  ir_messages :: "json list"
  ir_prompt :: "string option"
  ir_system_prompt :: "string option"
  ir_max_tokens :: "int option"
  ir_temperature :: "real option"
  ir_extra_headers :: "(string, string) py_dict"
  ir_timeout_seconds :: seconds

definition starts_with :: "string \<Rightarrow> string \<Rightarrow> bool" where
  "starts_with p s \<longleftrightarrow> take (length p) s = p"

definition has_http_scheme :: "string \<Rightarrow> bool" where
  "has_http_scheme u \<longleftrightarrow> starts_with ''http://'' u \<or> starts_with ''https://'' u"

definition validate_prompt_or_messages :: "inference_request \<Rightarrow> bool" where
  "validate_prompt_or_messages q \<longleftrightarrow>
     \<not> (ir_operation_type q = CHAT_COMPLETION \<and> ir_messages q = [] \<and>
        (ir_system_prompt q = None \<or> ir_system_prompt q = Some [])) \<and>
     \<not> (ir_operation_type q = COMPLETION \<and> ir_prompt q = None)"

definition mk_inference_request :: "inference_request \<Rightarrow> infra_error + inference_request" where
  "mk_inference_request q =
     (if 1 \<le> length (ir_endpoint_url q) \<and> has_http_scheme (ir_endpoint_url q) \<and>
         1 \<le> length (ir_base_url q) \<and> has_http_scheme (ir_base_url q) \<and> 1 \<le> length (ir_model q) \<and>
         (case ir_max_tokens q of None \<Rightarrow> True | Some n \<Rightarrow> 1 \<le> n) \<and> within_opt 0 2 (ir_temperature q) \<and>
         1 \<le> ir_timeout_seconds q \<and> ir_timeout_seconds q \<le> 1800 \<and> validate_prompt_or_messages q
      then Ok q else Err ValidationError)"

section \<open>Routing\<close>

definition rule_matches :: "routing_rule \<Rightarrow> bifrost_request \<Rightarrow> bool" where
  "rule_matches rule r \<longleftrightarrow>
     \<not> (rr_match_operation_types rule \<noteq> [] \<and>
        llm_operation_value (br_operation_type r) \<notin> set (rr_match_operation_types rule)) \<and>
     \<not> (rr_match_capabilities rule \<noteq> [] \<and> \<not> set (rr_match_capabilities rule) \<subseteq> set (br_capabilities r)) \<and>
     \<not> (rr_match_cost_tiers rule \<noteq> [] \<and> cost_tier_value (br_cost_tier r) \<notin> set (rr_match_cost_tiers rule)) \<and>
     (case rr_match_max_latency_ms_lte rule of None \<Rightarrow> True | Some n \<Rightarrow> \<not> br_max_latency_ms r > n)"

definition ordered_rules :: "bifrost_config \<Rightarrow> routing_rule list" where
  "ordered_rules c = map snd (sort_key (\<lambda>(i, rule). (rr_priority rule, i)) (enumerate 0 (bf_routing_rules c)))"

definition evaluate_rules :: "bifrost_config \<Rightarrow> bifrost_request \<Rightarrow> string list \<times> routing_rule option" where
  "evaluate_rules c r =
     (case find (\<lambda>rule. rule_matches rule r) (ordered_rules c) of
        Some rule \<Rightarrow> (rr_backend_ids rule, Some rule)
      | None \<Rightarrow> (bf_default_backends c, None))"

section \<open>Circuits\<close>

record backend_circuit =
  bc_failure_count :: int
  bc_opened_at :: "seconds option"

type_synonym circuits = "(string, backend_circuit) py_dict"

definition new_circuit :: backend_circuit where
  "new_circuit = \<lparr>bc_failure_count = 0, bc_opened_at = None\<rparr>"

text \<open>The state of a backend, created on its first use.\<close>

definition get_circuit_state :: "string \<Rightarrow> circuits \<Rightarrow> backend_circuit \<times> circuits" where
  "get_circuit_state b s =
     (case dict_get s b of Some x \<Rightarrow> (x, s) | None \<Rightarrow> (new_circuit, dict_put b new_circuit s))"

definition is_circuit_open :: "bifrost_config \<Rightarrow> string \<Rightarrow> seconds \<Rightarrow> circuits \<Rightarrow> bool \<times> circuits" where
  "is_circuit_open c b now s0 =
     (let (x, s) = get_circuit_state b s0 in
      if bc_failure_count x < bf_failure_threshold c then (False, s)
      else case bc_opened_at x of
        None \<Rightarrow> (True, dict_put b (x\<lparr>bc_opened_at := Some now\<rparr>) s)
      | Some t \<Rightarrow>
          if now - t \<ge> of_int (bf_window_seconds c) then (False, dict_put b (x\<lparr>bc_opened_at := None\<rparr>) s)
          else (True, s))"

definition record_success :: "string \<Rightarrow> circuits \<Rightarrow> circuits" where
  "record_success b s0 =
     (let (x, s) = get_circuit_state b s0 in dict_put b (x\<lparr>bc_failure_count := 0, bc_opened_at := None\<rparr>) s)"

definition record_failure :: "bifrost_config \<Rightarrow> string \<Rightarrow> seconds \<Rightarrow> circuits \<Rightarrow> circuits" where
  "record_failure c b now s0 =
     (let (x, s) = get_circuit_state b s0;
          n = bc_failure_count x + 1 in
      dict_put b (x\<lparr>bc_failure_count := n,
        bc_opened_at := (if n \<ge> bf_failure_threshold c \<and> bc_opened_at x = None then Some now
                         else bc_opened_at x)\<rparr>) s)"

definition get_circuit_failure_count :: "string \<Rightarrow> circuits \<Rightarrow> int" where
  "get_circuit_failure_count b s = (case dict_get s b of Some x \<Rightarrow> bc_failure_count x | None \<Rightarrow> 0)"

definition is_circuit_open_sync :: "bifrost_config \<Rightarrow> string \<Rightarrow> seconds \<Rightarrow> circuits \<Rightarrow> bool" where
  "is_circuit_open_sync c b now s =
     (case dict_get s b of
        None \<Rightarrow> False
      | Some x \<Rightarrow>
          if bc_failure_count x < bf_failure_threshold c then False
          else case bc_opened_at x of None \<Rightarrow> False | Some t \<Rightarrow> now - t < of_int (bf_window_seconds c))"

section \<open>The call of one backend\<close>

record signer =
  gs_hmac_sha256 :: "string \<Rightarrow> string \<Rightarrow> string"
  gs_utc_now :: string

definition compute_gateway_signature :: "signer \<Rightarrow> string \<Rightarrow> string \<Rightarrow> string" where
  "compute_gateway_signature g secret cid =
     ''hmac-sha256-'' @ gs_hmac_sha256 g secret (cid @ '':'' @ gs_utc_now g)"

text \<open>\<open>x or y\<close> on an optional text, where the empty text counts as absent.\<close>

definition text_or :: "string option \<Rightarrow> string \<Rightarrow> string" where
  "text_or x y = (case x of Some (c # cs) \<Rightarrow> c # cs | _ \<Rightarrow> y)"

definition build_inference_request ::
  "bifrost_config \<Rightarrow> signer \<Rightarrow> bifrost_request \<Rightarrow> bifrost_backend \<Rightarrow> infra_error + inference_request" where
  "build_inference_request c g r b =
     (let model_name = text_or (br_model r) (text_or (bk_model_name b) (llm_operation_value (br_operation_type r)));
          timeout_ms = (case bk_timeout_ms b of
                          Some t \<Rightarrow> if t = 0 then bf_request_timeout_ms c else t
                        | None \<Rightarrow> bf_request_timeout_ms c);
          headers = (case bk_hmac_secret b of
                       Some (k # ks) \<Rightarrow>
                         [(''X-ONEX-Signature'', compute_gateway_signature g (k # ks) (uuid_str (br_correlation_id r)))]
                     | _ \<Rightarrow> []) in
      mk_inference_request
        \<lparr>ir_endpoint_url = bk_base_url b, ir_base_url = bk_base_url b, ir_operation_type = br_operation_type r,
         ir_model = model_name, ir_messages = br_messages r, ir_prompt = br_prompt r,
         ir_system_prompt = br_system_prompt r, ir_max_tokens = br_max_tokens r, ir_temperature = br_temperature r,
         ir_extra_headers = headers, ir_timeout_seconds = of_int timeout_ms / 1000\<rparr>)"

section \<open>Failover\<close>

text \<open>
  What the iteration for one candidate meets: the other coroutines before the check of the circuit and
  during the sleep and the call, the clocks, the signer, and the answer of the backend (\<open>None\<close>: it raises).
\<close>

record 'r meeting =
  mt_before :: "circuits \<Rightarrow> circuits"
  mt_check_time :: seconds
  mt_during :: "circuits \<Rightarrow> circuits"
  mt_signer :: signer
  mt_answer :: "inference_request \<Rightarrow> 'r option"
  mt_failure_time :: seconds

datatype gateway_event = Slept seconds | Sent string inference_request

definition failover_delay :: "bifrost_config \<Rightarrow> nat \<Rightarrow> seconds" where
  "failover_delay c attempted = of_int (bf_failover_backoff_base_ms c * 2 ^ (attempted - 1)) / 1000"

text \<open>What the \<^verbatim>\<open>try\<close> block does: the answer, if there is one, and what was sent.\<close>

definition call_backend ::
  "bifrost_config \<Rightarrow> bifrost_request \<Rightarrow> string \<Rightarrow> bifrost_backend \<Rightarrow> 'r meeting \<Rightarrow> 'r option \<times> gateway_event list" where
  "call_backend c r b cfg m =
     (case build_inference_request c (mt_signer m) r cfg of
        Err e \<Rightarrow> (None, [])
      | Ok q \<Rightarrow> (mt_answer m q, [Sent b q]))"

fun attempt_backends ::
  "bifrost_config \<Rightarrow> bifrost_request \<Rightarrow> nat \<Rightarrow> (string \<times> 'r meeting) list \<Rightarrow> circuits \<Rightarrow>
   ('r option \<times> string \<times> nat) \<times> circuits \<times> gateway_event list" where
  "attempt_backends c r attempted [] s = ((None, [], attempted), s, [])"
| "attempt_backends c r attempted ((b, m) # rest) s =
     (if int attempted \<ge> bf_failover_attempts c then ((None, [], attempted), s, [])
      else case dict_get (bf_backends c) b of
        None \<Rightarrow> attempt_backends c r attempted rest s
      | Some cfg \<Rightarrow>
          let (opened, s1) = is_circuit_open c b (mt_check_time m) (mt_before m s) in
          if opened then attempt_backends c r attempted rest s1
          else
            let slept = (if attempted > 0 then [Slept (failover_delay c attempted)] else []);
                (answer, sent) = call_backend c r b cfg m;
                s2 = mt_during m s1 in
            case answer of
              Some response \<Rightarrow> ((Some response, b, attempted), record_success b s2, slept @ sent)
            | None \<Rightarrow>
                let (res, s3, es) =
                  attempt_backends c r (Suc attempted) rest (record_failure c b (mt_failure_time m) s2) in
                (res, s3, slept @ sent @ es))"

section \<open>The shadow policy\<close>

record shadow_config =
  sh_enabled :: bool
  sh_log_sample_rate :: real
  sh_comparison_logging_enabled :: bool
  sh_max_shadow_latency_ms :: real
  sh_policy_version :: string

definition mk_shadow_config :: "shadow_config \<Rightarrow> infra_error + shadow_config" where
  "mk_shadow_config h =
     (if 0 \<le> sh_log_sample_rate h \<and> sh_log_sample_rate h \<le> 1 \<and>
         1 / 10 \<le> sh_max_shadow_latency_ms h \<and> sh_max_shadow_latency_ms h \<le> 100 \<and>
         length (sh_policy_version h) \<le> 128
      then Ok h else Err ValidationError)"

definition run_shadow :: "shadow_config \<Rightarrow> bool \<Rightarrow> real \<Rightarrow> bool" where
  "run_shadow h has_policy draw \<longleftrightarrow>
     sh_enabled h \<and> has_policy \<and> (sh_log_sample_rate h \<ge> 1 \<or> draw \<le> sh_log_sample_rate h)"

record shadow_log =
  sl_correlation_id :: uuid
  sl_static_backend_selected :: string
  sl_shadow_backend_recommended :: string
  sl_agreed :: bool
  sl_static_rule_id :: "uuid option"
  sl_request_operation_type :: string
  sl_request_cost_tier :: string
  sl_request_max_latency_ms :: int
  sl_shadow_confidence :: real
  sl_policy_version :: string
  sl_action_distribution :: "(string, real) py_dict"
  sl_tenant_id :: uuid

text \<open>
  The recommendation is a backend, a confidence and a distribution; \<open>None\<close> when the policy raises or exceeds
  its time. The result is the entry the callback receives, if it is called; the gateway ignores what the
  callback does.
\<close>

definition evaluate_shadow_policy ::
  "shadow_config \<Rightarrow> bool \<Rightarrow> bifrost_request \<Rightarrow> string \<Rightarrow> uuid option \<Rightarrow>
   (string \<times> real \<times> (string, real) py_dict) option \<Rightarrow> shadow_log option" where
  "evaluate_shadow_policy h has_callback r backend rule_id recommendation =
     (case recommendation of
        None \<Rightarrow> None
      | Some (recommended, confidence, distribution) \<Rightarrow>
          if 0 \<le> confidence \<and> confidence \<le> 1 \<and> 1 \<le> br_max_latency_ms r \<and> length (sh_policy_version h) \<le> 128 then
            if has_callback \<and> sh_comparison_logging_enabled h then
              Some \<lparr>sl_correlation_id = br_correlation_id r, sl_static_backend_selected = backend,
                    sl_shadow_backend_recommended = recommended, sl_agreed = (recommended = backend),
                    sl_static_rule_id = rule_id,
                    sl_request_operation_type = llm_operation_value (br_operation_type r),
                    sl_request_cost_tier = cost_tier_value (br_cost_tier r),
                    sl_request_max_latency_ms = br_max_latency_ms r, sl_shadow_confidence = confidence,
                    sl_policy_version = sh_policy_version h, sl_action_distribution = distribution,
                    sl_tenant_id = br_tenant_id r\<rparr>
            else None
          else None)"

section \<open>Handling a request\<close>

record 'r bifrost_response =
  bp_backend_selected :: string
  bp_matched_rule_id :: "uuid option"
  bp_latency_ms :: real
  bp_retry_count :: nat
  bp_tenant_id :: uuid
  bp_correlation_id :: uuid
  bp_inference_response :: "'r option"
  bp_success :: bool

text \<open>The world of a whole request gives the meeting of each position in the list of candidates.\<close>

definition handle_request ::
  "bifrost_config \<Rightarrow> bifrost_request \<Rightarrow> (nat \<Rightarrow> 'r meeting) \<Rightarrow> real \<Rightarrow> circuits \<Rightarrow>
   'r bifrost_response \<times> circuits \<times> gateway_event list" where
  "handle_request c r w latency s =
     (let (candidates, rule) = evaluate_rules c r;
          ((result, backend, retries), s', es) =
            attempt_backends c r 0 (map (\<lambda>(i, b). (b, w i)) (enumerate 0 candidates)) s;
          rule_id = map_option rr_rule_id rule in
      case result of
        None \<Rightarrow>
          (\<lparr>bp_backend_selected = [], bp_matched_rule_id = rule_id, bp_latency_ms = latency,
            bp_retry_count = retries, bp_tenant_id = br_tenant_id r, bp_correlation_id = br_correlation_id r,
            bp_inference_response = None, bp_success = False\<rparr>, s', es)
      | Some response \<Rightarrow>
          (\<lparr>bp_backend_selected = backend, bp_matched_rule_id = rule_id, bp_latency_ms = latency,
            bp_retry_count = retries, bp_tenant_id = br_tenant_id r, bp_correlation_id = br_correlation_id r,
            bp_inference_response = Some response, bp_success = True\<rparr>, s', es))"

text \<open>
  The shadow policy runs in a task of its own, which nothing waits for: the response, the circuits and the
  calls are those of \<open>handle_request\<close>, and the last component is what its callback receives.
\<close>

definition handle_request_with_shadow ::
  "shadow_config \<Rightarrow> bool \<Rightarrow> bool \<Rightarrow> real \<Rightarrow> (string \<times> real \<times> (string, real) py_dict) option \<Rightarrow>
   bifrost_config \<Rightarrow> bifrost_request \<Rightarrow> (nat \<Rightarrow> 'r meeting) \<Rightarrow> real \<Rightarrow> circuits \<Rightarrow>
   ('r bifrost_response \<times> circuits \<times> gateway_event list) \<times> shadow_log option" where
  "handle_request_with_shadow h has_policy has_callback draw recommendation c r w latency s =
     (let (response, s', es) = handle_request c r w latency s in
      ((response, s', es),
       if run_shadow h has_policy draw
       then evaluate_shadow_policy h has_callback r (bp_backend_selected response) (bp_matched_rule_id response)
              recommendation
       else None))"

end
