(* ===== verification/GatewayProps.thy ===== *)
theory GatewayProps imports InferenceGateway begin

text \<open>
  What the LLM gateway guarantees: which rule and which backend serve a request, how its circuits ration the
  calls of a failing backend, and how requests it cannot translate wear these circuits out.
\<close>

section \<open>Routing\<close>

lemma find_map: "find P (map f xs) = map_option f (find (P \<circ> f) xs)"
  by (induction xs) simp_all

lemma find_sorted:
  assumes "sorted (map k xs)" "find P xs = Some x"
  shows "P x \<and> x \<in> set xs \<and> (\<forall>y \<in> set xs. P y \<longrightarrow> k x \<le> k y)"
  using assms by (induction xs) (auto split: if_splits)

lemma find_in: "find P xs = Some x \<Longrightarrow> x \<in> set xs"
  by (auto simp: find_Some_iff)

lemma in_enumerate: "(i, x) \<in> set (enumerate 0 xs) \<longleftrightarrow> i < length xs \<and> x = xs ! i"
  by (auto simp: enumerate_eq_zip in_set_zip intro!: exI [of _ i])

lemma ordered_rules_set: "set (ordered_rules c) = set (bf_routing_rules c)"
proof -
  have "set (ordered_rules c) = set (map snd (enumerate 0 (bf_routing_rules c)))"
    unfolding ordered_rules_def by (simp only: set_map set_sort)
  then show ?thesis by simp
qed

lemma first_matching_rule:
  assumes "find Q (ordered_rules c) = Some rule"
  obtains i where "i < length (bf_routing_rules c)" "rule = bf_routing_rules c ! i" "Q rule"
    "\<forall>j < length (bf_routing_rules c). Q (bf_routing_rules c ! j) \<longrightarrow>
       (rr_priority rule, i) \<le> (rr_priority (bf_routing_rules c ! j), j)"
proof -
  let ?k = "\<lambda>(i, rule). (rr_priority rule, i)"
  let ?ps = "sort_key ?k (enumerate 0 (bf_routing_rules c))"
  from assms obtain i where f: "find (Q \<circ> snd) ?ps = Some (i, rule)"
    by (auto simp: ordered_rules_def find_map)
  have "sorted (map ?k ?ps)" by simp
  from find_sorted [OF this f] have
    "Q rule" "(i, rule) \<in> set (enumerate 0 (bf_routing_rules c))"
    "\<forall>y \<in> set (enumerate 0 (bf_routing_rules c)). (Q \<circ> snd) y \<longrightarrow> ?k (i, rule) \<le> ?k y"
    by simp_all
  then show thesis
    by (intro that [of i]) (simp_all add: in_enumerate Ball_def)
qed

section \<open>One circuit\<close>

definition circuit_at :: "string \<Rightarrow> circuits \<Rightarrow> backend_circuit" where
  "circuit_at b s = (case dict_get s b of Some x \<Rightarrow> x | None \<Rightarrow> new_circuit)"

lemma get_circuit_state_eq:
  obtains s' where "get_circuit_state b s = (circuit_at b s, s')" "\<And>b'. circuit_at b' s' = circuit_at b' s"
  by (cases "dict_get s b") (auto simp: get_circuit_state_def circuit_at_def dict_get_put)

lemma circuit_at_put: "circuit_at b' (dict_put b x s) = (if b' = b then x else circuit_at b' s)"
  by (simp add: circuit_at_def dict_get_put)

lemma failure_count_eq: "get_circuit_failure_count b s = bc_failure_count (circuit_at b s)"
  by (simp add: get_circuit_failure_count_def circuit_at_def new_circuit_def split: option.split)

text \<open>Whether a circuit refuses a request at a time, and what the check does to it.\<close>

definition refuses :: "bifrost_config \<Rightarrow> seconds \<Rightarrow> backend_circuit \<Rightarrow> bool" where
  "refuses c now x \<longleftrightarrow> bf_failure_threshold c \<le> bc_failure_count x \<and>
     (case bc_opened_at x of None \<Rightarrow> True | Some t \<Rightarrow> now - t < of_int (bf_window_seconds c))"

definition checked :: "bifrost_config \<Rightarrow> seconds \<Rightarrow> backend_circuit \<Rightarrow> backend_circuit" where
  "checked c now x =
     (if bc_failure_count x < bf_failure_threshold c then x
      else case bc_opened_at x of
        None \<Rightarrow> x\<lparr>bc_opened_at := Some now\<rparr>
      | Some t \<Rightarrow> if refuses c now x then x else x\<lparr>bc_opened_at := None\<rparr>)"

lemma is_circuit_open_eq:
  "fst (is_circuit_open c b now s) = refuses c now (circuit_at b s)"
  "circuit_at b' (snd (is_circuit_open c b now s)) =
     (if b' = b then checked c now (circuit_at b s) else circuit_at b' s)"
  by (rule get_circuit_state_eq [of b s];
      simp add: is_circuit_open_def Let_def refuses_def checked_def circuit_at_put not_less split: option.split)+

lemma record_success_eq:
  "circuit_at b' (record_success b s) =
     (if b' = b then \<lparr>bc_failure_count = 0, bc_opened_at = None\<rparr> else circuit_at b' s)"
  by (rule get_circuit_state_eq [of b s]) (simp add: record_success_def circuit_at_put)

definition failed_circuit :: "bifrost_config \<Rightarrow> seconds \<Rightarrow> backend_circuit \<Rightarrow> backend_circuit" where
  "failed_circuit c now x = x\<lparr>bc_failure_count := bc_failure_count x + 1,
     bc_opened_at := (if bc_failure_count x + 1 \<ge> bf_failure_threshold c \<and> bc_opened_at x = None
                      then Some now else bc_opened_at x)\<rparr>"

lemma record_failure_eq:
  "circuit_at b' (record_failure c b now s) =
     (if b' = b then failed_circuit c now (circuit_at b s) else circuit_at b' s)"
  by (rule get_circuit_state_eq [of b s]) (simp add: record_failure_def failed_circuit_def Let_def circuit_at_put)

lemma checked_count [simp]: "bc_failure_count (checked c now x) = bc_failure_count x"
  by (simp add: checked_def split: option.split)

lemma failed_count [simp]: "bc_failure_count (failed_circuit c now x) = bc_failure_count x + 1"
  by (simp add: failed_circuit_def)

section \<open>Probes of a failing backend\<close>

text \<open>
  The operations on the circuits, each one atomic: however the calls of the gateway interleave, what happens
  to the circuits is a list of them.
\<close>

datatype circuit_op = Check string | Success string | Failure string

fun circuit_step :: "bifrost_config \<Rightarrow> seconds \<Rightarrow> circuit_op \<Rightarrow> circuits \<Rightarrow> circuits" where
  "circuit_step c t (Check b) s = snd (is_circuit_open c b t s)"
| "circuit_step c t (Success b) s = record_success b s"
| "circuit_step c t (Failure b) s = record_failure c b t s"

text \<open>The times at which a check of the backend \<open>b\<close> admits a call.\<close>

fun admissions :: "bifrost_config \<Rightarrow> string \<Rightarrow> (seconds \<times> circuit_op) list \<Rightarrow> circuits \<Rightarrow> seconds list" where
  "admissions c b [] s = []"
| "admissions c b ((t, op) # ops) s =
     (if op = Check b \<and> \<not> fst (is_circuit_open c b t s) then [t] else []) @
     admissions c b ops (circuit_step c t op s)"

definition blocked_from :: "bifrost_config \<Rightarrow> backend_circuit \<Rightarrow> seconds \<Rightarrow> bool" where
  "blocked_from c x t \<longleftrightarrow> bf_failure_threshold c \<le> bc_failure_count x \<and>
     (case bc_opened_at x of None \<Rightarrow> True | Some u \<Rightarrow> t \<le> u)"

lemma blocked_from_mono: "blocked_from c x t \<Longrightarrow> t' \<le> t \<Longrightarrow> blocked_from c x t'"
  by (auto simp: blocked_from_def split: option.splits)

lemma circuit_step_blocked:
  assumes "blocked_from c (circuit_at b s) t" "t \<le> now" "op \<noteq> Success b"
  shows "blocked_from c (circuit_at b (circuit_step c now op s)) t"
  using assms
  by (cases op) (auto simp: is_circuit_open_eq record_success_eq record_failure_eq checked_def failed_circuit_def
      blocked_from_def split: option.splits)

lemma admitted_late:
  "blocked_from c (circuit_at b s) t \<Longrightarrow> \<not> fst (is_circuit_open c b now s) \<Longrightarrow> t + of_int (bf_window_seconds c) \<le> now"
  by (auto simp: blocked_from_def is_circuit_open_eq refuses_def split: option.splits)

lemma admitted_resets:
  assumes "blocked_from c (circuit_at b s) t" "\<not> fst (is_circuit_open c b now s)"
  shows "blocked_from c (circuit_at b (snd (is_circuit_open c b now s))) now"
  using assms
  by (auto simp: blocked_from_def is_circuit_open_eq refuses_def checked_def split: option.splits)

lemma admissions_late:
  assumes "blocked_from c (circuit_at b s) t" "\<forall>(now, op) \<in> set ops. t \<le> now \<and> op \<noteq> Success b"
  shows "\<forall>now \<in> set (admissions c b ops s). t + of_int (bf_window_seconds c) \<le> now"
  using assms
proof (induction ops arbitrary: s)
  case (Cons p ops)
  obtain now op where p: "p = (now, op)" by (cases p)
  with Cons.prems have "blocked_from c (circuit_at b (circuit_step c now op s)) t"
    by (intro circuit_step_blocked) auto
  with Cons p admitted_late [OF Cons.prems(1)] show ?case by (auto split: if_splits)
qed simp

lemma admissions_spaced:
  assumes "blocked_from c (circuit_at b s) t" "\<forall>(now, op) \<in> set ops. t \<le> now \<and> op \<noteq> Success b"
    and "sorted (map fst ops)"
  shows "sorted_wrt (\<lambda>t u. t + of_int (bf_window_seconds c) \<le> u) (admissions c b ops s)"
  using assms
proof (induction ops arbitrary: s t)
  case (Cons p ops)
  obtain now op where p: "p = (now, op)" by (cases p)
  let ?s = "circuit_step c now op s"
  from Cons.prems p have "blocked_from c (circuit_at b ?s) t"
    by (intro circuit_step_blocked) auto
  with Cons p have rest: "sorted_wrt (\<lambda>t u. t + of_int (bf_window_seconds c) \<le> u) (admissions c b ops ?s)"
    by auto
  show ?case
  proof (cases "op = Check b \<and> \<not> fst (is_circuit_open c b now s)")
    case True
    with admitted_resets [OF Cons.prems(1)] have "blocked_from c (circuit_at b ?s) now" by simp
    moreover have "\<forall>(u, op) \<in> set ops. now \<le> u \<and> op \<noteq> Success b" using Cons.prems p by auto
    ultimately have "\<forall>u \<in> set (admissions c b ops ?s). now + of_int (bf_window_seconds c) \<le> u"
      by (rule admissions_late)
    with True rest p show ?thesis by simp
  next
    case False
    with rest p show ?thesis by (cases op) auto
  qed
qed simp

section \<open>Failover\<close>

text \<open>A meeting in which no other coroutine touches the circuits.\<close>

definition quiet :: "'r meeting \<Rightarrow> bool" where
  "quiet m \<longleftrightarrow> mt_before m = id \<and> mt_during m = id"

definition admits :: "bifrost_config \<Rightarrow> circuits \<Rightarrow> string \<times> 'r meeting \<Rightarrow> bool" where
  "admits c s = (\<lambda>(b, m). dict_get (bf_backends c) b \<noteq> None \<and> \<not> fst (is_circuit_open c b (mt_check_time m) s))"

definition exchange ::
  "bifrost_config \<Rightarrow> bifrost_request \<Rightarrow> string \<times> 'r meeting \<Rightarrow> 'r option \<times> gateway_event list" where
  "exchange c r = (\<lambda>(b, m). call_backend c r b (the (dict_get (bf_backends c) b)) m)"

text \<open>
  The backends a request tries: the configured ones whose circuit admits it, in the order of the rule, up to
  the number of attempts.
\<close>

definition tried_from :: "bifrost_config \<Rightarrow> nat \<Rightarrow> circuits \<Rightarrow> (string \<times> 'r meeting) list \<Rightarrow> (string \<times> 'r meeting) list" where
  "tried_from c k s cands = take (nat (bf_failover_attempts c - int k)) (filter (admits c s) cands)"

abbreviation silent :: "bifrost_config \<Rightarrow> bifrost_request \<Rightarrow> string \<times> 'r meeting \<Rightarrow> bool" where
  "silent c r p \<equiv> fst (exchange c r p) = None"

lemma tried_from_simps:
  "tried_from c k s [] = []"
  "bf_failover_attempts c \<le> int k \<Longrightarrow> tried_from c k s cands = []"
  "\<not> admits c s p \<Longrightarrow> tried_from c k s (p # cands) = tried_from c k s cands"
  "\<not> bf_failover_attempts c \<le> int k \<Longrightarrow> admits c s p \<Longrightarrow>
     tried_from c k s (p # cands) = p # tried_from c (Suc k) s cands"
proof -
  assume "\<not> bf_failover_attempts c \<le> int k" "admits c s p"
  moreover from this have "nat (bf_failover_attempts c - int k) = Suc (nat (bf_failover_attempts c - int (Suc k)))"
    by simp
  ultimately show "tried_from c k s (p # cands) = p # tried_from c (Suc k) s cands"
    by (simp add: tried_from_def del: of_nat_Suc)
qed (simp_all add: tried_from_def)

lemma tried_from_subset: "set (tried_from c k s cands) \<subseteq> set cands"
  unfolding tried_from_def by (rule subset_trans [OF set_take_subset]) auto

lemma tried_from_cong:
  assumes "\<forall>b \<in> fst ` set cands. circuit_at b s' = circuit_at b s"
  shows "tried_from c k s' cands = tried_from c k s cands"
proof -
  have "filter (admits c s') cands = filter (admits c s) cands"
    using assms by (intro filter_cong) (auto simp: admits_def is_circuit_open_eq)
  then show ?thesis by (simp add: tried_from_def)
qed

text \<open>The events of the tried backends, the first of them being the \<open>k\<close>-th attempt.\<close>

fun attempt_events ::
  "bifrost_config \<Rightarrow> bifrost_request \<Rightarrow> nat \<Rightarrow> (string \<times> 'r meeting) list \<Rightarrow> gateway_event list" where
  "attempt_events c r k [] = []"
| "attempt_events c r k (p # ps) =
     (if k > 0 then [Slept (failover_delay c k)] else []) @ snd (exchange c r p) @
     (if silent c r p then attempt_events c r (Suc k) ps else [])"

definition failover_result ::
  "bifrost_config \<Rightarrow> bifrost_request \<Rightarrow> nat \<Rightarrow> (string \<times> 'r meeting) list \<Rightarrow> 'r option \<times> string \<times> nat" where
  "failover_result c r k tried =
     (case find (\<lambda>p. \<not> silent c r p) tried of
        None \<Rightarrow> (None, [], k + length tried)
      | Some p \<Rightarrow> (fst (exchange c r p), fst p, k + length (takeWhile (silent c r) tried)))"

definition counted :: "bifrost_config \<Rightarrow> bifrost_request \<Rightarrow> (string \<times> 'r meeting) list \<Rightarrow> string \<Rightarrow> int \<Rightarrow> int" where
  "counted c r tried b n =
     (if b \<in> fst ` set (takeWhile (silent c r) tried) then n + 1
      else case find (\<lambda>p. \<not> silent c r p) tried of
             Some p \<Rightarrow> if fst p = b then 0 else n
           | None \<Rightarrow> n)"

lemma failover_spec:
  assumes "distinct (map fst cands)" "\<forall>p \<in> set cands. quiet (snd p)"
  shows "\<exists>s'. attempt_backends c r k cands s =
           (failover_result c r k (tried_from c k s cands), s', attempt_events c r k (tried_from c k s cands)) \<and>
         (\<forall>b. get_circuit_failure_count b s' =
            counted c r (tried_from c k s cands) b (get_circuit_failure_count b s))"
  using assms
proof (induction cands arbitrary: k s)
  case Nil
  show ?case by (simp add: tried_from_simps failover_result_def counted_def)
next
  case (Cons p rest)
  obtain b m where p: "p = (b, m)" by (cases p)
  have m: "mt_before m = id" "mt_during m = id" and new: "b \<notin> fst ` set rest"
    and rest: "distinct (map fst rest)" "\<forall>p \<in> set rest. quiet (snd p)"
    using Cons.prems p by (auto simp: quiet_def)
  note IH = Cons.IH [OF rest]
  show ?case
  proof (cases "bf_failover_attempts c \<le> int k")
    case True
    then show ?thesis
      by (cases p) (simp add: tried_from_simps failover_result_def counted_def)
  next
    case more: False
    show ?thesis
    proof (cases "admits c s p")
      case False
      show ?thesis
      proof (cases "dict_get (bf_backends c) b")
        case None
        with IH [of k s] False more p show ?thesis by (simp add: tried_from_simps)
      next
        case (Some cfg)
        obtain s1 where o: "is_circuit_open c b (mt_check_time m) s = (True, s1)"
          using False Some p by (cases "is_circuit_open c b (mt_check_time m) s") (auto simp: admits_def)
        have s1: "circuit_at b' s1 = (if b' = b then checked c (mt_check_time m) (circuit_at b s) else circuit_at b' s)"
          for b' using is_circuit_open_eq(2) [of b' c b "mt_check_time m" s] o by simp
        have "tried_from c k s1 rest = tried_from c k s rest"
          by (rule tried_from_cong) (use new s1 in auto)
        moreover have "get_circuit_failure_count b' s1 = get_circuit_failure_count b' s" for b'
          by (simp add: failure_count_eq s1)
        ultimately show ?thesis
          using IH [of k s1] False more p m o Some by (simp add: tried_from_simps)
      qed
    next
      case True
      then obtain cfg where cfg: "dict_get (bf_backends c) b = Some cfg" using p by (auto simp: admits_def)
      obtain s1 where o: "is_circuit_open c b (mt_check_time m) s = (False, s1)"
        using True p by (cases "is_circuit_open c b (mt_check_time m) s") (auto simp: admits_def)
      have s1: "circuit_at b' s1 = (if b' = b then checked c (mt_check_time m) (circuit_at b s) else circuit_at b' s)"
        for b' using is_circuit_open_eq(2) [of b' c b "mt_check_time m" s] o by simp
      obtain answer sent where x: "exchange c r p = (answer, sent)" by (cases "exchange c r p")
      then have cb: "call_backend c r b cfg m = (answer, sent)" using p cfg by (simp add: exchange_def)
      show ?thesis
      proof (cases answer)
        case (Some response)
        let ?s = "record_success b s1"
        have "get_circuit_failure_count b' ?s = (if b' = b then 0 else get_circuit_failure_count b' s)" for b'
          by (simp add: failure_count_eq record_success_eq s1)
        with True more p m o cfg x cb Some show ?thesis
          by (simp add: tried_from_simps failover_result_def counted_def)
      next
        case None
        let ?s = "record_failure c b (mt_failure_time m) s1"
        have cnt: "get_circuit_failure_count b' ?s =
          (if b' = b then get_circuit_failure_count b' s + 1 else get_circuit_failure_count b' s)" for b'
          by (simp add: failure_count_eq record_failure_eq s1)
        have same: "tried_from c (Suc k) ?s rest = tried_from c (Suc k) s rest"
          by (rule tried_from_cong) (use new s1 in \<open>auto simp: record_failure_eq\<close>)
        from IH [of "Suc k" ?s] obtain s' where
          run: "attempt_backends c r (Suc k) rest ?s = (failover_result c r (Suc k) (tried_from c (Suc k) s rest), s',
             attempt_events c r (Suc k) (tried_from c (Suc k) s rest))"
          and cnt': "\<And>b'. get_circuit_failure_count b' s' =
             counted c r (tried_from c (Suc k) s rest) b' (get_circuit_failure_count b' ?s)"
          by (auto simp: same)
        have "b \<notin> fst ` set (tried_from c (Suc k) s rest)"
          using new tried_from_subset by (metis image_mono subsetD)
        then have "counted c r (tried_from c (Suc k) s rest) b' (get_circuit_failure_count b' ?s) =
           counted c r (p # tried_from c (Suc k) s rest) b' (get_circuit_failure_count b' s)" for b'
          using x None p
          by (auto simp: counted_def cnt image_iff dest: set_takeWhileD split: option.splits dest!: find_in)
        with True more p m o cfg x cb None run cnt' show ?thesis
          by (simp add: tried_from_simps failover_result_def split: option.split)
      qed
    qed
  qed
qed

section \<open>Requests the gateway cannot translate\<close>

lemma bad_request_silent:
  assumes "br_operation_type r = CHAT_COMPLETION" "br_messages r = []" "br_system_prompt r = None"
  shows "call_backend c r b cfg m = (None, [])"
  using assms
  by (simp add: call_backend_def build_inference_request_def mk_inference_request_def Let_def
      validate_prompt_or_messages_def split: sum.split)

text \<open>A timeout below one second, which the configuration admits, makes every request to the backend fail.\<close>

lemma short_timeout_silent:
  assumes "bk_timeout_ms cfg = Some t" "0 < t" "t < 1000"
  shows "call_backend c r b cfg m = (None, [])"
  using assms
  by (simp add: call_backend_def build_inference_request_def mk_inference_request_def Let_def split: sum.split)

lemma short_timeout_accepted:
  "mk_backend \<lparr>bk_backend_id = ''fast'', bk_base_url = ''http://h/v1'', bk_hmac_secret = None, bk_model_name = None,
     bk_timeout_ms = Some 500, bk_weight = 1\<rparr> \<noteq> Err ValidationError"
  by (simp add: mk_backend_def within_opt_def)

lemma never_called:
  fixes cands :: "(string \<times> 'r meeting) list"
  assumes "\<And>m :: 'r meeting. call_backend c r b (the (dict_get (bf_backends c) b)) m = (None, [])"
  shows "Sent b q \<notin> set (snd (snd (attempt_backends c r k cands s)))"
proof (induction cands arbitrary: k s)
  case (Cons p rest)
  obtain b' m where p: "p = (b', m)" by (cases p)
  obtain opened s1 where o: "is_circuit_open c b' (mt_check_time m) (mt_before m s) = (opened, s1)"
    by (cases "is_circuit_open c b' (mt_check_time m) (mt_before m s)")
  show ?case
  proof (cases "dict_get (bf_backends c) b'")
    case (Some cfg)
    obtain answer sent where x: "call_backend c r b' cfg m = (answer, sent)"
      by (cases "call_backend c r b' cfg m")
    have "Sent b q \<notin> set sent"
      using assms [of m] Some x by (cases "b' = b") (auto simp: call_backend_def split: sum.splits)
    with Cons.IH p Some o x show ?thesis
      by (cases opened; cases answer) (simp_all add: case_prod_unfold Let_def)
  qed (use Cons.IH p in simp)
qed simp

text \<open>
  Circuits whose failures all happened from the time \<open>T\<close> on: they are opened once they have reached the
  threshold, and not before \<open>T\<close>.
\<close>

definition late_circuit :: "bifrost_config \<Rightarrow> seconds \<Rightarrow> backend_circuit \<Rightarrow> bool" where
  "late_circuit c T x \<longleftrightarrow> (case bc_opened_at x of
     None \<Rightarrow> bc_failure_count x < bf_failure_threshold c
   | Some u \<Rightarrow> T \<le> u)"

definition opened_since :: "bifrost_config \<Rightarrow> seconds \<Rightarrow> circuits \<Rightarrow> bool" where
  "opened_since c T s \<longleftrightarrow> (\<forall>b. late_circuit c T (circuit_at b s))"

definition in_window :: "bifrost_config \<Rightarrow> seconds \<Rightarrow> 'r meeting \<Rightarrow> bool" where
  "in_window c T m \<longleftrightarrow> quiet m \<and> mt_check_time m < T + of_int (bf_window_seconds c) \<and> T \<le> mt_failure_time m"

lemma late_circuit_simps:
  "late_circuit c T x \<Longrightarrow> now < T + of_int (bf_window_seconds c) \<Longrightarrow> late_circuit c T (checked c now x)"
  "late_circuit c T x \<Longrightarrow> T \<le> now \<Longrightarrow> late_circuit c T (failed_circuit c now x)"
  "1 \<le> bf_failure_threshold c \<Longrightarrow> late_circuit c T \<lparr>bc_failure_count = 0, bc_opened_at = None\<rparr>"
  by (auto simp: late_circuit_def checked_def refuses_def failed_circuit_def split: option.splits)

lemma opened_since_check:
  "opened_since c T s \<Longrightarrow> now < T + of_int (bf_window_seconds c) \<Longrightarrow>
   opened_since c T (snd (is_circuit_open c b now s))"
  by (simp add: opened_since_def is_circuit_open_eq late_circuit_simps)

lemma opened_since_failure:
  "opened_since c T s \<Longrightarrow> T \<le> now \<Longrightarrow> opened_since c T (record_failure c b now s)"
  by (simp add: opened_since_def record_failure_eq late_circuit_simps)

lemma opened_since_success:
  "1 \<le> bf_failure_threshold c \<Longrightarrow> opened_since c T s \<Longrightarrow> opened_since c T (record_success b s)"
  by (simp add: opened_since_def record_success_eq late_circuit_simps)

lemma opened_since_attempts:
  assumes "opened_since c T s" "\<forall>p \<in> set cands. in_window c T (snd p)" "1 \<le> bf_failure_threshold c"
  shows "opened_since c T (fst (snd (attempt_backends c r k cands s)))"
  using assms(1,2)
proof (induction cands arbitrary: k s)
  case (Cons p rest)
  obtain b m where p: "p = (b, m)" by (cases p)
  with Cons.prems have m: "mt_before m = id" "mt_during m = id" "T \<le> mt_failure_time m"
    "mt_check_time m < T + of_int (bf_window_seconds c)" and rest: "\<forall>p \<in> set rest. in_window c T (snd p)"
    by (auto simp: in_window_def quiet_def)
  obtain opened s1 where o: "is_circuit_open c b (mt_check_time m) s = (opened, s1)"
    by (cases "is_circuit_open c b (mt_check_time m) s")
  have s1: "opened_since c T s1"
    using opened_since_check [OF Cons.prems(1) m(4), of b] o by simp
  show ?case
  proof (cases "dict_get (bf_backends c) b")
    case (Some cfg)
    obtain answer sent where x: "call_backend c r b cfg m = (answer, sent)"
      by (cases "call_backend c r b cfg m")
    from s1 m assms(3) Cons.IH [OF _ rest] Cons.prems(1) p Some o x show ?thesis
      by (cases opened; cases answer)
        (simp_all add: case_prod_unfold Let_def opened_since_failure opened_since_success)
  qed (use Cons.IH [OF _ rest] Cons.prems(1) p in simp)
qed simp

lemma opened_since_refuses:
  "opened_since c T s \<Longrightarrow> bf_failure_threshold c \<le> get_circuit_failure_count b s \<Longrightarrow>
   now < T + of_int (bf_window_seconds c) \<Longrightarrow> fst (is_circuit_open c b now s)"
  by (auto simp: opened_since_def late_circuit_def is_circuit_open_eq refuses_def failure_count_eq
      split: option.splits dest!: spec [of _ b])

fun handle_all ::
  "bifrost_config \<Rightarrow> bifrost_request \<Rightarrow> (nat \<Rightarrow> 'r meeting) list \<Rightarrow> circuits \<Rightarrow> circuits \<times> gateway_event list" where
  "handle_all c r [] s = (s, [])"
| "handle_all c r (w # ws) s =
     (let (_, s', es) = handle_request c r w 0 s; (s'', es') = handle_all c r ws s' in (s'', es @ es'))"

abbreviation meetings :: "(nat \<Rightarrow> 'r meeting) \<Rightarrow> string list \<Rightarrow> (string \<times> 'r meeting) list" where
  "meetings w candidates \<equiv> map (\<lambda>(i, b). (b, w i)) (enumerate 0 candidates)"

lemma meetings_fst [simp]: "map fst (meetings w candidates) = candidates"
  by (simp add: case_prod_unfold comp_def)

lemma meetings_snd: "p \<in> set (meetings w candidates) \<Longrightarrow> \<exists>i. snd p = w i"
  by auto

lemma handle_request_eq:
  assumes "evaluate_rules c r = (candidates, rule)"
    and "attempt_backends c r 0 (meetings w candidates) s = ((result, backend, retries), s', es)"
  shows "handle_request c r w latency s =
    (\<lparr>bp_backend_selected = (if result = None then [] else backend), bp_matched_rule_id = map_option rr_rule_id rule,
      bp_latency_ms = latency, bp_retry_count = retries, bp_tenant_id = br_tenant_id r,
      bp_correlation_id = br_correlation_id r, bp_inference_response = result, bp_success = (result \<noteq> None)\<rparr>, s', es)"
  using assms by (cases result) (simp_all add: handle_request_def Let_def)

lemma attempt_events_silent:
  assumes "\<forall>p \<in> set ps. exchange c r p = (None, [])"
  shows "Sent b q \<notin> set (attempt_events c r k ps)"
  using assms by (induction ps arbitrary: k) auto

lemma bad_requests_count:
  fixes ws :: "(nat \<Rightarrow> 'r meeting) list"
  assumes bad: "\<And>b cfg m :: 'r meeting. call_backend c r b cfg m = (None, [])"
    and cands: "evaluate_rules c r = (candidates, rule)" "distinct candidates"
      "int (length candidates) \<le> bf_failover_attempts c" "\<forall>b \<in> set candidates. dict_get (bf_backends c) b \<noteq> None"
    and thr: "1 \<le> bf_failure_threshold c"
    and "\<forall>w \<in> set ws. \<forall>i. in_window c T (w i)" "opened_since c T s"
    and "\<forall>b \<in> set candidates. get_circuit_failure_count b s = n" "n + int (length ws) \<le> bf_failure_threshold c"
  shows "opened_since c T (fst (handle_all c r ws s)) \<and>
    (\<forall>b \<in> set candidates. get_circuit_failure_count b (fst (handle_all c r ws s)) = n + int (length ws)) \<and>
    (\<forall>b q. Sent b q \<notin> set (snd (handle_all c r ws s)))"
  using assms(7-10)
proof (induction ws arbitrary: s n)
  case (Cons w ws)
  have w: "\<And>i. in_window c T (w i)" and below: "n < bf_failure_threshold c" using Cons.prems by auto
  let ?ps = "meetings w candidates"
  have quiet: "\<forall>p \<in> set ?ps. quiet (snd p)" "\<forall>p \<in> set ?ps. in_window c T (snd p)"
    using w by (auto simp: in_window_def)
  have silent: "exchange c r p = (None, [])" for p :: "string \<times> 'r meeting"
    using bad by (cases p) (simp add: exchange_def)
  have adm: "admits c s p" if "p \<in> set ?ps" for p
    using that Cons.prems(3) below cands(4)
    by (auto simp: admits_def is_circuit_open_eq refuses_def failure_count_eq in_enumerate)
  then have "filter (admits c s) ?ps = ?ps" by (simp add: filter_id_conv)
  then have tried: "tried_from c 0 s ?ps = ?ps" using cands(3) by (simp add: tried_from_def)
  have d: "distinct (map fst ?ps)" using cands(2) by (simp only: meetings_fst)
  obtain s' where
    run: "attempt_backends c r 0 ?ps s = (failover_result c r 0 ?ps, s', attempt_events c r 0 ?ps)"
    and cnt: "\<And>b. get_circuit_failure_count b s' = counted c r ?ps b (get_circuit_failure_count b s)"
    using failover_spec [OF d quiet(1), of c r 0 s] tried by auto
  obtain resp where h: "handle_request c r w 0 s = (resp, s', attempt_events c r 0 ?ps)"
    using run by (cases "failover_result c r 0 ?ps") (simp add: handle_request_eq [OF cands(1)])
  have "opened_since c T s'"
    using opened_since_attempts [OF Cons.prems(2) quiet(2) thr, of r 0] run by simp
  moreover have "\<forall>b \<in> set candidates. get_circuit_failure_count b s' = n + 1"
  proof
    fix b assume b: "b \<in> set candidates"
    have "takeWhile (silent c r) ?ps = ?ps" using silent by (simp add: takeWhile_eq_all_conv)
    moreover have "b \<in> fst ` set ?ps" using b by (metis list.set_map meetings_fst)
    ultimately show "get_circuit_failure_count b s' = n + 1"
      unfolding cnt counted_def using b Cons.prems(3) by (simp only: if_True)
  qed
  ultimately have "opened_since c T (fst (handle_all c r ws s')) \<and>
    (\<forall>b \<in> set candidates. get_circuit_failure_count b (fst (handle_all c r ws s')) = n + 1 + int (length ws)) \<and>
    (\<forall>b q. Sent b q \<notin> set (snd (handle_all c r ws s')))"
    using Cons.prems by (intro Cons.IH) auto
  moreover have "Sent b q \<notin> set (attempt_events c r 0 ?ps)" for b q
    by (rule attempt_events_silent) (use silent in simp)
  ultimately show ?case using h by (simp add: case_prod_unfold Let_def ac_simps)
qed simp

section \<open>A gateway for the witnesses\<close>

definition demo_backend :: "string \<Rightarrow> bifrost_backend" where
  "demo_backend b = \<lparr>bk_backend_id = b, bk_base_url = ''http://h/v1'', bk_hmac_secret = None, bk_model_name = None,
     bk_timeout_ms = None, bk_weight = 1\<rparr>"

definition demo_config :: bifrost_config where
  "demo_config = \<lparr>bf_backends = [(''a'', demo_backend ''a''), (''b'', demo_backend ''b'')], bf_routing_rules = [],
     bf_default_backends = [''a'', ''b''], bf_failover_attempts = 3, bf_failover_backoff_base_ms = 500,
     bf_failure_threshold = 2, bf_window_seconds = 30, bf_request_timeout_ms = 10000,
     bf_health_check_interval_seconds = 10\<rparr>"

definition demo_request :: "string option \<Rightarrow> bifrost_request" where
  "demo_request system = \<lparr>br_operation_type = CHAT_COMPLETION, br_capabilities = [], br_max_latency_ms = 10000,
     br_cost_tier = MID, br_tenant_id = 1, br_model = None, br_messages = [], br_prompt = None,
     br_system_prompt = system, br_max_tokens = None, br_temperature = None, br_correlation_id = 2,
     br_session_id = None, br_run_id = None\<rparr>"

text \<open>Backend \<open>a\<close> raises, backend \<open>b\<close> answers.\<close>

definition demo_meeting :: "nat \<Rightarrow> string meeting" where
  "demo_meeting i = \<lparr>mt_before = id, mt_check_time = 1, mt_during = id,
     mt_signer = \<lparr>gs_hmac_sha256 = (\<lambda>_ _. []), gs_utc_now = []\<rparr>,
     mt_answer = (\<lambda>q. if i = 0 then None else Some ''hello''), mt_failure_time = 1\<rparr>"

lemmas demo_defs = demo_config_def demo_request_def demo_meeting_def demo_backend_def

lemma demo_rules: "evaluate_rules demo_config (demo_request system) = ([''a'', ''b''], None)"
  by (simp add: evaluate_rules_def ordered_rules_def demo_defs)

section \<open>Properties\<close>

text \<open>
  C4: A request is served by the first backend that can serve it. With no other request under way, the gateway
  tries the configured backends of the matching rule whose circuits admit the call, in the order of the rule
  and no more than the configured attempts; the response is that of the first one that answers, with the
  number of failures before it, after exponentially growing delays; every failure counts against its
  backend, the answer clears the count of its own, and no other count changes. The rule is the matching one
  with the least priority number, the first of equals.
\<close>
theorem gateway_failover:
  fixes w :: "nat \<Rightarrow> 'r meeting"
  assumes "evaluate_rules c r = (candidates, rule)" "distinct candidates" "\<And>i. quiet (w i)"
    and "handle_request c r w latency s = (response, s', es)"
    and "tried = take (nat (bf_failover_attempts c)) (filter (admits c s) (meetings w candidates))"
  shows "(bp_inference_response response, bp_backend_selected response, bp_retry_count response) =
        (case find (\<lambda>p. fst (exchange c r p) \<noteq> None) tried of
           None \<Rightarrow> (None, [], length tried)
         | Some p \<Rightarrow> (fst (exchange c r p), fst p, length (takeWhile (\<lambda>p. fst (exchange c r p) = None) tried))) \<and>
      bp_success response = (bp_inference_response response \<noteq> None) \<and>
      es = attempt_events c r 0 tried \<and>
      (\<forall>b. get_circuit_failure_count b s' = counted c r tried b (get_circuit_failure_count b s)) \<and>
      (case rule of
         None \<Rightarrow> candidates = bf_default_backends c \<and> (\<forall>x \<in> set (bf_routing_rules c). \<not> rule_matches x r)
       | Some x \<Rightarrow> candidates = rr_backend_ids x \<and> rule_matches x r \<and>
           (\<exists>i < length (bf_routing_rules c). x = bf_routing_rules c ! i \<and>
              (\<forall>j < length (bf_routing_rules c). rule_matches (bf_routing_rules c ! j) r \<longrightarrow>
                 (rr_priority x, i) \<le> (rr_priority (bf_routing_rules c ! j), j))))"
proof -
  let ?ps = "meetings w candidates"
  have d: "distinct (map fst ?ps)" using assms(2) by (simp only: meetings_fst)
  have quiet: "\<forall>p \<in> set ?ps. quiet (snd p)" using assms(3) by auto
  have tried: "tried_from c 0 s ?ps = tried" using assms(5) by (simp add: tried_from_def)
  obtain s1 where run: "attempt_backends c r 0 ?ps s = (failover_result c r 0 tried, s1, attempt_events c r 0 tried)"
    and cnt: "\<forall>b. get_circuit_failure_count b s1 = counted c r tried b (get_circuit_failure_count b s)"
    using failover_spec [OF d quiet, of c r 0 s] tried by auto
  obtain result backend retries where f: "failover_result c r 0 tried = (result, backend, retries)"
    by (cases "failover_result c r 0 tried")
  then have "result = None \<longrightarrow> backend = []"
    by (auto simp: failover_result_def find_Some_iff split: option.splits)
  moreover from handle_request_eq [OF assms(1), of w s result backend retries s1 "attempt_events c r 0 tried" latency]
  have "s' = s1" "es = attempt_events c r 0 tried" "bp_inference_response response = result"
    "bp_backend_selected response = (if result = None then [] else backend)" "bp_retry_count response = retries"
    "bp_success response = (result \<noteq> None)"
    using run f assms(4) by auto
  moreover from assms(1) have "case rule of
         None \<Rightarrow> candidates = bf_default_backends c \<and> (\<forall>x \<in> set (bf_routing_rules c). \<not> rule_matches x r)
       | Some x \<Rightarrow> candidates = rr_backend_ids x \<and> find (\<lambda>x. rule_matches x r) (ordered_rules c) = Some x"
    by (auto simp: evaluate_rules_def find_None_iff ordered_rules_set split: option.splits)
  ultimately show ?thesis
    using f cnt
    by (auto simp: failover_result_def split: option.splits elim!: first_matching_rule)
qed

text \<open>
  The first backend raises and the second one answers: its answer is returned, after one failure and the base
  delay, and only the failure of the first one is counted.
\<close>
theorem gateway_failover_witness:
  "\<exists>response s' es. handle_request demo_config (demo_request (Some ''hi'')) demo_meeting 0 [] = (response, s', es) \<and>
     bp_backend_selected response = ''b'' \<and> bp_retry_count response = 1 \<and>
     get_circuit_failure_count ''a'' s' = 1 \<and> get_circuit_failure_count ''b'' s' = 0"
proof -
  obtain response s' es where
    h: "handle_request demo_config (demo_request (Some ''hi'')) demo_meeting 0 [] = (response, s', es)"
    by (cases "handle_request demo_config (demo_request (Some ''hi'')) demo_meeting 0 []")
  have q: "quiet (demo_meeting i)" for i by (simp add: quiet_def demo_meeting_def)
  from gateway_failover [OF demo_rules _ q h refl] h show ?thesis
    by (simp add: admits_def is_circuit_open_def get_circuit_state_def new_circuit_def exchange_def call_backend_def
        build_inference_request_def mk_inference_request_def has_http_scheme_def starts_with_def text_or_def
        within_opt_def validate_prompt_or_messages_def counted_def get_circuit_failure_count_def demo_defs)
qed





end
