(* ===== verification/RetryWorker.thy ===== *)
theory RetryWorker imports CircuitBreaker begin

text \<open>
  The delivery retry worker of \<^verbatim>\<open>services/retry_worker/service_retry_worker.py\<close>: failed notifications are
  polled from the table \<^verbatim>\<open>delivery_attempts\<close>, delivered again with exponential backoff, and given up
  after their last attempt. The database is reached through the circuit breaker of \<open>CircuitBreaker\<close>.

  Arguments of the model: the outcome of each statement and of each delivery, the clocks, and the text of an
  exception. A statement is its own transaction, so its effect is atomic; whether it took effect when the
  connection broke or the client stopped waiting is part of the outcome. Rows with equal retry times are
  fetched in the order of the table.
\<close>

section \<open>Configuration, rows, results\<close>

record retry_config =
  rc_poll_interval_seconds :: int
  rc_batch_size :: int
  rc_max_retry_attempts :: int
  rc_backoff_base_seconds :: seconds
  rc_backoff_max_seconds :: seconds
  rc_backoff_multiplier :: real
  rc_delivery_timeout_seconds :: seconds
  rc_circuit_breaker_threshold :: int
  rc_circuit_breaker_reset_timeout :: seconds
  rc_circuit_breaker_half_open_successes :: int
  rc_query_timeout_seconds :: seconds

definition between :: "'a::order \<Rightarrow> 'a \<Rightarrow> 'a \<Rightarrow> bool" where
  "between a b x \<longleftrightarrow> a \<le> x \<and> x \<le> b"

definition mk_retry_config :: "retry_config \<Rightarrow> infra_error + retry_config" where
  "mk_retry_config c =
     (if between 5 3600 (rc_poll_interval_seconds c) \<and> between 1 1000 (rc_batch_size c) \<and>
         between 1 20 (rc_max_retry_attempts c) \<and> between 1 3600 (rc_backoff_base_seconds c) \<and>
         between 60 86400 (rc_backoff_max_seconds c) \<and> between 1 10 (rc_backoff_multiplier c) \<and>
         between 1 300 (rc_delivery_timeout_seconds c) \<and> between 1 100 (rc_circuit_breaker_threshold c) \<and>
         between 1 3600 (rc_circuit_breaker_reset_timeout c) \<and>
         between 1 10 (rc_circuit_breaker_half_open_successes c) \<and> between 1 300 (rc_query_timeout_seconds c)
      then Ok c else Err ValidationError)"

datatype delivery_status = D_PENDING | D_FAILED | D_SUCCEEDED | D_DLQ

record delivery_row =
  dr_id :: uuid
  dr_subscription_id :: uuid
  dr_notification_payload :: string
  dr_status :: delivery_status
  dr_attempt_count :: int
  dr_max_attempts :: int
  dr_next_retry_at :: "timestamp option"
  dr_last_error :: "string option"
  dr_created_at :: timestamp
  dr_updated_at :: timestamp

text \<open>The row as the model object \<^verbatim>\<open>ModelDeliveryAttempt\<close>, or its \<^verbatim>\<open>ValidationError\<close>.\<close>

definition mk_delivery_attempt :: "delivery_row \<Rightarrow> infra_error + delivery_row" where
  "mk_delivery_attempt r =
     (if 0 \<le> dr_attempt_count r \<and> 1 \<le> dr_max_attempts r \<and> dr_max_attempts r \<le> 20
      then Ok (r\<lparr>dr_last_error := Some (or_else (dr_last_error r) [])\<rparr>) else Err ValidationError)"

datatype retry_error = RetryInfra infra_error | DeliveryRaised string | ClientError string

record retry_result =
  rt_correlation_id :: uuid
  rt_retries_attempted :: int
  rt_retries_succeeded :: int
  rt_retries_failed :: int
  rt_moved_to_dlq :: int
  rt_errors :: "(string \<times> string) list"

definition retry_result_bool :: "retry_result \<Rightarrow> bool" where
  "retry_result_bool r \<longleftrightarrow> rt_retries_attempted r > 0"

record retry_worker =
  rw_config :: retry_config
  rw_breaker :: breaker
  rw_last_result :: "retry_result option"
  rw_shutdown :: bool

definition new_retry_worker :: "uuid \<Rightarrow> retry_config \<Rightarrow> infra_error + retry_worker" where
  "new_retry_worker fresh c =
     (case init_circuit_breaker fresh (rc_circuit_breaker_threshold c) (rc_circuit_breaker_reset_timeout c)
             ''retry-worker'' DATABASE (rc_circuit_breaker_half_open_successes c) False of
        Err e \<Rightarrow> Err e
      | Ok b \<Rightarrow> Ok \<lparr>rw_config = c, rw_breaker = b, rw_last_result = None, rw_shutdown = False\<rparr>)"

section \<open>Backoff\<close>

text \<open>A \<^verbatim>\<open>timedelta\<close> of some seconds, in microseconds: rounded to the nearest, ties to even.\<close>

definition usec_of_seconds :: "seconds \<Rightarrow> int" where
  "usec_of_seconds x =
     (let y = x * 1000000; n = \<lfloor>y\<rfloor>; d = y - of_int n in
      if d < 1/2 then n else if d > 1/2 then n + 1 else if even n then n else n + 1)"

definition retry_delay :: "retry_config \<Rightarrow> int \<Rightarrow> seconds" where
  "retry_delay c attempt_count =
     min (rc_backoff_base_seconds c * rc_backoff_multiplier c powi attempt_count) (rc_backoff_max_seconds c)"

definition calculate_next_retry_at :: "retry_config \<Rightarrow> timestamp \<Rightarrow> int \<Rightarrow> timestamp" where
  "calculate_next_retry_at c now attempt_count = now + usec_of_seconds (retry_delay c attempt_count)"

section \<open>Statements\<close>

text \<open>
  How a statement turns out: done, cancelled by the server, the connection lost, another error of the server,
  or an exception of the client library that is no \<^verbatim>\<open>PostgresError\<close>, such as the \<^verbatim>\<open>TimeoutError\<close> after its
  own timeout. The flag tells whether the statement took effect.
\<close>

datatype retry_reply = R_Done | R_Canceled | R_Connection bool | R_Postgres | R_Client bool string

fun took_effect :: "retry_reply \<Rightarrow> bool" where
  "took_effect R_Done = True"
| "took_effect (R_Connection applied) = applied"
| "took_effect (R_Client applied _) = applied"
| "took_effect _ = False"

definition worker_context :: "string \<Rightarrow> uuid \<Rightarrow> error_context" where
  "worker_context oper cid = \<lparr>ctx_transport = Some DATABASE, ctx_operation = Some oper,
     ctx_target = Some ''retry-worker'', ctx_correlation = cid\<rparr>"

text \<open>What the handlers around a statement do to the breaker, and the exception they raise.\<close>

fun statement_effect :: "retry_config \<Rightarrow> string \<Rightarrow> uuid \<Rightarrow> seconds \<Rightarrow> retry_reply \<Rightarrow> breaker \<Rightarrow> retry_error option \<times> breaker" where
  "statement_effect c oper cid now R_Done b = (None, reset_circuit_breaker b)"
| "statement_effect c oper cid now R_Canceled b =
     (Some (RetryInfra (InfraTimeoutError (worker_context oper cid) (Some (rc_query_timeout_seconds c)))),
      record_circuit_failure now b)"
| "statement_effect c oper cid now (R_Connection _) b =
     (Some (RetryInfra (InfraConnectionError (worker_context oper cid))), record_circuit_failure now b)"
| "statement_effect c oper cid now R_Postgres b =
     (Some (RetryInfra (RuntimeHostError (worker_context oper cid))), record_circuit_failure now b)"
| "statement_effect c oper cid now (R_Client _ text) b = (Some (ClientError text), b)"

section \<open>Fetching\<close>

type_synonym delivery_table = "delivery_row list"

definition is_due :: "timestamp \<Rightarrow> delivery_row \<Rightarrow> bool" where
  "is_due now r \<longleftrightarrow> dr_status r = D_FAILED \<and> (case dr_next_retry_at r of None \<Rightarrow> False | Some t \<Rightarrow> t \<le> now)"

definition due_batch :: "retry_config \<Rightarrow> timestamp \<Rightarrow> delivery_table \<Rightarrow> delivery_row list" where
  "due_batch c now t = take (nat (rc_batch_size c)) (sort_key (\<lambda>r. the (dr_next_retry_at r)) (filter (is_due now) t))"

fun build_attempts :: "delivery_row list \<Rightarrow> infra_error + delivery_row list" where
  "build_attempts [] = Ok []"
| "build_attempts (r # rs) =
     (case mk_delivery_attempt r of
        Err e \<Rightarrow> Err e
      | Ok a \<Rightarrow> (case build_attempts rs of Err e \<Rightarrow> Err e | Ok as \<Rightarrow> Ok (a # as)))"

record fetch_env =
  fe_check_time :: seconds
  fe_now :: timestamp
  fe_reply :: retry_reply
  fe_failure_time :: seconds

definition fetch_pending_retries ::
  "fetch_env \<Rightarrow> uuid \<Rightarrow> delivery_table \<Rightarrow> retry_worker \<Rightarrow> (retry_error + delivery_row list) \<times> retry_worker" where
  "fetch_pending_retries env cid t w =
     (case check_circuit_breaker ''fetch_pending_retries'' (Some cid) cid (fe_check_time env) (rw_breaker w) of
        Err e \<Rightarrow> (Err (RetryInfra e), w)
      | Ok b \<Rightarrow>
          (case statement_effect (rw_config w) ''fetch_pending_retries'' cid (fe_failure_time env) (fe_reply env) b of
             (Some e, b') \<Rightarrow> (Err e, w\<lparr>rw_breaker := b'\<rparr>)
           | (None, b') \<Rightarrow>
               ((case build_attempts (due_batch (rw_config w) (fe_now env) t) of
                   Err e \<Rightarrow> Err (RetryInfra e)
                 | Ok as \<Rightarrow> Ok as), w\<lparr>rw_breaker := b'\<rparr>)))"

section \<open>One row\<close>

record update_env =
  ue_now :: timestamp
  ue_reply :: retry_reply
  ue_failure_time :: seconds

definition update_row ::
  "uuid \<Rightarrow> delivery_status \<Rightarrow> int \<Rightarrow> string \<Rightarrow> timestamp option \<Rightarrow> timestamp \<Rightarrow> delivery_table \<Rightarrow> delivery_table" where
  "update_row i status n err next_at now t =
     map (\<lambda>r. if dr_id r = i
              then r\<lparr>dr_status := status, dr_attempt_count := n, dr_last_error := Some err,
                     dr_next_retry_at := next_at, dr_updated_at := now\<rparr>
              else r) t"

definition update_attempt_status ::
  "update_env \<Rightarrow> uuid \<Rightarrow> delivery_status \<Rightarrow> int \<Rightarrow> string \<Rightarrow> timestamp option \<Rightarrow> uuid \<Rightarrow>
   delivery_table \<times> retry_worker \<Rightarrow> retry_error option \<times> delivery_table \<times> retry_worker" where
  "update_attempt_status env i status n err next_at cid = (\<lambda>(t, w).
     let (e, b) = statement_effect (rw_config w) ''update_attempt_status'' cid (ue_failure_time env) (ue_reply env)
                    (rw_breaker w) in
     (e, if took_effect (ue_reply env) then update_row i status n err next_at (ue_now env) t else t,
      w\<lparr>rw_breaker := b\<rparr>))"

text \<open>
  The delivery function returns or raises (its timeout included). \<open>render\<close> is the text
  \<^verbatim>\<open>type: message\<close> of an exception.
\<close>

record delivery_env =
  de_raised :: "string option"
  de_retry_now :: timestamp
  de_success_update :: update_env
  de_failure_update :: update_env
  de_dlq_update :: update_env

definition attempt_delivery ::
  "(retry_error \<Rightarrow> string) \<Rightarrow> delivery_env \<Rightarrow> delivery_row \<Rightarrow> uuid \<Rightarrow> delivery_table \<times> retry_worker \<Rightarrow>
   retry_error option \<times> delivery_table \<times> retry_worker" where
  "attempt_delivery render env a cid st =
     (let n = dr_attempt_count a + 1;
          (raised, st1) = (case de_raised env of
             Some text \<Rightarrow> (Some (DeliveryRaised text), st)
           | None \<Rightarrow> update_attempt_status (de_success_update env) (dr_id a) D_SUCCEEDED n [] None cid st) in
      case raised of
        None \<Rightarrow> (None, st1)
      | Some e \<Rightarrow>
          let next_at = calculate_next_retry_at (rw_config (snd st1)) (de_retry_now env) n;
              (e', st2) = update_attempt_status (de_failure_update env) (dr_id a) D_FAILED n (render e)
                            (Some next_at) cid st1 in
          (case e' of Some x \<Rightarrow> (Some x, st2) | None \<Rightarrow> (Some e, st2)))"

definition retry_move_to_dlq ::
  "delivery_env \<Rightarrow> delivery_row \<Rightarrow> uuid \<Rightarrow> delivery_table \<times> retry_worker \<Rightarrow>
   retry_error option \<times> delivery_table \<times> retry_worker" where
  "retry_move_to_dlq env a cid st =
     update_attempt_status (de_dlq_update env) (dr_id a) D_DLQ (dr_attempt_count a) (or_else (dr_last_error a) [])
       None cid st"

section \<open>Polling\<close>

record retry_counts =
  rn_succeeded :: int
  rn_failed :: int
  rn_dlq :: int
  rn_errors :: "(string \<times> string) list"

text \<open>The calls of the delivery function: the row and whether the call returned.\<close>

type_synonym deliveries = "(uuid \<times> bool) list"

definition process_attempt ::
  "(retry_error \<Rightarrow> string) \<Rightarrow> (uuid \<Rightarrow> delivery_env) \<Rightarrow> uuid \<Rightarrow> delivery_row \<Rightarrow>
   retry_counts \<times> deliveries \<times> delivery_table \<times> retry_worker \<Rightarrow>
   retry_counts \<times> deliveries \<times> delivery_table \<times> retry_worker" where
  "process_attempt render envs cid a = (\<lambda>(k, ds, st).
     let env = envs (dr_id a);
         give_up = dr_attempt_count a \<ge> dr_max_attempts a;
         (raised, st') = (if give_up then retry_move_to_dlq env a cid st else attempt_delivery render env a cid st);
         k' = (case raised of
                 Some e \<Rightarrow> k\<lparr>rn_failed := rn_failed k + 1, rn_errors := rn_errors k @ [(uuid_str (dr_id a), render e)]\<rparr>
               | None \<Rightarrow> if give_up then k\<lparr>rn_dlq := rn_dlq k + 1\<rparr> else k\<lparr>rn_succeeded := rn_succeeded k + 1\<rparr>) in
     (k', if give_up then ds else ds @ [(dr_id a, de_raised env = None)], st'))"

record round_env =
  ro_correlation_id :: uuid
  ro_fetch :: fetch_env
  ro_delivery :: "uuid \<Rightarrow> delivery_env"

definition poll_and_retry ::
  "(retry_error \<Rightarrow> string) \<Rightarrow> round_env \<Rightarrow> delivery_table \<times> retry_worker \<Rightarrow>
   (retry_error + retry_result) \<times> deliveries \<times> delivery_table \<times> retry_worker" where
  "poll_and_retry render env = (\<lambda>(t, w).
     case fetch_pending_retries (ro_fetch env) (ro_correlation_id env) t w of
       (Err e, w1) \<Rightarrow> (Err e, [], t, w1)
     | (Ok pending, w1) \<Rightarrow>
         let (k, ds, t2, w2) = fold (process_attempt render (ro_delivery env) (ro_correlation_id env)) pending
               (\<lparr>rn_succeeded = 0, rn_failed = 0, rn_dlq = 0, rn_errors = []\<rparr>, [], t, w1);
             result = \<lparr>rt_correlation_id = ro_correlation_id env,
               rt_retries_attempted = rn_succeeded k + rn_failed k + rn_dlq k,
               rt_retries_succeeded = rn_succeeded k, rt_retries_failed = rn_failed k,
               rt_moved_to_dlq = rn_dlq k, rt_errors = rn_errors k\<rparr> in
         (Ok result, ds, t2, w2\<lparr>rw_last_result := Some result\<rparr>))"

text \<open>
  The loop of \<^verbatim>\<open>run\<close>: exceptions of a round are logged, and the loop ends at the shutdown event, which
  \<^verbatim>\<open>stop\<close> sets. The flag of a round tells whether \<^verbatim>\<open>stop\<close> is called before the next one.
\<close>

definition retry_stop :: "retry_worker \<Rightarrow> retry_worker" where
  "retry_stop w = w\<lparr>rw_shutdown := True\<rparr>"

fun run_worker ::
  "(retry_error \<Rightarrow> string) \<Rightarrow> (round_env \<times> bool) list \<Rightarrow> delivery_table \<times> retry_worker \<Rightarrow>
   deliveries \<times> delivery_table \<times> retry_worker" where
  "run_worker render [] st = ([], st)"
| "run_worker render ((env, stops) # rounds) (t, w) =
     (if rw_shutdown w then ([], t, w)
      else
        let (_, ds, t', w') = poll_and_retry render env (t, w);
            (ds', st) = run_worker render rounds (t', if stops then retry_stop w' else w') in
        (ds @ ds', st))"

section \<open>Health\<close>

record retry_health =
  rh_circuit_breaker :: breaker_view
  rh_last_result :: "(retry_result \<times> (string, string) py_dict option) option"
  rh_config :: retry_config

definition get_health_status :: "seconds \<Rightarrow> retry_worker \<Rightarrow> retry_health" where
  "get_health_status now w =
     \<lparr>rh_circuit_breaker = get_circuit_breaker_state now (Some (rw_breaker w)),
      rh_last_result = map_option (\<lambda>r. (r, if rt_errors r = [] then None
        else Some (fold (\<lambda>(k, v). dict_put k v) (rt_errors r) []))) (rw_last_result w),
      rh_config = rw_config w\<rparr>"

end
