(* ===== verification/RetryWorkerProps.thy ===== *)
theory RetryWorkerProps imports RetryWorker "HOL-Library.Multiset" begin

text \<open>
  What the retry worker promises: how often a notification is delivered, that every notification is settled
  while the database works, and what a failing status update and an unreadable row do to it.
\<close>

section \<open>What a round does to one row\<close>

text \<open>
  The statuses are written: every update takes effect, except that the one after a delivery may fail
  without effect.
\<close>

definition updates_settle :: "delivery_env \<Rightarrow> bool" where
  "updates_settle e \<longleftrightarrow> ue_reply (de_failure_update e) = R_Done \<and> ue_reply (de_dlq_update e) = R_Done \<and>
     (ue_reply (de_success_update e) = R_Done \<or> \<not> took_effect (ue_reply (de_success_update e)))"

definition concluded :: "delivery_env \<Rightarrow> bool" where
  "concluded e \<longleftrightarrow> de_raised e = None \<and> ue_reply (de_success_update e) = R_Done"

text \<open>The row afterwards, and the calls of the delivery function for it.\<close>

definition spent :: "delivery_row \<Rightarrow> bool" where
  "spent r \<longleftrightarrow> dr_attempt_count r \<ge> dr_max_attempts r"

definition row_after :: "retry_config \<Rightarrow> delivery_env \<Rightarrow> delivery_row \<Rightarrow> delivery_row \<Rightarrow> bool" where
  "row_after c e r r' \<longleftrightarrow> dr_id r' = dr_id r \<and> dr_max_attempts r' = dr_max_attempts r \<and>
     (if spent r then dr_status r' = D_DLQ \<and> dr_attempt_count r' = dr_attempt_count r
      else dr_attempt_count r' = dr_attempt_count r + 1 \<and>
        (if concluded e then dr_status r' = D_SUCCEEDED
         else dr_status r' = D_FAILED \<and>
           dr_next_retry_at r' = Some (calculate_next_retry_at c (de_retry_now e) (dr_attempt_count r + 1))))"

definition row_moves :: "retry_config \<Rightarrow> (uuid \<Rightarrow> delivery_env) \<Rightarrow> uuid set \<Rightarrow> delivery_row \<Rightarrow> delivery_row \<Rightarrow> bool" where
  "row_moves c envs I r r' \<longleftrightarrow> (if dr_id r \<in> I then row_after c (envs (dr_id r)) r r' else r' = r)"

definition row_calls :: "delivery_env \<Rightarrow> delivery_row \<Rightarrow> bool list" where
  "row_calls e r = (if spent r then [] else [de_raised e = None])"

definition calls_of :: "uuid \<Rightarrow> deliveries \<Rightarrow> bool list" where
  "calls_of i ds = map snd (filter (\<lambda>d. fst d = i) ds)"

lemma calls_of_simps [simp]:
  "calls_of i [] = []" "calls_of i (ds @ ds') = calls_of i ds @ calls_of i ds'"
  "calls_of i [(j, x)] = (if j = i then [x] else [])"
  by (simp_all add: calls_of_def)

lemma statement_effect_cases:
  assumes "statement_effect c oper cid now reply b = (e, b')"
  shows "(e = None) = (reply = R_Done)" "reply = R_Done \<Longrightarrow> b' = reset_circuit_breaker b"
  using assms by (cases reply; auto)+

lemma reset_not_open: "\<not> cb_open b \<Longrightarrow> \<not> cb_open (reset_circuit_breaker b)"
  by (simp add: reset_circuit_breaker_def Let_def cancel_active_recovery_timer_def fire_transition_event_def
      split: option.split)

lemma reset_closes: "\<not> (cb_open b \<and> cb_half_open b) \<Longrightarrow> \<not> cb_open (reset_circuit_breaker b)"
  using reset_not_open [of b]
  by (cases "cb_half_open b")
    (simp_all add: reset_circuit_breaker_def cancel_active_recovery_timer_def split: option.split)

lemma record_exclusive: "\<not> cb_open b \<Longrightarrow> \<not> (cb_open (record_circuit_failure now b) \<and> cb_half_open (record_circuit_failure now b))"
  by (simp add: record_circuit_failure_def Let_def fire_transition_event_def start_active_recovery_timer_def
      cancel_active_recovery_timer_def split: option.split)

lemma statement_effect_calm:
  "statement_effect c oper cid now reply b = (e, b') \<Longrightarrow> \<not> cb_open b \<Longrightarrow> \<not> (cb_open b' \<and> cb_half_open b')"
  by (cases reply) (auto dest: record_exclusive reset_not_open)

lemma update_attempt_status_done:
  assumes "ue_reply env = R_Done"
  shows "\<exists>w'. update_attempt_status env i st n err nx cid (t, w) =
    (None, update_row i st n err nx (ue_now env) t, w') \<and> rw_config w' = rw_config w \<and>
    rw_shutdown w' = rw_shutdown w \<and> rw_breaker w' = reset_circuit_breaker (rw_breaker w)"
  using assms by (simp add: update_attempt_status_def)

lemma update_attempt_status_lost:
  assumes "ue_reply env \<noteq> R_Done" "\<not> took_effect (ue_reply env)"
  shows "\<exists>e w'. update_attempt_status env i st n err nx cid (t, w) = (Some e, t, w') \<and>
    rw_config w' = rw_config w \<and> rw_shutdown w' = rw_shutdown w \<and>
    (\<not> cb_open (rw_breaker w) \<longrightarrow> \<not> (cb_open (rw_breaker w') \<and> cb_half_open (rw_breaker w')))"
proof -
  obtain e b where s: "statement_effect (rw_config w) ''update_attempt_status'' cid (ue_failure_time env)
      (ue_reply env) (rw_breaker w) = (e, b)" by fastforce
  with statement_effect_cases(1) [OF s] statement_effect_calm [OF s] assms show ?thesis
    by (auto simp: update_attempt_status_def)
qed

lemma update_row_ids [simp]: "map dr_id (update_row i st n err nx now t) = map dr_id t"
  by (simp add: update_row_def)

text \<open>One fetched row: the rows of the table with its identifier move, all others stay.\<close>

lemma process_attempt_row:
  assumes e: "updates_settle (envs (dr_id a))"
    and a: "\<And>r. r \<in> set t \<Longrightarrow> dr_id r = dr_id a \<Longrightarrow>
      dr_attempt_count r = dr_attempt_count a \<and> dr_max_attempts r = dr_max_attempts a"
  shows "\<exists>k' t' w'. process_attempt render envs cid a (k, ds, t, w) =
      (k', ds @ (if spent a then [] else [(dr_id a, de_raised (envs (dr_id a)) = None)]), t', w') \<and>
    rw_config w' = rw_config w \<and> rw_shutdown w' = rw_shutdown w \<and>
    (\<not> cb_open (rw_breaker w) \<longrightarrow> \<not> cb_open (rw_breaker w')) \<and>
    list_all2 (row_moves (rw_config w) envs {dr_id a}) t t'"
proof -
  let ?e = "envs (dr_id a)"
  have move: "list_all2 (row_moves (rw_config w) envs {dr_id a}) t
      (update_row (dr_id a) st n err nx now t)"
    if "spent a \<Longrightarrow> st = D_DLQ \<and> n = dr_attempt_count a"
      and "\<not> spent a \<Longrightarrow> n = dr_attempt_count a + 1"
      and "\<not> spent a \<Longrightarrow> concluded ?e \<Longrightarrow> st = D_SUCCEEDED"
      and "\<not> spent a \<Longrightarrow> \<not> concluded ?e \<Longrightarrow> st = D_FAILED \<and>
        nx = Some (calculate_next_retry_at (rw_config w) (de_retry_now ?e) (dr_attempt_count a + 1))"
    for st n err nx now
    using that a
    by (auto simp: update_row_def list_all2_conv_all_nth row_moves_def row_after_def spent_def)
  show ?thesis
  proof (cases "spent a")
    case True
    obtain w' where u: "update_attempt_status (de_dlq_update ?e) (dr_id a) D_DLQ (dr_attempt_count a)
        (or_else (dr_last_error a) []) None cid (t, w) =
        (None, update_row (dr_id a) D_DLQ (dr_attempt_count a) (or_else (dr_last_error a) []) None
          (ue_now (de_dlq_update ?e)) t, w')" "rw_config w' = rw_config w" "rw_shutdown w' = rw_shutdown w"
        "rw_breaker w' = reset_circuit_breaker (rw_breaker w)"
      using update_attempt_status_done [of "de_dlq_update ?e"] e unfolding updates_settle_def by blast
    have "dr_attempt_count a \<ge> dr_max_attempts a" using True by (simp add: spent_def)
    moreover have "list_all2 (row_moves (rw_config w) envs {dr_id a}) t (update_row (dr_id a) D_DLQ
        (dr_attempt_count a) (or_else (dr_last_error a) []) None (ue_now (de_dlq_update ?e)) t)"
      by (rule move) (use True in auto)
    ultimately show ?thesis using True u(2-4)
      by (simp add: process_attempt_def retry_move_to_dlq_def u(1) Let_def reset_not_open)
  next
    case False
    then have not_spent: "\<not> dr_attempt_count a \<ge> dr_max_attempts a" by (simp add: spent_def)
    let ?n = "dr_attempt_count a + 1"
    obtain raised w1 where first: "(case de_raised ?e of
             Some text \<Rightarrow> (Some (DeliveryRaised text), t, w)
           | None \<Rightarrow> update_attempt_status (de_success_update ?e) (dr_id a) D_SUCCEEDED ?n [] None cid (t, w)) =
        (raised, if concluded ?e then update_row (dr_id a) D_SUCCEEDED ?n [] None (ue_now (de_success_update ?e)) t else t, w1)"
        "raised = None \<longleftrightarrow> concluded ?e" "rw_config w1 = rw_config w" "rw_shutdown w1 = rw_shutdown w"
        "\<not> cb_open (rw_breaker w) \<longrightarrow> \<not> (cb_open (rw_breaker w1) \<and> cb_half_open (rw_breaker w1))"
        "concluded ?e \<longrightarrow> \<not> cb_open (rw_breaker w) \<longrightarrow> \<not> cb_open (rw_breaker w1)"
    proof (cases "de_raised ?e")
      case None
      show ?thesis
      proof (cases "ue_reply (de_success_update ?e) = R_Done")
        case True
        with None show ?thesis
          using that update_attempt_status_done [OF True, of "dr_id a" D_SUCCEEDED ?n "[]" None cid t w] reset_not_open
          by (auto simp: concluded_def)
      next
        case False
        with None e show ?thesis
          using that update_attempt_status_lost [OF False, of "dr_id a" D_SUCCEEDED ?n "[]" None cid t w]
          by (auto simp: concluded_def updates_settle_def)
      qed
    qed (simp add: that concluded_def)
    show ?thesis
    proof (cases "concluded ?e")
      case True
      have "list_all2 (row_moves (rw_config w) envs {dr_id a}) t (update_row (dr_id a) D_SUCCEEDED ?n [] None
          (ue_now (de_success_update ?e)) t)"
        by (rule move) (use True False in auto)
      with first False True show ?thesis
        by (simp add: process_attempt_def attempt_delivery_def not_spent Let_def)
    next
      case fails: False
      then obtain x where raised: "raised = Some x" using first(2) by auto
      let ?at = "calculate_next_retry_at (rw_config w) (de_retry_now ?e) ?n"
      have "ue_reply (de_failure_update ?e) = R_Done" using e by (simp add: updates_settle_def)
      from update_attempt_status_done [OF this, of "dr_id a" D_FAILED ?n "render x" "Some ?at" cid t w1]
      obtain w' where u: "update_attempt_status (de_failure_update ?e) (dr_id a) D_FAILED ?n (render x) (Some ?at)
          cid (t, w1) = (None, update_row (dr_id a) D_FAILED ?n (render x) (Some ?at)
            (ue_now (de_failure_update ?e)) t, w')" "rw_config w' = rw_config w1" "rw_shutdown w' = rw_shutdown w1"
          "rw_breaker w' = reset_circuit_breaker (rw_breaker w1)"
        by blast
      moreover have "list_all2 (row_moves (rw_config w) envs {dr_id a}) t (update_row (dr_id a) D_FAILED ?n (render x)
          (Some ?at) (ue_now (de_failure_update ?e)) t)"
        by (rule move) (use fails False in auto)
      ultimately show ?thesis using first fails raised False
        by (simp add: process_attempt_def attempt_delivery_def not_spent Let_def reset_closes)
    qed
  qed
qed

lemma row_moves_id: "row_moves c envs I r r' \<Longrightarrow> dr_id r' = dr_id r"
  by (auto simp: row_moves_def row_after_def split: if_splits)

lemma moves_ids: "list_all2 (row_moves c envs I) t t' \<Longrightarrow> map dr_id t' = map dr_id t"
  by (induction rule: list_all2_induct) (auto dest: row_moves_id)

text \<open>The rows of the batch, each once; the table has them as they were fetched.\<close>

lemma fold_attempts:
  assumes "distinct (map dr_id batch)" "\<And>a. a \<in> set batch \<Longrightarrow> updates_settle (envs (dr_id a))"
    and "\<And>a r. a \<in> set batch \<Longrightarrow> r \<in> set t \<Longrightarrow> dr_id r = dr_id a \<Longrightarrow>
      dr_attempt_count r = dr_attempt_count a \<and> dr_max_attempts r = dr_max_attempts a"
  shows "\<exists>k' ds' t' w'. fold (process_attempt render envs cid) batch (k, ds, t, w) = (k', ds @ ds', t', w') \<and>
    rw_config w' = rw_config w \<and> rw_shutdown w' = rw_shutdown w \<and>
    (\<not> cb_open (rw_breaker w) \<longrightarrow> \<not> cb_open (rw_breaker w')) \<and>
    list_all2 (row_moves (rw_config w) envs (dr_id ` set batch)) t t' \<and>
    (\<forall>i. calls_of i ds' = (case find (\<lambda>a. dr_id a = i) batch of None \<Rightarrow> [] | Some a \<Rightarrow> row_calls (envs i) a))"
  using assms
proof (induction batch arbitrary: k ds t w)
  case Nil
  have "list_all2 (row_moves (rw_config w) envs {}) t t" by (simp add: list_all2_refl row_moves_def)
  then show ?case by simp
next
  case (Cons a batch)
  let ?d = "if spent a then [] else [(dr_id a, de_raised (envs (dr_id a)) = None)]"
  obtain k1 t1 w1 where one: "process_attempt render envs cid a (k, ds, t, w) = (k1, ds @ ?d, t1, w1)"
    "rw_config w1 = rw_config w" "rw_shutdown w1 = rw_shutdown w"
    "\<not> cb_open (rw_breaker w) \<longrightarrow> \<not> cb_open (rw_breaker w1)"
    and m1: "list_all2 (row_moves (rw_config w) envs {dr_id a}) t t1"
    using process_attempt_row [of envs a t render cid k ds w] Cons.prems(2,3) by (metis list.set_intros(1))
  have new: "dr_id a \<notin> dr_id ` set batch" using Cons.prems(1) by auto
  have same: "dr_attempt_count r = dr_attempt_count b \<and> dr_max_attempts r = dr_max_attempts b"
    if b: "b \<in> set batch" "r \<in> set t1" "dr_id r = dr_id b" for b r
  proof -
    obtain j where j: "j < length t1" "r = t1 ! j" using b(2) by (auto simp: in_set_conv_nth)
    with m1 have "j < length t" "row_moves (rw_config w) envs {dr_id a} (t ! j) r"
      by (auto simp: list_all2_conv_all_nth)
    moreover have "dr_id r \<noteq> dr_id a" using b(1,3) new by (metis image_eqI)
    ultimately have "r = t ! j" "t ! j \<in> set t"
      by (auto simp: row_moves_def row_after_def split: if_splits)
    with Cons.prems(3) [of b r] b(1,3) show ?thesis by simp
  qed
  obtain k' ds' t' w' where rest: "fold (process_attempt render envs cid) batch (k1, ds @ ?d, t1, w1) =
      (k', (ds @ ?d) @ ds', t', w')" "rw_config w' = rw_config w1" "rw_shutdown w' = rw_shutdown w1"
    "\<not> cb_open (rw_breaker w1) \<longrightarrow> \<not> cb_open (rw_breaker w')"
    and m2: "list_all2 (row_moves (rw_config w1) envs (dr_id ` set batch)) t1 t'"
    and calls: "\<forall>i. calls_of i ds' = (case find (\<lambda>a. dr_id a = i) batch of None \<Rightarrow> [] | Some a \<Rightarrow> row_calls (envs i) a)"
    using Cons.IH [of t1 k1 "ds @ ?d" w1] Cons.prems(1,2) same by (auto simp del: split_paired_Ex)
  have "list_all2 (row_moves (rw_config w) envs (dr_id ` set (a # batch))) t t'"
  proof (rule list_all2_trans [OF _ m1 m2])
    fix r r1 r'
    assume "row_moves (rw_config w) envs {dr_id a} r r1" "row_moves (rw_config w1) envs (dr_id ` set batch) r1 r'"
    with new one(2) row_moves_id [of "rw_config w" envs "{dr_id a}" r r1]
    show "row_moves (rw_config w) envs (dr_id ` set (a # batch)) r r'"
      by (cases "dr_id r = dr_id a") (simp_all add: row_moves_def)
  qed
  moreover have "find (\<lambda>b. dr_id b = dr_id a) batch = None" using new by (simp add: find_None_iff image_iff) metis
  then have "calls_of i (?d @ ds') =
      (case find (\<lambda>a. dr_id a = i) (a # batch) of None \<Rightarrow> [] | Some a \<Rightarrow> row_calls (envs i) a)" for i
    using calls by (auto simp: row_calls_def)
  ultimately show ?case
    using one rest by (intro exI [of _ k'] exI [of _ "?d @ ds'"] exI [of _ t'] exI [of _ w']) auto
qed

section \<open>A round\<close>

lemma build_attempts_Ok:
  "build_attempts rs = Ok as \<Longrightarrow>
   map dr_id as = map dr_id rs \<and> map dr_attempt_count as = map dr_attempt_count rs \<and>
   map dr_max_attempts as = map dr_max_attempts rs"
  by (induction rs arbitrary: as) (auto simp: mk_delivery_attempt_def split: sum.splits if_splits)

definition row_valid :: "delivery_row \<Rightarrow> bool" where
  "row_valid r \<longleftrightarrow> 0 \<le> dr_attempt_count r \<and> 1 \<le> dr_max_attempts r \<and> dr_max_attempts r \<le> 20"

lemma build_attempts_valid: "\<forall>r \<in> set rs. row_valid r \<Longrightarrow> \<exists>as. build_attempts rs = Ok as"
  by (induction rs) (auto simp: mk_delivery_attempt_def row_valid_def)

lemma build_attempts_invalid:
  "r \<in> set rs \<Longrightarrow> mk_delivery_attempt r = Err e \<Longrightarrow> \<exists>e. build_attempts rs = Err e"
  by (induction rs) (auto split: sum.split)

lemma due_batch_set: "set (due_batch c now t) \<subseteq> set (filter (is_due now) t)"
  unfolding due_batch_def by (rule subset_trans [OF set_take_subset]) simp

lemma due_batch_distinct:
  assumes "distinct (map dr_id t)"
  shows "distinct (map dr_id (due_batch c now t))"
proof -
  have "inj_on dr_id (set t)" "distinct t" using assms by (simp_all add: distinct_map)
  then have "distinct (due_batch c now t)" "inj_on dr_id (set (due_batch c now t))"
    using due_batch_set [of c now t] by (auto simp: due_batch_def intro: inj_on_subset)
  then show ?thesis by (simp add: distinct_map)
qed

lemma due_batch_all:
  assumes "int (length t) \<le> rc_batch_size c"
  shows "set (due_batch c now t) = set (filter (is_due now) t)"
proof -
  have "length (sort_key (\<lambda>r. the (dr_next_retry_at r)) (filter (is_due now) t)) \<le> nat (rc_batch_size c)"
    using assms length_filter_le [of "is_due now" t] unfolding length_sort by linarith
  then show ?thesis by (simp add: due_batch_def)
qed

text \<open>The identifiers that move in a round, and what the round does to every row.\<close>

definition round_of ::
  "retry_config \<Rightarrow> round_env \<Rightarrow> uuid set \<Rightarrow> deliveries \<Rightarrow> delivery_table \<Rightarrow> delivery_table \<Rightarrow> bool" where
  "round_of c env I ds t t' \<longleftrightarrow>
     (\<forall>r \<in> set t. dr_id r \<in> I \<longrightarrow> dr_status r = D_FAILED) \<and>
     list_all2 (row_moves c (ro_delivery env) I) t t' \<and>
     (\<forall>r \<in> set t. calls_of (dr_id r) ds = (if dr_id r \<in> I then row_calls (ro_delivery env (dr_id r)) r else []))"

lemma round_idle: "round_of c env {} [] t t"
  by (simp add: round_of_def row_moves_def list_all2_refl)

lemma poll_round:
  assumes dist: "distinct (map dr_id t)" and settle: "\<And>i. updates_settle (ro_delivery env i)"
    and poll: "poll_and_retry render env (t, w) = (res, ds, t', w')"
  shows "rw_config w' = rw_config w \<and> rw_shutdown w' = rw_shutdown w \<and>
    (\<exists>I. round_of (rw_config w) env I ds t t' \<and>
      (\<not> cb_open (rw_breaker w) \<longrightarrow> fe_reply (ro_fetch env) = R_Done \<longrightarrow>
       (\<forall>r \<in> set t. row_valid r) \<longrightarrow> int (length t) \<le> rc_batch_size (rw_config w) \<longrightarrow>
       I = dr_id ` set (filter (is_due (fe_now (ro_fetch env))) t) \<and> \<not> cb_open (rw_breaker w')))"
proof -
  let ?f = "ro_fetch env"
  obtain got w1 where f: "fetch_pending_retries ?f (ro_correlation_id env) t w = (got, w1)"
    by (cases "fetch_pending_retries ?f (ro_correlation_id env) t w")
  have w1: "rw_config w1 = rw_config w" "rw_shutdown w1 = rw_shutdown w"
    using f by (auto simp: fetch_pending_retries_def split: sum.splits prod.splits option.splits)
  let ?batch = "due_batch (rw_config w) (fe_now ?f) t"
  have ok: "got = (case build_attempts ?batch of Err e \<Rightarrow> Err (RetryInfra e) | Ok as \<Rightarrow> Ok as) \<and>
      \<not> cb_open (rw_breaker w1)" if "\<not> cb_open (rw_breaker w)" "fe_reply ?f = R_Done"
    using f that by (auto simp: fetch_pending_retries_def check_circuit_breaker_def reset_not_open)
  show ?thesis
  proof (cases got)
    case (Inl e)
    with f poll have "ds = []" "t' = t" "w' = w1" by (auto simp: poll_and_retry_def)
    moreover have "\<not> (\<forall>r \<in> set t. row_valid r)"
      if "\<not> cb_open (rw_breaker w)" "fe_reply ?f = R_Done"
    proof
      assume "\<forall>r \<in> set t. row_valid r"
      then have "\<forall>r \<in> set ?batch. row_valid r" using due_batch_set by fastforce
      from build_attempts_valid [OF this] ok [OF that] Inl show False by auto
    qed
    ultimately show ?thesis using w1 round_idle by (metis)
  next
    case (Inr as)
    have as: "build_attempts ?batch = Ok as"
      using f Inr by (auto simp: fetch_pending_retries_def split: sum.splits prod.splits option.splits)
    note same = build_attempts_Ok [OF as]
    have ids: "dr_id ` set as = dr_id ` set ?batch" using same by (metis list.set_map)
    have dist_as: "distinct (map dr_id as)" using same due_batch_distinct [OF dist] by metis
    have row: "dr_attempt_count r = dr_attempt_count a \<and> dr_max_attempts r = dr_max_attempts a"
      if "a \<in> set as" "r \<in> set t" "dr_id r = dr_id a" for a r
    proof -
      obtain j where j: "j < length as" "a = as ! j" using \<open>a \<in> set as\<close> by (auto simp: in_set_conv_nth)
      have len: "length as = length ?batch" using same by (metis length_map)
      then have "?batch ! j \<in> set ?batch" using j by simp
      then have "?batch ! j \<in> set t" using due_batch_set by fastforce
      moreover have eq: "dr_id (?batch ! j) = dr_id a" "dr_attempt_count (?batch ! j) = dr_attempt_count a"
        "dr_max_attempts (?batch ! j) = dr_max_attempts a"
        using j len same by (metis nth_map)+
      ultimately have "r = ?batch ! j" using that dist by (metis distinct_map inj_onD)
      with eq show ?thesis by simp
    qed
    let ?k = "\<lparr>rn_succeeded = 0, rn_failed = 0, rn_dlq = 0, rn_errors = []\<rparr>"
    obtain k ds' t2 w2 where fold: "fold (process_attempt render (ro_delivery env) (ro_correlation_id env)) as
        (?k, [], t, w1) = (k, [] @ ds', t2, w2)" "rw_config w2 = rw_config w1" "rw_shutdown w2 = rw_shutdown w1"
      "\<not> cb_open (rw_breaker w1) \<longrightarrow> \<not> cb_open (rw_breaker w2)"
      "list_all2 (row_moves (rw_config w1) (ro_delivery env) (dr_id ` set as)) t t2"
      and calls: "\<forall>i. calls_of i ds' = (case find (\<lambda>a. dr_id a = i) as of None \<Rightarrow> [] | Some a \<Rightarrow> row_calls (ro_delivery env i) a)"
      using fold_attempts [OF dist_as, of "ro_delivery env" t render "ro_correlation_id env" ?k "[]" w1] settle row
      by blast
    have res: "ds = ds'" "t' = t2" "rw_config w' = rw_config w2" "rw_shutdown w' = rw_shutdown w2"
      "rw_breaker w' = rw_breaker w2"
      using poll f Inr fold(1) by (auto simp: poll_and_retry_def Let_def)
    have "calls_of (dr_id r) ds' = (if dr_id r \<in> dr_id ` set as then row_calls (ro_delivery env (dr_id r)) r else [])"
      if "r \<in> set t" for r
    proof (cases "find (\<lambda>a. dr_id a = dr_id r) as")
      case None
      then have "dr_id r \<notin> dr_id ` set as" by (auto simp: find_None_iff)
      with None calls show ?thesis by simp
    next
      case (Some a)
      then have "a \<in> set as" "dr_id a = dr_id r" by (auto simp: find_Some_iff)
      moreover from this have "dr_id r \<in> dr_id ` set as" by (metis image_eqI)
      ultimately show ?thesis using Some calls row [of a r] that by (simp add: row_calls_def spent_def)
    qed
    moreover have "dr_status r = D_FAILED" if "r \<in> set t" "dr_id r \<in> dr_id ` set as" for r
    proof -
      from that(2) ids obtain b where "b \<in> set ?batch" "dr_id b = dr_id r" by auto
      moreover from this have "b \<in> set t" "dr_status b = D_FAILED" using due_batch_set by (auto simp: is_due_def)
      ultimately show ?thesis using that(1) dist by (metis distinct_map inj_onD)
    qed
    ultimately have "round_of (rw_config w) env (dr_id ` set as) ds t t'"
      using fold(5) w1 res by (simp add: round_of_def)
    moreover have "dr_id ` set as = dr_id ` set (filter (is_due (fe_now ?f)) t)"
      if "int (length t) \<le> rc_batch_size (rw_config w)"
      unfolding ids due_batch_all [OF that] ..
    ultimately show ?thesis using w1 res fold(2-4) ok by metis
  qed
qed

section \<open>Runs\<close>

text \<open>A relation between a row at the start, the calls for it, and the row now, kept by every round.\<close>

lemma run_rows:
  assumes settle: "\<And>e. E e \<Longrightarrow> updates_settle e"
    and same_id: "\<And>r cs r'. P r cs r' \<Longrightarrow> dr_id r' = dr_id r"
    and step: "\<And>r cs r' e r''. P r cs r' \<Longrightarrow> dr_status r' = D_FAILED \<Longrightarrow> E e \<Longrightarrow>
      row_after (rw_config w) e r' r'' \<Longrightarrow> P r (cs @ row_calls e r') r''"
    and dist: "distinct (map dr_id t0)"
    and "\<forall>(env, stops) \<in> set rounds. \<forall>i. E (ro_delivery env i)"
    and "list_all2 (\<lambda>r r'. P r (calls_of (dr_id r) seen) r') t0 t"
    and "run_worker render rounds (t, w) = (ds, t', w')"
  shows "list_all2 (\<lambda>r r'. P r (calls_of (dr_id r) (seen @ ds)) r') t0 t'"
  using assms(3,5-7)
proof (induction rounds arbitrary: t w seen ds)
  case (Cons round rounds)
  obtain env stops where r: "round = (env, stops)" by (cases round)
  show ?case
  proof (cases "rw_shutdown w")
    case False
    obtain res ds1 t1 w1 where poll: "poll_and_retry render env (t, w) = (res, ds1, t1, w1)"
      by (cases "poll_and_retry render env (t, w)")
    let ?w1 = "if stops then retry_stop w1 else w1"
    obtain ds2 where rest: "run_worker render rounds (t1, ?w1) = (ds2, t', w')" and ds: "ds = ds1 @ ds2"
      using Cons.prems(4) r False poll by (auto split: prod.splits)
    have ids: "map dr_id t = map dr_id t0"
      using Cons.prems(3) by (induction rule: list_all2_induct) (auto dest: same_id)
    have E: "\<And>i. E (ro_delivery env i)" using Cons.prems(2) r by auto
    from poll_round [OF _ settle [OF E] poll] dist ids obtain I where
      w1: "rw_config w1 = rw_config w" and round: "round_of (rw_config w) env I ds1 t t1" by metis
    have "list_all2 (\<lambda>r r'. P r (calls_of (dr_id r) (seen @ ds1)) r') t0 t1"
    proof (rule list_all2_all_nthI)
      show "length t0 = length t1"
        using Cons.prems(3) round by (auto simp: round_of_def dest!: list_all2_lengthD)
      fix n assume n: "n < length t0"
      then have n': "n < length t" using Cons.prems(3) by (auto dest: list_all2_lengthD)
      have P: "P (t0 ! n) (calls_of (dr_id (t0 ! n)) seen) (t ! n)" using Cons.prems(3) n by (auto dest: list_all2_nthD)
      have id: "dr_id (t ! n) = dr_id (t0 ! n)" using P by (rule same_id)
      have mv: "row_moves (rw_config w) (ro_delivery env) I (t ! n) (t1 ! n)"
        and failed: "dr_id (t ! n) \<in> I \<Longrightarrow> dr_status (t ! n) = D_FAILED"
        and calls: "calls_of (dr_id (t ! n)) ds1 =
          (if dr_id (t ! n) \<in> I then row_calls (ro_delivery env (dr_id (t ! n))) (t ! n) else [])"
        using round n' by (auto simp: round_of_def dest: list_all2_nthD)
      show "P (t0 ! n) (calls_of (dr_id (t0 ! n)) (seen @ ds1)) (t1 ! n)"
      proof (cases "dr_id (t ! n) \<in> I")
        case True
        with mv calls id have "row_after (rw_config w) (ro_delivery env (dr_id (t ! n))) (t ! n) (t1 ! n)"
          "calls_of (dr_id (t0 ! n)) ds1 = row_calls (ro_delivery env (dr_id (t ! n))) (t ! n)"
          by (simp_all add: row_moves_def)
        with Cons.prems(1) [OF P failed [OF True] E] show ?thesis by simp
      next
        case False
        with mv calls id P show ?thesis by (simp add: row_moves_def)
      qed
    qed
    moreover have "rw_config ?w1 = rw_config w" using w1 by (simp add: retry_stop_def)
    ultimately have "list_all2 (\<lambda>r r'. P r (calls_of (dr_id r) ((seen @ ds1) @ ds2)) r') t0 t'"
      using Cons.prems(1,2) by (intro Cons.IH [OF _ _ _ rest]) auto
    then show ?thesis by (simp add: ds)
  qed (use Cons.prems r in auto)
qed simp

text \<open>A database that answers, and rounds that come after every retry time set before.\<close>

fun spaced :: "retry_config \<Rightarrow> timestamp \<Rightarrow> (round_env \<times> bool) list \<Rightarrow> bool" where
  "spaced c T [] \<longleftrightarrow> True"
| "spaced c T ((env, stops) # rounds) \<longleftrightarrow> T \<le> fe_now (ro_fetch env) \<and>
     (\<exists>T'. (\<forall>i. de_retry_now (ro_delivery env i) + usec_of_seconds (rc_backoff_max_seconds c) \<le> T') \<and>
       spaced c T' rounds)"

definition database_answers ::
  "timestamp \<Rightarrow> delivery_table \<Rightarrow> retry_worker \<Rightarrow> (round_env \<times> bool) list \<Rightarrow> bool" where
  "database_answers T t w rounds \<longleftrightarrow>
     \<not> rw_shutdown w \<and> \<not> cb_open (rw_breaker w) \<and> distinct (map dr_id t) \<and>
     int (length t) \<le> rc_batch_size (rw_config w) \<and>
     (\<forall>r \<in> set t. row_valid r \<and> (dr_status r = D_FAILED \<longrightarrow> (\<exists>u. dr_next_retry_at r = Some u \<and> u \<le> T))) \<and>
     (\<forall>(env, stops) \<in> set rounds. \<not> stops \<and> fe_reply (ro_fetch env) = R_Done \<and>
       (\<forall>i. updates_settle (ro_delivery env i))) \<and>
     spaced (rw_config w) T rounds"

lemma usec_of_seconds_mono:
  assumes "x \<le> y"
  shows "usec_of_seconds x \<le> usec_of_seconds y"
proof -
  let ?r = "\<lambda>z :: real. let n = \<lfloor>z\<rfloor>; d = z - of_int n in
      if d < 1/2 then n else if d > 1/2 then n + 1 else if even n then n else n + 1"
  have "?r a \<le> ?r b" if "a \<le> b" for a b :: real
  proof (cases "\<lfloor>a\<rfloor> = \<lfloor>b\<rfloor>")
    case True
    with that show ?thesis by (simp add: Let_def)
  next
    case False
    with floor_mono [OF that] have "\<lfloor>a\<rfloor> + 1 \<le> \<lfloor>b\<rfloor>" by linarith
    then show ?thesis by (auto simp: Let_def)
  qed
  from this [of "x * 1000000" "y * 1000000"] assms show ?thesis unfolding usec_of_seconds_def Let_def by simp
qed

lemma retry_time_bound:
  "calculate_next_retry_at c now n \<le> now + usec_of_seconds (rc_backoff_max_seconds c)"
  by (simp add: calculate_next_retry_at_def retry_delay_def usec_of_seconds_mono)

definition rounds_left :: "delivery_row \<Rightarrow> nat" where
  "rounds_left r = Suc (nat (dr_max_attempts r - dr_attempt_count r))"

lemma round_settles:
  assumes db: "database_answers T t w ((env, stops) # rounds)"
    and poll: "poll_and_retry render env (t, w) = (res, ds, t', w')"
    and left: "\<forall>r \<in> set t. dr_status r = D_FAILED \<longrightarrow> rounds_left r \<le> Suc n"
  shows "\<exists>T'. database_answers T' t' w' rounds \<and> (\<forall>r \<in> set t'. dr_status r = D_FAILED \<longrightarrow> rounds_left r \<le> n)"
proof -
  have dist: "distinct (map dr_id t)" and settle: "\<And>i. updates_settle (ro_delivery env i)"
    using db by (auto simp: database_answers_def)
  have due: "is_due (fe_now (ro_fetch env)) r \<longleftrightarrow> dr_status r = D_FAILED" if "r \<in> set t" for r
    using that db by (fastforce simp: database_answers_def is_due_def)
  from poll_round [OF dist settle poll] db obtain I where w': "rw_config w' = rw_config w" "rw_shutdown w' = rw_shutdown w"
    "\<not> cb_open (rw_breaker w')" and round: "round_of (rw_config w) env I ds t t'"
    and I: "I = dr_id ` set (filter (is_due (fe_now (ro_fetch env))) t)"
    by (auto simp: database_answers_def)
  obtain T' where T': "\<forall>i. de_retry_now (ro_delivery env i) + usec_of_seconds (rc_backoff_max_seconds (rw_config w)) \<le> T'"
    "spaced (rw_config w) T' rounds"
    using db by (auto simp: database_answers_def)
  have each: "row_valid r' \<and> (dr_status r' = D_FAILED \<longrightarrow> rounds_left r' \<le> n \<and> (\<exists>u. dr_next_retry_at r' = Some u \<and> u \<le> T'))"
    if r': "r' \<in> set t'" for r'
  proof -
    from r' obtain j where j: "j < length t'" "r' = t' ! j" by (auto simp: in_set_conv_nth)
    define r where "r = t ! j"
    from j round have r: "r \<in> set t" "row_moves (rw_config w) (ro_delivery env) I r r'"
      by (auto simp: r_def round_of_def list_all2_conv_all_nth)
    show ?thesis
    proof (cases "dr_id r \<in> I")
      case True
      with round r(1) have "dr_status r = D_FAILED" by (auto simp: round_of_def)
      with left r(1) have l: "rounds_left r \<le> Suc n" by auto
      have v: "row_valid r" using db r(1) by (auto simp: database_answers_def)
      let ?e = "ro_delivery env (dr_id r)"
      from True r(2) have after: "row_after (rw_config w) ?e r r'" by (simp add: row_moves_def)
      have "calculate_next_retry_at (rw_config w) (de_retry_now ?e) k \<le> T'" for k
        using retry_time_bound T'(1) by (meson order_trans)
      with after l v show ?thesis
        by (auto simp: row_after_def rounds_left_def row_valid_def spent_def split: if_splits)
    next
      case False
      with r(2) have "r' = r" by (simp add: row_moves_def)
      moreover have "dr_status r \<noteq> D_FAILED" using False r(1) due I by auto
      ultimately show ?thesis using db r(1) by (auto simp: database_answers_def)
    qed
  qed
  have "map dr_id t' = map dr_id t" using round moves_ids by (auto simp: round_of_def)
  then have "distinct (map dr_id t')" "length t' = length t" using dist by (auto dest: map_eq_imp_length_eq)
  with each T' w' db have "database_answers T' t' w' rounds" by (auto simp: database_answers_def)
  with each show ?thesis by blast
qed

lemma run_settles:
  assumes "database_answers T t w rounds" "run_worker render rounds (t, w) = (ds, t', w')"
    and "\<forall>r \<in> set t. dr_status r = D_FAILED \<longrightarrow> rounds_left r \<le> length rounds"
  shows "\<forall>r \<in> set t'. dr_status r \<noteq> D_FAILED"
  using assms
proof (induction rounds arbitrary: T t w ds)
  case Nil
  then show ?case by (auto simp: rounds_left_def)
next
  case (Cons round rounds)
  obtain env stops where r: "round = (env, stops)" by (cases round)
  obtain res ds1 t1 w1 where poll: "poll_and_retry render env (t, w) = (res, ds1, t1, w1)"
    by (cases "poll_and_retry render env (t, w)")
  have "\<not> stops" "\<not> rw_shutdown w" using Cons.prems(1) r by (auto simp: database_answers_def)
  with Cons.prems(2) r poll obtain ds2 where rest: "run_worker render rounds (t1, w1) = (ds2, t', w')"
    by (auto split: prod.splits)
  from round_settles [OF Cons.prems(1) [unfolded r] poll, of "length rounds"] Cons.prems(3) obtain T' where
    "database_answers T' t1 w1 rounds" "\<forall>r \<in> set t1. dr_status r = D_FAILED \<longrightarrow> rounds_left r \<le> length rounds" by auto
  from Cons.IH [OF this(1) rest this(2)] show ?case .
qed

section \<open>An unreadable row\<close>

lemma sorted_take_below:
  assumes "sorted (map k xs)" "p \<in> set xs" "length (filter (\<lambda>x. k x \<le> k p) xs) \<le> n"
  shows "p \<in> set (take n xs)"
  using assms
proof (induction xs arbitrary: n)
  case (Cons x xs)
  show ?case
  proof (cases "x = p")
    case True
    with Cons.prems(3) show ?thesis by (cases n) auto
  next
    case False
    with Cons.prems have "k x \<le> k p" "p \<in> set xs" by auto
    with Cons show ?thesis by (cases n) auto
  qed
qed simp

definition ahead_of :: "delivery_row \<Rightarrow> delivery_row \<Rightarrow> bool" where
  "ahead_of p r \<longleftrightarrow> dr_status r = D_FAILED \<and>
     (case dr_next_retry_at r of None \<Rightarrow> False | Some u \<Rightarrow> u \<le> the (dr_next_retry_at p))"

lemma due_batch_contains:
  assumes "p \<in> set t" "is_due now p" "int (length (filter (ahead_of p) t)) \<le> rc_batch_size c"
  shows "p \<in> set (due_batch c now t)"
proof -
  let ?k = "\<lambda>r. the (dr_next_retry_at r)" and ?xs = "filter (is_due now) t"
  have "length (filter (\<lambda>x. ?k x \<le> ?k p) (sort_key ?k ?xs)) = length (filter (\<lambda>x. ?k x \<le> ?k p) ?xs)"
    by (metis mset_filter mset_sort size_mset)
  also have "\<dots> \<le> length (filter (ahead_of p) t)"
    by (induction t) (auto simp: ahead_of_def is_due_def split: option.splits)
  finally have "p \<in> set (take (nat (rc_batch_size c)) (sort_key ?k ?xs))"
    using assms by (intro sorted_take_below [where k = ?k]) auto
  then show ?thesis by (simp add: due_batch_def)
qed

lemma poll_poisoned:
  assumes "p \<in> set (due_batch (rw_config w) (fe_now (ro_fetch env)) t)" "\<not> row_valid p"
  shows "\<exists>e w'. poll_and_retry render env (t, w) = (Err e, [], t, w') \<and> rw_config w' = rw_config w \<and>
    rw_last_result w' = rw_last_result w"
proof -
  have "mk_delivery_attempt p = Err ValidationError"
    using assms(2) by (auto simp: mk_delivery_attempt_def row_valid_def)
  from build_attempts_invalid [OF assms(1) this] obtain e where
    "build_attempts (due_batch (rw_config w) (fe_now (ro_fetch env)) t) = Err e" by blast
  then show ?thesis
    by (auto simp: poll_and_retry_def fetch_pending_retries_def split: sum.split prod.split option.split)
qed

section \<open>A worker for the witnesses\<close>

definition demo_retry_worker :: retry_worker where
  "demo_retry_worker = \<lparr>rw_config = \<lparr>rc_poll_interval_seconds = 30, rc_batch_size = 10, rc_max_retry_attempts = 5,
       rc_backoff_base_seconds = 60, rc_backoff_max_seconds = 60, rc_backoff_multiplier = 2,
       rc_delivery_timeout_seconds = 30, rc_circuit_breaker_threshold = 5, rc_circuit_breaker_reset_timeout = 60,
       rc_circuit_breaker_half_open_successes = 1, rc_query_timeout_seconds = 30\<rparr>,
     rw_breaker = \<lparr>cb_failures = 0, cb_open = False, cb_open_until = 0, cb_half_open = False,
       cb_half_open_success_count = 0, cb_threshold = 5, cb_reset_timeout = 60, cb_half_open_successes = 1,
       cb_service_name = ''retry-worker'', cb_transport_type = DATABASE, cb_enable_active_recovery = False,
       cb_recovery_task = None, cb_tasks = [], cb_next_task = 0, cb_callback = False, cb_events = []\<rparr>,
     rw_last_result = None, rw_shutdown = False\<rparr>"

lemma demo_retry_worker_new: "new_retry_worker 0 (rw_config demo_retry_worker) = Ok demo_retry_worker"
  by (simp add: new_retry_worker_def demo_retry_worker_def init_circuit_breaker_def)

definition demo_row :: "uuid \<Rightarrow> int \<Rightarrow> delivery_row" where
  "demo_row i lmt = \<lparr>dr_id = i, dr_subscription_id = 1, dr_notification_payload = ''n'', dr_status = D_FAILED,
     dr_attempt_count = 1, dr_max_attempts = lmt, dr_next_retry_at = Some 0, dr_last_error = None,
     dr_created_at = 0, dr_updated_at = 0\<rparr>"

definition demo_update :: "retry_reply \<Rightarrow> update_env" where
  "demo_update reply = \<lparr>ue_now = 0, ue_reply = reply, ue_failure_time = 0\<rparr>"

definition demo_round :: "string option \<Rightarrow> retry_reply \<Rightarrow> round_env \<times> bool" where
  "demo_round raised reply = (\<lparr>ro_correlation_id = 1,
     ro_fetch = \<lparr>fe_check_time = 0, fe_now = 60000000, fe_reply = R_Done, fe_failure_time = 0\<rparr>,
     ro_delivery = (\<lambda>_. \<lparr>de_raised = raised, de_retry_now = 0, de_success_update = demo_update reply,
       de_failure_update = demo_update R_Done, de_dlq_update = demo_update R_Done\<rparr>)\<rparr>, False)"

lemma demo_answers:
  assumes "reply = R_Done \<or> \<not> took_effect reply" "between 1 20 lmt"
  shows "database_answers 0 [demo_row i lmt] demo_retry_worker (replicate n (demo_round raised reply))"
proof -
  have "usec_of_seconds 60 = 60000000" by (simp add: usec_of_seconds_def)
  then have "spaced (rw_config demo_retry_worker) T (replicate n (demo_round raised reply))" if "T \<le> 60000000" for T
    using that
  proof (induction n arbitrary: T)
    case (Suc n)
    then show ?case
      by (simp add: demo_round_def demo_retry_worker_def) (blast intro: order_refl)
  qed simp
  with assms show ?thesis
    by (auto simp: database_answers_def demo_retry_worker_def demo_row_def demo_round_def row_valid_def between_def
        updates_settle_def demo_update_def)
qed

section \<open>Properties\<close>

definition updates_work :: "delivery_env \<Rightarrow> bool" where
  "updates_work e \<longleftrightarrow> ue_reply (de_failure_update e) = R_Done \<and> ue_reply (de_dlq_update e) = R_Done \<and>
     ue_reply (de_success_update e) = R_Done"

definition accounted :: "delivery_row \<Rightarrow> bool list \<Rightarrow> delivery_row \<Rightarrow> bool" where
  "accounted r calls r' \<longleftrightarrow> dr_id r' = dr_id r \<and> dr_max_attempts r' = dr_max_attempts r \<and>
     dr_attempt_count r' = dr_attempt_count r + int (length calls) \<and>
     (calls \<noteq> [] \<longrightarrow> dr_attempt_count r' \<le> dr_max_attempts r) \<and>
     (if dr_status r = D_FAILED then
        (case dr_status r' of
           D_SUCCEEDED \<Rightarrow> \<exists>n. calls = replicate n False @ [True]
         | D_FAILED \<Rightarrow> True \<notin> set calls
         | D_DLQ \<Rightarrow> True \<notin> set calls \<and> dr_attempt_count r' \<ge> dr_max_attempts r
         | D_PENDING \<Rightarrow> False)
      else r' = r \<and> calls = [])"

text \<open>
  C16: While the database takes the status updates, deliveries are accounted for exactly, whatever the
  deliveries, the fetches and the breaker do over any number of rounds. Every call of the delivery function
  raises the attempt count of its row by one, no row is called beyond its maximum, a row that has not failed
  is never touched, a row succeeds with its first returning call and is not called again, and a row
  reaches the dead letter status only with its attempts used up and none of them returned.
\<close>
theorem retry_accounting:
  assumes "distinct (map dr_id t)" "\<forall>(env, stops) \<in> set rounds. \<forall>i. updates_work (ro_delivery env i)"
    and "run_worker render rounds (t, w) = (ds, t', w')"
  shows "list_all2 (\<lambda>r r'. accounted r (calls_of (dr_id r) ds) r') t t'"
proof -
  have step: "accounted r (cs @ row_calls e r') r''"
    if "accounted r cs r'" "dr_status r' = D_FAILED" "updates_work e" "row_after (rw_config w) e r' r''" for r cs r' e r''
  proof -
    from that(1,2) have r: "dr_status r = D_FAILED" "True \<notin> set cs" "dr_id r' = dr_id r"
      "dr_max_attempts r' = dr_max_attempts r" "dr_attempt_count r' = dr_attempt_count r + int (length cs)"
      by (simp_all add: accounted_def split: if_splits)
    from r(2) have "cs = replicate (length cs) False"
      by (induction cs) auto
    then obtain n where cs: "cs = replicate n False" by blast
    show ?thesis
    proof (cases "spent r'")
      case True
      with that(1,4) r show ?thesis by (simp add: accounted_def row_after_def row_calls_def spent_def)
    next
      case False
      show ?thesis
      proof (cases "concluded e")
        case True
        then have "row_calls e r' = [True]" using False by (simp add: row_calls_def concluded_def)
        moreover have "\<exists>m. cs @ [True] = replicate m False @ [True]" using cs by blast
        moreover have "dr_id r'' = dr_id r" "dr_max_attempts r'' = dr_max_attempts r" "dr_status r'' = D_SUCCEEDED"
          "dr_attempt_count r'' = dr_attempt_count r + int (length (cs @ [True]))"
          "dr_attempt_count r'' \<le> dr_max_attempts r"
          using that(4) False True r by (auto simp: row_after_def spent_def)
        ultimately show ?thesis using r(1) unfolding accounted_def by (simp del: append_same_eq)
      next
        case not: False
        then have "row_calls e r' = [False]"
          using False that(3) by (simp add: row_calls_def concluded_def updates_work_def)
        with False not that(4) r show ?thesis by (simp add: accounted_def row_after_def spent_def)
      qed
    qed
  qed
  have "accounted r [] r" for r
    by (cases "dr_status r") (auto simp: accounted_def)
  then have "list_all2 (\<lambda>r r'. accounted r (calls_of (dr_id r) []) r') t t" by (simp add: list_all2_refl)
  moreover have settle: "updates_settle e" if "updates_work e" for e
    using that by (simp add: updates_work_def updates_settle_def)
  moreover have "dr_id r' = dr_id r" if "accounted r cs r'" for r cs r'
    using that by (simp add: accounted_def)
  ultimately show ?thesis
    using run_rows [where E = updates_work and P = accounted and seen = "[]", OF settle _ step assms(1,2) _ assms(3)]
    unfolding append_Nil by blast
qed

text \<open>Two attempts are left, every delivery raises, and the fourth of five rounds finds nothing to do.\<close>
theorem retry_accounting_witness:
  "\<exists>ds t' w'. run_worker (\<lambda>_. ''error'') (replicate 5 (demo_round (Some ''refused'') R_Done))
      ([demo_row 7 3], demo_retry_worker) = (ds, t', w') \<and>
    list_all2 (\<lambda>r r'. accounted r (calls_of (dr_id r) ds) r') [demo_row 7 3] t'"
proof -
  obtain ds t' w' where run: "run_worker (\<lambda>_. ''error'') (replicate 5 (demo_round (Some ''refused'') R_Done))
      ([demo_row 7 3], demo_retry_worker) = (ds, t', w')"
    by (cases "run_worker (\<lambda>_. ''error'') (replicate 5 (demo_round (Some ''refused'') R_Done))
      ([demo_row 7 3], demo_retry_worker)")
  have "list_all2 (\<lambda>r r'. accounted r (calls_of (dr_id r) ds) r') [demo_row 7 3] t'"
    by (rule retry_accounting [OF _ _ run]) (simp_all add: demo_round_def demo_update_def updates_work_def)
  with run show ?thesis by blast
qed



text \<open>
  C35: One row that the model object refuses stops the worker for good. Its validation error leaves the fetch, so
  nothing of the batch is processed; the row is not marked, stays among the first in the order of the retry
  times, and is in every later batch: no round ever delivers anything or changes the table, and the last
  result stays what it was, whatever the database replies.
\<close>
theorem unreadable_row_stops_worker:
  assumes "p \<in> set t" "is_due T p" "mk_delivery_attempt p = Err ValidationError"
    and "int (length (filter (ahead_of p) t)) \<le> rc_batch_size (rw_config w)"
    and "\<forall>(env, stops) \<in> set rounds. T \<le> fe_now (ro_fetch env)"
    and "run_worker render rounds (t, w) = (ds, t', w')"
  shows "ds = [] \<and> t' = t \<and> rw_last_result w' = rw_last_result w"
  using assms(4-6)
proof (induction rounds arbitrary: w ds)
  case (Cons round rounds)
  obtain env stops where r: "round = (env, stops)" by (cases round)
  show ?case
  proof (cases "rw_shutdown w")
    case False
    have "is_due (fe_now (ro_fetch env)) p"
      using assms(2) Cons.prems(2) r by (auto simp: is_due_def split: option.splits)
    moreover have "\<not> row_valid p" using assms(3) by (auto simp: mk_delivery_attempt_def row_valid_def)
    ultimately obtain e w1 where "poll_and_retry render env (t, w) = (Err e, [], t, w1)"
      "rw_config w1 = rw_config w" "rw_last_result w1 = rw_last_result w"
      using poll_poisoned due_batch_contains [OF assms(1) _ Cons.prems(1)] by blast
    moreover from this Cons.prems(3) r False have
      "run_worker render rounds (t, if stops then retry_stop w1 else w1) = (ds, t', w')"
      by (auto split: prod.splits)
    ultimately show ?thesis
      using Cons.IH [of "if stops then retry_stop w1 else w1" ds] Cons.prems(1,2) r
      by (auto simp: retry_stop_def split: if_splits)
  qed (use Cons.prems r in auto)
qed simp

text \<open>A row that allows 25 attempts keeps the good row beside it from being delivered.\<close>
theorem unreadable_row_stops_worker_witness:
  "\<exists>w'. run_worker (\<lambda>_. ''error'') (replicate 9 (demo_round None R_Done)) ([demo_row 7 25, demo_row 8 3], demo_retry_worker) =
     ([], [demo_row 7 25, demo_row 8 3], w')"
proof -
  obtain ds t' w' where run: "run_worker (\<lambda>_. ''error'') (replicate 9 (demo_round None R_Done))
      ([demo_row 7 25, demo_row 8 3], demo_retry_worker) = (ds, t', w')"
    by (cases "run_worker (\<lambda>_. ''error'') (replicate 9 (demo_round None R_Done))
      ([demo_row 7 25, demo_row 8 3], demo_retry_worker)")
  have "ds = [] \<and> t' = [demo_row 7 25, demo_row 8 3] \<and> rw_last_result w' = rw_last_result demo_retry_worker"
    by (rule unreadable_row_stops_worker [where p = "demo_row 7 25" and T = 0, OF _ _ _ _ _ run])
      (simp_all add: demo_row_def is_due_def mk_delivery_attempt_def ahead_of_def demo_retry_worker_def demo_round_def)
  with run show ?thesis by blast
qed

end
