(* ===== verification/PolicyRegistry.thy ===== *)
theory PolicyRegistry
  imports EnvParsing Interfaces "HOL-Library.List_Lexorder" "HOL-Library.Char_ord" "HOL-Library.Product_Lexorder"
begin

text \<open>
  The registry of decision policies: \<^verbatim>\<open>runtime/registry_policy.py\<close> with its mixins
  \<^verbatim>\<open>mixin_policy_validation.py\<close> and \<^verbatim>\<open>mixin_semver_cache.py\<close>, the models
  \<^verbatim>\<open>model_policy_key.py\<close> and \<^verbatim>\<open>model_policy_registration.py\<close>, and \<^verbatim>\<open>util_version.py\<close>.

  \<^verbatim>\<open>ModelSemVer\<close> belongs to the core library: its parser, text form and comparison are the argument
  \<open>semver\<close>. The least-recently-used cache in front of the parser is left out, since the parser is a
  function. A policy class is given by what reflection tells of it. The lock makes each operation atomic.
\<close>

section \<open>Versions\<close>

record 'v semver =
  sv_parse :: "string \<Rightarrow> 'v option"
  sv_to_string :: "'v \<Rightarrow> string"
  sv_less :: "'v \<Rightarrow> 'v \<Rightarrow> bool"

text \<open>The result \<open>None\<close> is the \<^verbatim>\<open>ValueError\<close>.\<close>

definition split_first :: "char \<Rightarrow> string \<Rightarrow> string \<times> string option" where
  "split_first c s = (case dropWhile (\<lambda>x. x \<noteq> c) s of
     [] \<Rightarrow> (s, None)
   | _ # rest \<Rightarrow> (takeWhile (\<lambda>x. x \<noteq> c) s, Some rest))"

definition pad_parts :: "string list \<Rightarrow> string list" where
  "pad_parts ps = ps @ replicate (3 - length ps) ''0''"

definition normalize_version :: "'v semver \<Rightarrow> string \<Rightarrow> string option" where
  "normalize_version V version =
     (if version = [] \<or> py_strip version = [] then None
      else
        let stripped = py_strip version;
            normalized = (if hd stripped \<in> {CHR ''v'', CHR ''V''} then tl stripped else stripped) in
        if normalized \<noteq> [] \<and> last normalized = CHR ''-'' then None
        else
          let (version_part, prerelease) = split_first CHR ''-'' normalized;
              expanded = join_with CHR ''.'' (pad_parts (py_split CHR ''.'' version_part)) in
          case sv_parse V expanded of
            None \<Rightarrow> None
          | Some v \<Rightarrow>
              Some (case prerelease of
                      Some (c # cs) \<Rightarrow> sv_to_string V v @ ''-'' @ c # cs
                    | _ \<Rightarrow> sv_to_string V v))"

section \<open>Keys and classes\<close>

datatype policy_type = POLICY_ORCHESTRATOR | POLICY_REDUCER

fun policy_type_value :: "policy_type \<Rightarrow> string" where
  "policy_type_value POLICY_ORCHESTRATOR = ''orchestrator''"
| "policy_type_value POLICY_REDUCER = ''reducer''"

text \<open>Callers may pass the enumeration or a text.\<close>

datatype type_input = TypeEnum policy_type | TypeText string

fun validate_policy_type_value :: "type_input \<Rightarrow> policy_type option" where
  "validate_policy_type_value (TypeEnum t) = Some t"
| "validate_policy_type_value (TypeText s) = find (\<lambda>t. policy_type_value t = s) [POLICY_ORCHESTRATOR, POLICY_REDUCER]"

datatype policy_error = PolicyRegistryError | PolicyConfigurationError | KeyValidationError | PyKeyError

record policy_key =
  pk_policy_id :: string
  pk_policy_type :: policy_type
  pk_version :: string

text \<open>The strings pydantic strips: Unicode white space, on Latin-1 characters.\<close>

definition is_white_space :: "char \<Rightarrow> bool" where
  "is_white_space c \<longleftrightarrow> (of_char c :: nat) \<in> {9, 10, 11, 12, 13, 32, 133, 160}"

definition strip_whitespace :: "string \<Rightarrow> string" where
  "strip_whitespace s = rev (dropWhile is_white_space (rev (dropWhile is_white_space s)))"

definition mk_policy_key :: "'v semver \<Rightarrow> string \<Rightarrow> policy_type \<Rightarrow> string \<Rightarrow> policy_error + policy_key" where
  "mk_policy_key V policy_id t version =
     (case normalize_version V version of
        None \<Rightarrow> Err KeyValidationError
      | Some n \<Rightarrow> Ok \<lparr>pk_policy_id = strip_whitespace policy_id, pk_policy_type = t, pk_version = strip_whitespace n\<rparr>)"

definition to_tuple :: "policy_key \<Rightarrow> string \<times> string \<times> string" where
  "to_tuple k = (pk_policy_id k, policy_type_value (pk_policy_type k), pk_version k)"

text \<open>What \<^verbatim>\<open>hasattr\<close>, \<^verbatim>\<open>getattr\<close>, \<^verbatim>\<open>callable\<close> and \<^verbatim>\<open>iscoroutinefunction\<close> say of a class.\<close>

datatype class_attribute =
    AttrMissing | AttrProperty | AttrNone | AttrText string | AttrPolicyType policy_type | AttrOther

datatype class_method = MethodMissing | NotCallable | SyncMethod | AsyncMethod

record policy_class =
  pc_name :: string
  pc_policy_id :: class_attribute
  pc_policy_type :: class_attribute
  pc_reduce :: class_method
  pc_decide :: class_method
  pc_evaluate :: class_method

record policy_registration =
  pg_policy_id :: string
  pg_policy_class :: policy_class
  pg_policy_type :: policy_type
  pg_version :: string
  pg_allow_async :: bool

definition mk_policy_registration ::
  "'v semver \<Rightarrow> string \<Rightarrow> policy_class \<Rightarrow> type_input \<Rightarrow> string \<Rightarrow> bool \<Rightarrow> policy_error + policy_registration" where
  "mk_policy_registration V policy_id cls t version allow_async =
     (case validate_policy_type_value t of
        None \<Rightarrow> Err KeyValidationError
      | Some t' \<Rightarrow>
          (case normalize_version V version of
             None \<Rightarrow> Err KeyValidationError
           | Some n \<Rightarrow> Ok \<lparr>pg_policy_id = policy_id, pg_policy_class = cls, pg_policy_type = t', pg_version = n,
                          pg_allow_async = allow_async\<rparr>))"

section \<open>Validation\<close>

definition validate_policy_id_param :: "string \<Rightarrow> policy_error option" where
  "validate_policy_id_param policy_id = (if py_strip policy_id = [] then Some PolicyRegistryError else None)"

fun valid_policy_id_attribute :: "class_attribute \<Rightarrow> bool" where
  "valid_policy_id_attribute AttrProperty = True"
| "valid_policy_id_attribute (AttrText s) = (py_strip s \<noteq> [])"
| "valid_policy_id_attribute (AttrPolicyType t) = True"
| "valid_policy_id_attribute _ = False"

fun valid_policy_type_attribute :: "class_attribute \<Rightarrow> bool" where
  "valid_policy_type_attribute AttrProperty = True"
| "valid_policy_type_attribute (AttrPolicyType t) = True"
| "valid_policy_type_attribute (AttrText s) = (s \<in> {''orchestrator'', ''reducer''})"
| "valid_policy_type_attribute _ = False"

definition validate_protocol_implementation :: "string \<Rightarrow> policy_class \<Rightarrow> policy_error option" where
  "validate_protocol_implementation policy_id cls =
     (case validate_policy_id_param policy_id of
        Some e \<Rightarrow> Some e
      | None \<Rightarrow>
          if pc_policy_id cls = AttrMissing \<and> pc_policy_type cls = AttrMissing \<and> pc_evaluate cls = MethodMissing
          then Some PolicyRegistryError
          else if pc_policy_id cls = AttrMissing then Some PolicyRegistryError
          else if pc_policy_type cls = AttrMissing then Some PolicyRegistryError
          else if \<not> valid_policy_id_attribute (pc_policy_id cls) then Some PolicyRegistryError
          else if \<not> valid_policy_type_attribute (pc_policy_type cls) then Some PolicyRegistryError
          else if pc_evaluate cls = MethodMissing then Some PolicyRegistryError
          else if pc_evaluate cls = NotCallable then Some PolicyRegistryError
          else None)"

definition validate_sync_enforcement :: "string \<Rightarrow> policy_class \<Rightarrow> bool \<Rightarrow> policy_error option" where
  "validate_sync_enforcement policy_id cls allow_async =
     (case validate_policy_id_param policy_id of
        Some e \<Rightarrow> Some e
      | None \<Rightarrow>
          if AsyncMethod \<in> {pc_reduce cls, pc_decide cls, pc_evaluate cls} \<and> \<not> allow_async
          then Some PolicyRegistryError else None)"

section \<open>The registry\<close>

record policy_registry =
  rp_registry :: "(policy_key, policy_class) py_dict"
  rp_policy_id_index :: "(string, policy_key list) py_dict"

definition empty_policy_registry :: policy_registry where
  "empty_policy_registry = \<lparr>rp_registry = [], rp_policy_id_index = []\<rparr>"

definition normalize_policy_type :: "type_input \<Rightarrow> policy_error + policy_type" where
  "normalize_policy_type t = (case validate_policy_type_value t of None \<Rightarrow> Err PolicyRegistryError | Some x \<Rightarrow> Ok x)"

definition normalize_version_or_raise :: "'v semver \<Rightarrow> string \<Rightarrow> policy_error + string" where
  "normalize_version_or_raise V v =
     (case normalize_version V v of None \<Rightarrow> Err PolicyConfigurationError | Some n \<Rightarrow> Ok n)"

definition parse_semver :: "'v semver \<Rightarrow> string \<Rightarrow> policy_error + 'v" where
  "parse_semver V version =
     (case normalize_version V version of
        None \<Rightarrow> Err PolicyConfigurationError
      | Some n \<Rightarrow> (case sv_parse V n of None \<Rightarrow> Err PolicyConfigurationError | Some v \<Rightarrow> Ok v))"

definition index_of :: "policy_registry \<Rightarrow> string \<Rightarrow> policy_key list" where
  "index_of s policy_id = (case dict_get (rp_policy_id_index s) policy_id of None \<Rightarrow> [] | Some ks \<Rightarrow> ks)"

definition register_policy_class ::
  "'v semver \<Rightarrow> policy_registration \<Rightarrow> policy_registry \<Rightarrow> (policy_error + unit) \<times> policy_registry" where
  "register_policy_class V r s =
     (case validate_protocol_implementation (pg_policy_id r) (pg_policy_class r) of
        Some e \<Rightarrow> (Err e, s)
      | None \<Rightarrow>
     (case validate_sync_enforcement (pg_policy_id r) (pg_policy_class r) (pg_allow_async r) of
        Some e \<Rightarrow> (Err e, s)
      | None \<Rightarrow>
     (case normalize_policy_type (TypeEnum (pg_policy_type r)) of
        Err e \<Rightarrow> (Err e, s)
      | Ok t \<Rightarrow>
     (case normalize_version_or_raise V (pg_version r) of
        Err e \<Rightarrow> (Err e, s)
      | Ok version \<Rightarrow>
     (case parse_semver V version of
        Err e \<Rightarrow> (Err e, s)
      | Ok _ \<Rightarrow>
     (case mk_policy_key V (pg_policy_id r) t version of
        Err e \<Rightarrow> (Err e, s)
      | Ok key \<Rightarrow>
          let keys = index_of s (pg_policy_id r);
              keys' = (if key \<in> set keys then keys else keys @ [key]) in
          (Ok (), s\<lparr>rp_registry := dict_put key (pg_policy_class r) (rp_registry s),
                    rp_policy_id_index := dict_put (pg_policy_id r) keys' (rp_policy_id_index s)\<rparr>)))))))"

text \<open>The deprecated entry point: the validation of the model is reported as a configuration error.\<close>

definition register_policy ::
  "'v semver \<Rightarrow> string \<Rightarrow> policy_class \<Rightarrow> type_input \<Rightarrow> string \<Rightarrow> bool \<Rightarrow> policy_registry \<Rightarrow>
   (policy_error + unit) \<times> policy_registry" where
  "register_policy V policy_id cls t version allow_async s =
     (case mk_policy_registration V policy_id cls t version allow_async of
        Err _ \<Rightarrow> (Err PolicyConfigurationError, s)
      | Ok r \<Rightarrow> register_policy_class V r s)"

section \<open>Lookup\<close>

definition key_matches :: "policy_type option \<Rightarrow> string option \<Rightarrow> policy_key \<Rightarrow> bool" where
  "key_matches t v k \<longleftrightarrow> (case t of None \<Rightarrow> True | Some x \<Rightarrow> pk_policy_type k = x) \<and>
     (case v of None \<Rightarrow> True | Some n \<Rightarrow> pk_version k = n)"

text \<open>\<^verbatim>\<open>max\<close> with a key function: the first of the greatest. \<^verbatim>\<open>sort(reverse=True)\<close> is stable.\<close>

fun py_max :: "('b \<Rightarrow> 'b \<Rightarrow> bool) \<Rightarrow> ('a \<Rightarrow> 'b) \<Rightarrow> 'a \<Rightarrow> 'a list \<Rightarrow> 'a" where
  "py_max lt f m [] = m"
| "py_max lt f m (x # xs) = py_max lt f (if lt (f m) (f x) then x else m) xs"

fun insert_descending :: "('b \<Rightarrow> 'b \<Rightarrow> bool) \<Rightarrow> ('a \<Rightarrow> 'b) \<Rightarrow> 'a \<Rightarrow> 'a list \<Rightarrow> 'a list" where
  "insert_descending lt f x [] = [x]"
| "insert_descending lt f x (y # ys) =
     (if lt (f x) (f y) then y # insert_descending lt f x ys else x # y # ys)"

definition sort_descending :: "('b \<Rightarrow> 'b \<Rightarrow> bool) \<Rightarrow> ('a \<Rightarrow> 'b) \<Rightarrow> 'a list \<Rightarrow> 'a list" where
  "sort_descending lt f xs = foldr (insert_descending lt f) xs []"

definition registered_class :: "policy_registry \<Rightarrow> policy_key \<Rightarrow> policy_error + policy_class" where
  "registered_class s k = (case dict_get (rp_registry s) k of None \<Rightarrow> Err PyKeyError | Some c \<Rightarrow> Ok c)"

definition versions_parse :: "'v semver \<Rightarrow> policy_key list \<Rightarrow> bool" where
  "versions_parse V ks \<longleftrightarrow> (\<forall>k \<in> set ks. case parse_semver V (pk_version k) of Err _ \<Rightarrow> False | Ok _ \<Rightarrow> True)"

definition version_of :: "'v semver \<Rightarrow> policy_key \<Rightarrow> 'v" where
  "version_of V k = projr (parse_semver V (pk_version k))"

definition get_policy ::
  "'v semver \<Rightarrow> policy_registry \<Rightarrow> string \<Rightarrow> type_input option \<Rightarrow> string option \<Rightarrow> policy_error + policy_class" where
  "get_policy V s policy_id t version =
     (case (case t of None \<Rightarrow> Ok None | Some x \<Rightarrow> map_sum id Some (normalize_policy_type x)) of
        Err e \<Rightarrow> Err e
      | Ok t' \<Rightarrow>
     (case (case version of None \<Rightarrow> Ok None | Some x \<Rightarrow> map_sum id Some (normalize_version_or_raise V x)) of
        Err e \<Rightarrow> Err e
      | Ok v' \<Rightarrow>
          (case index_of s policy_id of
             [] \<Rightarrow> Err PolicyRegistryError
           | k # ks \<Rightarrow>
               if t' = None \<and> v' = None then
                 if ks = [] then registered_class s k
                 else if versions_parse V (k # ks) then registered_class s (py_max (sv_less V) (version_of V) k ks)
                 else Err PolicyConfigurationError
               else
                 let matching = filter (key_matches t' v') (k # ks) in
                 if \<exists>m \<in> set matching. dict_get (rp_registry s) m = None then Err PyKeyError
                 else case matching of
                   [] \<Rightarrow> Err PolicyRegistryError
                 | m # ms \<Rightarrow>
                     if v' = None \<and> ms \<noteq> [] then
                       if versions_parse V matching
                       then registered_class s (hd (sort_descending (sv_less V) (version_of V) matching))
                       else Err PolicyConfigurationError
                     else registered_class s m)))"

definition list_policy_keys ::
  "policy_registry \<Rightarrow> type_input option \<Rightarrow> policy_error + (string \<times> string \<times> string) list" where
  "list_policy_keys s t =
     (case (case t of None \<Rightarrow> Ok None | Some x \<Rightarrow> map_sum id Some (normalize_policy_type x)) of
        Err e \<Rightarrow> Err e
      | Ok t' \<Rightarrow> Ok (map to_tuple (filter (key_matches t' None) (sort_key to_tuple (map fst (rp_registry s))))))"

definition list_policy_types :: "policy_registry \<Rightarrow> string list" where
  "list_policy_types s = sort (remdups (map (\<lambda>(k, _). policy_type_value (pk_policy_type k)) (rp_registry s)))"

definition list_policy_versions :: "policy_registry \<Rightarrow> string \<Rightarrow> string list" where
  "list_policy_versions s policy_id = sort (remdups (map pk_version (index_of s policy_id)))"

definition is_policy_registered ::
  "'v semver \<Rightarrow> policy_registry \<Rightarrow> string \<Rightarrow> type_input option \<Rightarrow> string option \<Rightarrow> policy_error + bool" where
  "is_policy_registered V s policy_id t version =
     (case (case t of None \<Rightarrow> Ok None | Some x \<Rightarrow> map_sum id Some (normalize_policy_type x)) of
        Err _ \<Rightarrow> Ok False
      | Ok t' \<Rightarrow>
     (case (case version of None \<Rightarrow> Ok None | Some x \<Rightarrow> map_sum id Some (normalize_version_or_raise V x)) of
        Err e \<Rightarrow> Err e
      | Ok v' \<Rightarrow> Ok (\<exists>k \<in> set (index_of s policy_id). key_matches t' v' k)))"

section \<open>Removal\<close>

fun remove_policy_keys :: "string \<Rightarrow> policy_key list \<Rightarrow> policy_registry \<Rightarrow> policy_error option \<times> policy_registry" where
  "remove_policy_keys policy_id [] s = (None, s)"
| "remove_policy_keys policy_id (k # ks) s =
     (if dict_get (rp_registry s) k = None then (Some PyKeyError, s)
      else remove_policy_keys policy_id ks
        (s\<lparr>rp_registry := dict_del k (rp_registry s),
           rp_policy_id_index := dict_put policy_id (remove1 k (index_of s policy_id)) (rp_policy_id_index s)\<rparr>))"

definition unregister_policy ::
  "'v semver \<Rightarrow> string \<Rightarrow> type_input option \<Rightarrow> string option \<Rightarrow> policy_registry \<Rightarrow>
   (policy_error + nat) \<times> policy_registry" where
  "unregister_policy V policy_id t version s =
     (case (case t of None \<Rightarrow> Ok None | Some x \<Rightarrow> map_sum id Some (normalize_policy_type x)) of
        Err _ \<Rightarrow> (Ok 0, s)
      | Ok t' \<Rightarrow>
     (case (case version of None \<Rightarrow> Ok None | Some x \<Rightarrow> map_sum id Some (normalize_version_or_raise V x)) of
        Err e \<Rightarrow> (Err e, s)
      | Ok v' \<Rightarrow>
          let keys_to_remove = filter (key_matches t' v') (index_of s policy_id) in
          (case remove_policy_keys policy_id keys_to_remove s of
             (Some e, s1) \<Rightarrow> (Err e, s1)
           | (None, s1) \<Rightarrow>
               (Ok (length keys_to_remove),
                if dict_get (rp_policy_id_index s1) policy_id = Some []
                then s1\<lparr>rp_policy_id_index := dict_del policy_id (rp_policy_id_index s1)\<rparr> else s1))))"

definition clear_policies :: "policy_registry \<Rightarrow> policy_registry" where
  "clear_policies s = s\<lparr>rp_registry := [], rp_policy_id_index := []\<rparr>"

definition policy_count :: "policy_registry \<Rightarrow> nat" where
  "policy_count s = length (rp_registry s)"

definition contains_policy :: "'v semver \<Rightarrow> policy_registry \<Rightarrow> string \<Rightarrow> policy_error + bool" where
  "contains_policy V s policy_id = is_policy_registered V s policy_id None None"

end
