(* ===== verification/PolicyProps.thy ===== *)
theory PolicyProps imports PolicyRegistry begin

text \<open>
  What the policy registry guarantees: its index and its dictionary agree in every reachable state, a lookup
  finds the newest match, and what an identifier with surrounding white space does to both.
\<close>

section \<open>Versions\<close>

text \<open>
  What the core library documents of its versions: the text form has three numbers and parses to the same
  version, and the comparison is that of a total preorder.
\<close>

definition version_text :: "nat \<Rightarrow> nat \<Rightarrow> nat \<Rightarrow> string" where
  "version_text a b c = join_with CHR ''.'' [dec_digits a, dec_digits b, dec_digits c]"

definition semver_laws :: "'v semver \<Rightarrow> bool" where
  "semver_laws V \<longleftrightarrow>
     (\<forall>s v. sv_parse V s = Some v \<longrightarrow> sv_parse V (sv_to_string V v) = Some v \<and>
        (\<exists>a b c. sv_to_string V v = version_text a b c)) \<and>
     (\<forall>x y. sv_less V x y \<longrightarrow> \<not> sv_less V y x) \<and>
     (\<forall>x y z. \<not> sv_less V x y \<longrightarrow> \<not> sv_less V y z \<longrightarrow> \<not> sv_less V x z)"

lemma version_text_chars: "x \<in> set (version_text a b c) \<Longrightarrow> is_dec_digit x \<or> x = CHR ''.''"
  by (auto simp: version_text_def dest: dec_digits_digits)

lemma version_text_split: "py_split CHR ''.'' (version_text a b c) = [dec_digits a, dec_digits b, dec_digits c]"
  unfolding version_text_def by (rule py_split_join) (auto simp: is_dec_digit_def dest: dec_digits_digits)

lemma version_text_facts:
  "version_text a b c \<noteq> []" "is_dec_digit (hd (version_text a b c))" "is_dec_digit (last (version_text a b c))"
  "CHR ''-'' \<notin> set (version_text a b c)"
proof -
  show "version_text a b c \<noteq> []" by (simp add: version_text_def)
  show "is_dec_digit (hd (version_text a b c))"
    using dec_digits_digits [of "hd (dec_digits a)" a] by (simp add: version_text_def)
  show "is_dec_digit (last (version_text a b c))"
    using dec_digits_digits [of "last (dec_digits c)" c] by (simp add: version_text_def)
  show "CHR ''-'' \<notin> set (version_text a b c)"
    using version_text_chars [of "CHR ''-''" a b c] by (auto simp: is_dec_digit_def)
qed

lemma white_space_is_py_space: "is_white_space c \<Longrightarrow> is_py_space c"
  by (auto simp: is_white_space_def is_py_space_def Let_def)

lemma strip_id:
  assumes "s \<noteq> []" "\<not> is_py_space (hd s)" "\<not> is_py_space (last s)"
  shows "py_strip s = s" "strip_whitespace s = s"
proof -
  have "dropWhile P s = s" "dropWhile P (rev s) = rev s" if "\<And>c. P c \<Longrightarrow> is_py_space c" for P
    using assms that by (auto simp: dropWhile_eq_self_iff hd_rev)
  from this [of is_py_space] this [of is_white_space] show "py_strip s = s" "strip_whitespace s = s"
    by (simp_all add: py_strip_def strip_whitespace_def white_space_is_py_space)
qed

lemma split_first_hit: "c \<notin> set a \<Longrightarrow> split_first c (a @ c # b) = (a, Some b)"
proof -
  assume "c \<notin> set a"
  then have "dropWhile (\<lambda>x. x \<noteq> c) (a @ c # b) = c # b" "takeWhile (\<lambda>x. x \<noteq> c) (a @ c # b) = a"
    by (induction a) auto
  then show ?thesis by (simp add: split_first_def)
qed

lemma split_first_miss: "c \<notin> set a \<Longrightarrow> split_first c a = (a, None)"
proof -
  assume "c \<notin> set a"
  then have "dropWhile (\<lambda>x. x \<noteq> c) a = []" by auto
  then show ?thesis by (simp only: split_first_def list.case)
qed

lemma split_first_parts: "split_first c s = (a, Some b) \<Longrightarrow> s = a @ c # b"
proof -
  assume h: "split_first c s = (a, Some b)"
  then obtain x where x: "dropWhile (\<lambda>x. x \<noteq> c) s = x # b" "a = takeWhile (\<lambda>x. x \<noteq> c) s"
    by (auto simp: split_first_def split: list.splits)
  then have "x = c" using hd_dropWhile [of "\<lambda>x. x \<noteq> c" s] by auto
  with x takeWhile_dropWhile_id [of "\<lambda>x. x \<noteq> c" s] show ?thesis by simp
qed

lemma normalize_version_text:
  assumes laws: "semver_laws V" and v: "sv_parse V s = Some v"
    and n: "n = sv_to_string V v \<or>
      (\<exists>pre. n = sv_to_string V v @ ''-'' @ pre \<and> pre \<noteq> [] \<and> last pre \<noteq> CHR ''-'' \<and> \<not> is_py_space (last pre))"
  shows "normalize_version V n = Some n \<and> strip_whitespace n = n"
proof -
  obtain a b c where t: "sv_to_string V v = version_text a b c" and p: "sv_parse V (version_text a b c) = Some v"
    using laws v unfolding semver_laws_def by metis
  note facts = version_text_facts [of a b c]
  have hd: "n \<noteq> []" "hd n = hd (version_text a b c)" using n t facts(1) by auto
  have last: "last n \<noteq> CHR ''-'' \<and> \<not> is_py_space (last n)"
    using n t facts(1,3) digit_not_space [OF facts(3)] by (auto simp: is_dec_digit_def)
  have "\<not> is_py_space (hd n)" "hd n \<notin> {CHR ''v'', CHR ''V''}"
    using digit_not_space facts(2) hd(2) by (auto simp: is_dec_digit_def)
  with strip_id [of n] hd(1) last have strip: "py_strip n = n" "strip_whitespace n = n" by auto
  have parts: "join_with CHR ''.'' (pad_parts (py_split CHR ''.'' (version_text a b c))) = version_text a b c"
    by (simp add: version_text_split pad_parts_def) (simp add: version_text_def)
  show ?thesis
    using n
  proof
    assume "n = sv_to_string V v"
    with strip hd last t p parts \<open>hd n \<notin> {CHR ''v'', CHR ''V''}\<close> split_first_miss [OF facts(4)] show ?thesis
      by (simp add: normalize_version_def)
  next
    assume "\<exists>pre. n = sv_to_string V v @ ''-'' @ pre \<and> pre \<noteq> [] \<and> last pre \<noteq> CHR ''-'' \<and> \<not> is_py_space (last pre)"
    then obtain x xs where pre: "n = version_text a b c @ CHR ''-'' # x # xs" using t by (auto simp: neq_Nil_conv)
    with strip hd last t p parts \<open>hd n \<notin> {CHR ''v'', CHR ''V''}\<close> split_first_hit [OF facts(4), of "x # xs"] show ?thesis
      by (simp add: normalize_version_def)
  qed
qed

lemma normalize_version_idem:
  assumes laws: "semver_laws V" and n: "normalize_version V s = Some n"
  shows "normalize_version V n = Some n" "strip_whitespace n = n"
proof -
  define u where "u = (if hd (py_strip s) \<in> {CHR ''v'', CHR ''V''} then tl (py_strip s) else py_strip s)"
  have ne: "s \<noteq> []" "py_strip s \<noteq> []" using n by (auto simp: normalize_version_def split: if_splits)
  have u: "\<not> (u \<noteq> [] \<and> last u = CHR ''-'')"
    using n ne unfolding normalize_version_def u_def [symmetric] Let_def by (auto split: if_splits)
  obtain part rest where sp: "split_first CHR ''-'' u = (part, rest)" by (cases "split_first CHR ''-'' u")
  obtain v where v: "sv_parse V (join_with CHR ''.'' (pad_parts (py_split CHR ''.'' part))) = Some v"
    and n': "n = (case rest of Some (c # cs) \<Rightarrow> sv_to_string V v @ ''-'' @ c # cs | _ \<Rightarrow> sv_to_string V v)"
    using n ne u sp unfolding normalize_version_def u_def [symmetric] Let_def by (auto split: option.splits)
  have "n = sv_to_string V v \<or>
      (\<exists>pre. n = sv_to_string V v @ ''-'' @ pre \<and> pre \<noteq> [] \<and> last pre \<noteq> CHR ''-'' \<and> \<not> is_py_space (last pre))"
  proof (cases "\<exists>c cs. rest = Some (c # cs)")
    case True
    then obtain c cs where rest: "rest = Some (c # cs)" by blast
    with split_first_parts sp have uu: "u = part @ CHR ''-'' # c # cs" by blast
    then have "last u = last (c # cs)" "u \<noteq> []" by auto
    moreover from this have "last u = last (py_strip s)"
      using ne(2) unfolding u_def by (cases "hd (py_strip s) \<in> {CHR ''v'', CHR ''V''}") (auto simp: last_tl)
    then have "\<not> is_py_space (last u)" using py_strip_last [OF ne(2)] by simp
    ultimately show ?thesis using u rest n' by auto
  next
    case False
    then have "n = sv_to_string V v" using n' by (cases rest) (auto split: list.splits)
    then show ?thesis by blast
  qed
  from normalize_version_text [OF laws v this]
  show "normalize_version V n = Some n" "strip_whitespace n = n" by auto
qed

section \<open>Index and dictionary\<close>

definition registry_ok :: "'v semver \<Rightarrow> policy_registry \<Rightarrow> bool" where
  "registry_ok V s \<longleftrightarrow> wf_dict (rp_registry s) \<and> wf_dict (rp_policy_id_index s) \<and>
     (\<forall>i ks. dict_get (rp_policy_id_index s) i = Some ks \<longrightarrow>
        ks \<noteq> [] \<and> distinct ks \<and> (\<forall>k \<in> set ks. pk_policy_id k = i)) \<and>
     (\<forall>k. (dict_get (rp_registry s) k \<noteq> None) = (k \<in> set (index_of s (pk_policy_id k)))) \<and>
     (\<forall>k. dict_get (rp_registry s) k \<noteq> None \<longrightarrow>
        (\<exists>v. parse_semver V (pk_version k) = Ok v) \<and> normalize_version V (pk_version k) = Some (pk_version k))"

lemma registry_ok_empty: "registry_ok V empty_policy_registry"
  by (simp add: registry_ok_def empty_policy_registry_def index_of_def)

lemma index_facts:
  assumes "registry_ok V s"
  shows "distinct (index_of s i)" "\<And>k. k \<in> set (index_of s i) \<Longrightarrow> pk_policy_id k = i"
    "\<And>k. k \<in> set (index_of s i) \<Longrightarrow> dict_get (rp_registry s) k \<noteq> None"
proof -
  show "distinct (index_of s i)" and id: "\<And>k. k \<in> set (index_of s i) \<Longrightarrow> pk_policy_id k = i"
    using assms unfolding registry_ok_def index_of_def by (cases "dict_get (rp_policy_id_index s) i"; simp)+
  show "dict_get (rp_registry s) k \<noteq> None" if "k \<in> set (index_of s i)" for k
    using assms that id [OF that] unfolding registry_ok_def by metis
qed

lemma index_of_update:
  "index_of (s\<lparr>rp_registry := d, rp_policy_id_index := dict_put i ks (rp_policy_id_index s)\<rparr>) j =
     (if j = i then ks else index_of s j)"
  by (simp add: index_of_def dict_get_put)

text \<open>A registration that succeeds.\<close>

definition registered_key :: "'v semver \<Rightarrow> policy_registration \<Rightarrow> policy_key" where
  "registered_key V r = \<lparr>pk_policy_id = strip_whitespace (pg_policy_id r), pk_policy_type = pg_policy_type r,
     pk_version = the (normalize_version V (pg_version r))\<rparr>"

definition after_register :: "'v semver \<Rightarrow> policy_registration \<Rightarrow> policy_registry \<Rightarrow> policy_registry" where
  "after_register V r s =
     (let key = registered_key V r; keys = index_of s (pg_policy_id r) in
      s\<lparr>rp_registry := dict_put key (pg_policy_class r) (rp_registry s),
        rp_policy_id_index := dict_put (pg_policy_id r) (if key \<in> set keys then keys else keys @ [key])
          (rp_policy_id_index s)\<rparr>)"

lemma register_cases:
  assumes laws: "semver_laws V" and reg: "register_policy_class V r s = (res, s')"
  obtains (failed) e where "res = Err e" "s' = s"
  | (registered) n v where "res = Ok ()" "s' = after_register V r s" "normalize_version V (pg_version r) = Some n"
      "normalize_version V n = Some n" "parse_semver V n = Ok v" "pk_version (registered_key V r) = n"
proof (cases "\<exists>e. res = Err e")
  case True
  with reg failed show thesis
    by (auto simp: register_policy_class_def Let_def split: option.splits sum.splits)
next
  case False
  then obtain n v where n: "normalize_version V (pg_version r) = Some n" "parse_semver V n = Ok v"
    and rest: "mk_policy_key V (pg_policy_id r) (pg_policy_type r) n \<noteq> Err KeyValidationError" "res = Ok ()"
    using reg
    by (auto simp: register_policy_class_def normalize_policy_type_def normalize_version_or_raise_def Let_def
        mk_policy_key_def split: option.splits sum.splits if_splits)
  note idem = normalize_version_idem [OF laws n(1)]
  have "mk_policy_key V (pg_policy_id r) (pg_policy_type r) n = Ok (registered_key V r)"
    using idem n(1) by (simp add: mk_policy_key_def registered_key_def)
  with reg rest n have "s' = after_register V r s"
    by (auto simp: register_policy_class_def normalize_policy_type_def normalize_version_or_raise_def Let_def
        after_register_def split: option.splits sum.splits if_splits)
  with n idem rest registered show thesis by (simp add: registered_key_def)
qed

lemma registry_ok_register:
  assumes laws: "semver_laws V" and ok: "registry_ok V s" and id: "strip_whitespace (pg_policy_id r) = pg_policy_id r"
    and reg: "register_policy_class V r s = (res, s')"
  shows "registry_ok V s'"
  using laws reg
proof (cases rule: register_cases)
  case (registered n v)
  let ?k = "registered_key V r" and ?i = "pg_policy_id r"
  have k: "pk_policy_id ?k = ?i" using id by (simp add: registered_key_def)
  let ?ks = "if ?k \<in> set (index_of s ?i) then index_of s ?i else index_of s ?i @ [?k]"
  have s': "s' = s\<lparr>rp_registry := dict_put ?k (pg_policy_class r) (rp_registry s),
      rp_policy_id_index := dict_put ?i ?ks (rp_policy_id_index s)\<rparr>"
    using registered(2) by (simp add: after_register_def Let_def)
  note facts = index_facts [OF ok]
  have "?ks \<noteq> [] \<and> distinct ?ks \<and> (\<forall>x \<in> set ?ks. pk_policy_id x = ?i)"
    using facts(1) [of ?i] facts(2) [where i = ?i] k by auto
  moreover have "(x = ?k \<or> dict_get (rp_registry s) x \<noteq> None) = (x \<in> set (index_of s' (pk_policy_id x)))" for x
  proof -
    have "(dict_get (rp_registry s) x \<noteq> None) = (x \<in> set (index_of s (pk_policy_id x)))"
      using ok by (simp add: registry_ok_def)
    then show ?thesis using k unfolding s' index_of_update by auto
  qed
  ultimately show ?thesis
    using ok registered(4-6) unfolding registry_ok_def
    by (auto simp: s' dict_get_put index_of_update split: if_splits)
qed (use ok in simp)

lemma remove_policy_keys_spec:
  assumes "distinct ks" "\<And>k. k \<in> set ks \<Longrightarrow> dict_get (rp_registry s) k \<noteq> None" "distinct (index_of s i)"
  shows "\<exists>s'. remove_policy_keys i ks s = (None, s') \<and>
    (\<forall>k. dict_get (rp_registry s') k = (if k \<in> set ks then None else dict_get (rp_registry s) k)) \<and>
    (\<forall>j. dict_get (rp_policy_id_index s') j =
       (if j = i \<and> ks \<noteq> [] then Some (filter (\<lambda>k. k \<notin> set ks) (index_of s i)) else dict_get (rp_policy_id_index s) j)) \<and>
    (wf_dict (rp_registry s) \<longrightarrow> wf_dict (rp_registry s')) \<and>
    (wf_dict (rp_policy_id_index s) \<longrightarrow> wf_dict (rp_policy_id_index s'))"
  using assms
proof (induction ks arbitrary: s)
  case (Cons k ks)
  let ?s = "s\<lparr>rp_registry := dict_del k (rp_registry s),
    rp_policy_id_index := dict_put i (remove1 k (index_of s i)) (rp_policy_id_index s)\<rparr>"
  have idx: "index_of ?s i = filter (\<lambda>x. x \<noteq> k) (index_of s i)"
    unfolding index_of_update using Cons.prems(3) by (simp add: distinct_remove1_removeAll removeAll_filter_not_eq eq_commute)
  have "dict_get (rp_registry ?s) x \<noteq> None" if "x \<in> set ks" for x
    using that Cons.prems(1) Cons.prems(2) [of x] by (auto simp: dict_get_del)
  with Cons.IH [of ?s] Cons.prems(1,3) idx obtain s' where s': "remove_policy_keys i ks ?s = (None, s')"
    "\<forall>x. dict_get (rp_registry s') x = (if x \<in> set ks then None else dict_get (rp_registry ?s) x)"
    "\<forall>j. dict_get (rp_policy_id_index s') j =
       (if j = i \<and> ks \<noteq> [] then Some (filter (\<lambda>k. k \<notin> set ks) (index_of ?s i)) else dict_get (rp_policy_id_index ?s) j)"
    "wf_dict (rp_registry ?s) \<longrightarrow> wf_dict (rp_registry s')"
    "wf_dict (rp_policy_id_index ?s) \<longrightarrow> wf_dict (rp_policy_id_index s')"
    by auto
  have "dict_get (rp_registry s) k \<noteq> None" using Cons.prems(2) by simp
  with s'(1) have "remove_policy_keys i (k # ks) s = (None, s')" by simp
  moreover have "remove1 k (index_of s i) = filter (\<lambda>x. x \<noteq> k) (index_of s i)"
    using idx unfolding index_of_update by simp
  then have "dict_get (rp_policy_id_index s') j = (if j = i then Some (filter (\<lambda>x. x \<notin> set (k # ks)) (index_of s i))
      else dict_get (rp_policy_id_index s) j)" for j
    using s'(3) idx by (cases "ks = []") (auto simp: dict_get_put intro: filter_cong)
  ultimately show ?case
    using s'(2,4,5) by (auto simp: dict_get_del)
qed simp

lemma unregister_cases:
  assumes ok: "registry_ok V s" and un: "unregister_policy V i t v s = (res, s')"
  shows "registry_ok V s' \<and> res \<noteq> Err PyKeyError"
proof -
  have pass: "s' = s \<Longrightarrow> ?thesis" if "res \<noteq> Err PyKeyError" using ok that by simp
  obtain t' where t: "(case t of None \<Rightarrow> Ok None | Some x \<Rightarrow> map_sum id Some (normalize_policy_type x)) = Ok t' \<or> s' = s \<and> res = Ok 0"
    using un by (auto simp: unregister_policy_def split: sum.splits)
  show ?thesis
  proof (cases "s' = s \<and> res = Ok 0")
    case True
    with ok show ?thesis by simp
  next
    case False
    with t have t': "(case t of None \<Rightarrow> Ok None | Some x \<Rightarrow> map_sum id Some (normalize_policy_type x)) = Ok t'" by blast
    show ?thesis
    proof (cases "case v of None \<Rightarrow> Ok None | Some x \<Rightarrow> map_sum id Some (normalize_version_or_raise V x)")
      case (Inl e)
      then have "e = PolicyConfigurationError"
        by (auto simp: normalize_version_or_raise_def split: option.splits)
      with Inl un t' ok show ?thesis by (auto simp: unregister_policy_def)
    next
      case (Inr v')
      let ?ks = "filter (key_matches t' v') (index_of s i)"
      note facts = index_facts [OF ok]
      obtain s1 where rm: "remove_policy_keys i ?ks s = (None, s1)"
        and reg: "\<forall>k. dict_get (rp_registry s1) k = (if k \<in> set ?ks then None else dict_get (rp_registry s) k)"
        and idx: "\<forall>j. dict_get (rp_policy_id_index s1) j = (if j = i \<and> ?ks \<noteq> []
            then Some (filter (\<lambda>k. k \<notin> set ?ks) (index_of s i)) else dict_get (rp_policy_id_index s) j)"
        and wf: "wf_dict (rp_registry s1)" "wf_dict (rp_policy_id_index s1)"
        using remove_policy_keys_spec [of ?ks s i] facts ok by (auto simp: registry_ok_def)
      let ?s = "if dict_get (rp_policy_id_index s1) i = Some []
        then s1\<lparr>rp_policy_id_index := dict_del i (rp_policy_id_index s1)\<rparr> else s1"
      have res: "res = Ok (length ?ks)" "s' = ?s"
        using un t' Inr rm by (auto simp: unregister_policy_def Let_def)
      have same: "rp_registry ?s = rp_registry s1" by simp
      have index: "index_of ?s j = (if j = i then filter (\<lambda>k. k \<notin> set ?ks) (index_of s i) else index_of s j)" for j
      proof (cases "?ks = []")
        case True
        then have "index_of s1 j = index_of s j" for j using idx by (simp add: index_of_def)
        moreover have "dict_get (rp_policy_id_index s1) i \<noteq> Some []"
          using True idx ok by (auto simp: registry_ok_def)
        ultimately show ?thesis using True by (simp add: filter_True)
      next
        case False
        then show ?thesis using idx by (auto simp: index_of_def dict_get_del)
      qed
      have entry: "ks \<noteq> [] \<and> ks = index_of ?s j" if "dict_get (rp_policy_id_index ?s) j = Some ks" for j ks
        using that idx ok
        by (cases "j = i"; cases "?ks = []") (auto simp: index_of_def dict_get_del registry_ok_def split: if_splits)
      have "(dict_get (rp_registry s1) k \<noteq> None) = (k \<in> set (index_of ?s (pk_policy_id k)))" for k
        unfolding index using reg facts(2) ok by (auto simp: registry_ok_def)
      moreover have "distinct (index_of ?s j)" "\<And>k. k \<in> set (index_of ?s j) \<Longrightarrow> pk_policy_id k = j" for j
        unfolding index using facts by (auto split: if_splits)
      moreover have "wf_dict (rp_policy_id_index ?s)" using wf by simp
      ultimately have "registry_ok V ?s"
        using entry wf reg ok unfolding registry_ok_def same by (metis (no_types, lifting))
      with res show ?thesis by simp
    qed
  qed
qed

lemma unregister_effect:
  assumes ok: "registry_ok V s"
  shows "case unregister_policy V i t v s of
       (Err e, s') \<Rightarrow> e = PolicyConfigurationError \<and> s' = s
     | (Ok n, s') \<Rightarrow> (\<exists>gone. length gone = n \<and> distinct gone \<and> set gone \<subseteq> set (index_of s i) \<and>
         (\<forall>k. dict_get (rp_registry s') k = (if k \<in> set gone then None else dict_get (rp_registry s) k)) \<and>
         (t = None \<longrightarrow> v = None \<longrightarrow> gone = index_of s i))"
proof -
  let ?t = "case t of None \<Rightarrow> Ok None | Some x \<Rightarrow> map_sum id Some (normalize_policy_type x)"
  let ?v = "case v of None \<Rightarrow> Ok None | Some x \<Rightarrow> map_sum id Some (normalize_version_or_raise V x)"
  show ?thesis
  proof (cases ?t)
    case (Inl e)
    then have "t \<noteq> None" by (cases t) auto
    with Inl show ?thesis by (auto simp: unregister_policy_def intro!: exI [of _ "[]"])
  next
    case (Inr t')
    show ?thesis
    proof (cases ?v)
      case (Inl e)
      then have "e = PolicyConfigurationError"
        by (auto simp: normalize_version_or_raise_def split: option.splits)
      with Inl Inr show ?thesis by (simp add: unregister_policy_def)
    next
      case v': (Inr v')
      define ks where "ks = filter (key_matches t' v') (index_of s i)"
      note facts = index_facts [OF ok]
      have ks: "distinct ks" "set ks \<subseteq> set (index_of s i)"
        unfolding ks_def using facts(1) by auto
      obtain s1 where rm: "remove_policy_keys i ks s = (None, s1)"
        and reg: "\<forall>k. dict_get (rp_registry s1) k = (if k \<in> set ks then None else dict_get (rp_registry s) k)"
        using remove_policy_keys_spec [where ks = ks and s = s and i = i, OF ks(1) facts(3) [of _ i] facts(1)] ks(2) by blast
      have whole: "t = None \<longrightarrow> v = None \<longrightarrow> ks = index_of s i"
        unfolding ks_def using Inr v' by (auto simp: key_matches_def filter_id_conv)
      let ?s1 = "if dict_get (rp_policy_id_index s1) i = Some []
        then s1\<lparr>rp_policy_id_index := dict_del i (rp_policy_id_index s1)\<rparr> else s1"
      have "unregister_policy V i t v s = (Ok (length ks), ?s1)"
        unfolding unregister_policy_def Inr v' sum.case Let_def ks_def [symmetric] rm by simp
      moreover have "\<forall>k. dict_get (rp_registry ?s1) k = (if k \<in> set ks then None else dict_get (rp_registry s) k)"
        using reg by simp
      ultimately show ?thesis using ks whole by (simp only: prod.case sum.case) blast
    qed
  qed
qed

section \<open>Reachable registries\<close>

datatype policy_op =
    PRegister policy_registration
  | PRegisterDeprecated string policy_class type_input string bool
  | PUnregister string "type_input option" "string option"
  | PClear

text \<open>The operations of callers whose identifiers have no white space around them.\<close>

inductive policy_step :: "'v semver \<Rightarrow> policy_op \<Rightarrow> policy_registry \<Rightarrow> policy_registry \<Rightarrow> bool" for V where
  "strip_whitespace (pg_policy_id r) = pg_policy_id r \<Longrightarrow> register_policy_class V r s = (res, s') \<Longrightarrow>
   policy_step V (PRegister r) s s'"
| "strip_whitespace i = i \<Longrightarrow> register_policy V i cls t v a s = (res, s') \<Longrightarrow>
   policy_step V (PRegisterDeprecated i cls t v a) s s'"
| "unregister_policy V i t v s = (res', s') \<Longrightarrow> policy_step V (PUnregister i t v) s s'"
| "policy_step V PClear s (clear_policies s)"

definition first_policies :: "policy_registry \<Rightarrow> bool" where
  "first_policies s \<longleftrightarrow> s = empty_policy_registry"

lemma registry_ok_step:
  assumes "policy_step V e s s'" "semver_laws V" "registry_ok V s"
  shows "registry_ok V s'"
  using assms(1)
proof cases
  case (2 i cls t v a res)
  show ?thesis
  proof (cases "mk_policy_registration V i cls t v a")
    case (Inl e)
    with 2 assms(3) show ?thesis by (simp add: register_policy_def)
  next
    case (Inr r)
    then have "pg_policy_id r = i" by (auto simp: mk_policy_registration_def split: option.splits)
    with 2 Inr assms registry_ok_register [of V s r] show ?thesis by (simp add: register_policy_def)
  qed
next
  case 4
  with registry_ok_empty [of V] show ?thesis
    by (cases s) (simp add: clear_policies_def empty_policy_registry_def)
qed (use assms registry_ok_register unregister_cases in blast)+

interpretation policy_machine: invariant_machine first_policies "policy_step V"
    "\<lambda>s. semver_laws V \<longrightarrow> registry_ok V s" for V
  by unfold_locales (auto simp: first_policies_def registry_ok_empty intro: registry_ok_step)

section \<open>The newest match\<close>

lemma semver_order:
  assumes "semver_laws V"
  shows "sv_less V x y \<Longrightarrow> \<not> sv_less V y x" "\<not> sv_less V x y \<Longrightarrow> \<not> sv_less V y z \<Longrightarrow> \<not> sv_less V x z"
    "\<not> sv_less V x x"
  using assms unfolding semver_laws_def by blast+

lemma py_max_spec:
  assumes "semver_laws V"
  shows "py_max (sv_less V) f m xs \<in> insert m (set xs) \<and>
    (\<forall>y \<in> insert m (set xs). \<not> sv_less V (f (py_max (sv_less V) f m xs)) (f y))"
proof (induction xs arbitrary: m)
  case Nil
  show ?case using semver_order(3) [OF assms] by simp
next
  case (Cons x xs)
  let ?m = "if sv_less V (f m) (f x) then x else m"
  let ?r = "py_max (sv_less V) f ?m xs"
  have m: "\<not> sv_less V (f ?m) (f m)" "\<not> sv_less V (f ?m) (f x)" "?m \<in> {m, x}"
    using semver_order(1,3) [OF assms] by auto
  from Cons.IH [of ?m] have r: "?r \<in> insert ?m (set xs)" "\<not> sv_less V (f ?r) (f ?m)" "\<forall>y \<in> set xs. \<not> sv_less V (f ?r) (f y)"
    by simp_all
  have "\<not> sv_less V (f ?r) (f m)" "\<not> sv_less V (f ?r) (f x)"
    by (rule semver_order(2) [OF assms r(2)], rule m)+
  with r m(3) have "?r \<in> insert m (set (x # xs)) \<and> (\<forall>y \<in> insert m (set (x # xs)). \<not> sv_less V (f ?r) (f y))" by auto
  then show ?case by simp
qed

lemma insert_descending_set: "set (insert_descending lt f x ys) = insert x (set ys)"
  by (induction ys) auto

lemma sort_descending_set: "set (sort_descending lt f xs) = set xs"
  by (induction xs) (simp_all add: sort_descending_def insert_descending_set)

lemma sort_descending_hd:
  assumes "semver_laws V" "xs \<noteq> []"
  shows "hd (sort_descending (sv_less V) f xs) \<in> set xs \<and>
    (\<forall>y \<in> set xs. \<not> sv_less V (f (hd (sort_descending (sv_less V) f xs))) (f y))"
  using assms(2)
proof (induction xs)
  case (Cons x xs)
  note o = semver_order [OF assms(1)]
  show ?case
  proof (cases "sort_descending (sv_less V) f xs")
    case Nil
    then have "xs = []" using sort_descending_set [of "sv_less V" f xs] by simp
    then show ?thesis using o(3) by (simp add: sort_descending_def)
  next
    case (Cons y ys)
    then have ne: "xs \<noteq> []" by (auto simp: sort_descending_def)
    have x: "sort_descending (sv_less V) f (x # xs) = insert_descending (sv_less V) f x (y # ys)"
      using Cons by (simp add: sort_descending_def)
    from Cons.IH [OF ne] Cons have y: "y \<in> set xs" "\<forall>z \<in> set xs. \<not> sv_less V (f y) (f z)" by auto
    show ?thesis
    proof (cases "sv_less V (f x) (f y)")
      case True
      with y o(1) show ?thesis unfolding x by simp
    next
      case False
      with y(2) o(2) have "\<forall>z \<in> set xs. \<not> sv_less V (f x) (f z)" by blast
      with False o(3) show ?thesis unfolding x by simp
    qed
  qed
qed simp

text \<open>What a lookup does once its filters are resolved.\<close>

lemma get_policy_resolved:
  assumes laws: "semver_laws V" and ok: "registry_ok V s"
    and t: "case t of None \<Rightarrow> t' = None | Some x \<Rightarrow> t' = validate_policy_type_value x \<and> t' \<noteq> None"
    and v: "case version of None \<Rightarrow> v' = None | Some x \<Rightarrow> v' = normalize_version V x \<and> v' \<noteq> None"
  shows "(filter (key_matches t' v') (index_of s i) = [] \<and> get_policy V s i t version = Err PolicyRegistryError) \<or>
    (\<exists>k \<in> set (filter (key_matches t' v') (index_of s i)). \<exists>cls. dict_get (rp_registry s) k = Some cls \<and>
       get_policy V s i t version = Ok cls \<and>
       (\<forall>k' \<in> set (filter (key_matches t' v') (index_of s i)). \<not> sv_less V (version_of V k) (version_of V k')))"
proof -
  let ?ks = "filter (key_matches t' v') (index_of s i)"
  have tt: "(case t of None \<Rightarrow> Ok None | Some x \<Rightarrow> map_sum id Some (normalize_policy_type x)) = Ok t'"
    using t by (auto simp: normalize_policy_type_def split: option.splits)
  have vv: "(case version of None \<Rightarrow> Ok None | Some x \<Rightarrow> map_sum id Some (normalize_version_or_raise V x)) = Ok v'"
    using v by (auto simp: normalize_version_or_raise_def split: option.splits)
  note facts = index_facts [OF ok]
  have parse: "versions_parse V ks" if "set ks \<subseteq> set (index_of s i)" for ks
    using that facts(3) ok by (fastforce simp: versions_parse_def registry_ok_def split: sum.split)
  have found: "\<exists>cls. dict_get (rp_registry s) k = Some cls \<and> registered_class s k = Ok cls"
    if "k \<in> set (index_of s i)" for k
    using facts(3) [OF that] by (auto simp: registered_class_def)
  have irr: "\<not> sv_less V x x" for x using semver_order(3) [OF laws] .
  show ?thesis
  proof (cases "index_of s i")
    case Nil
    then show ?thesis using tt vv by (simp add: get_policy_def)
  next
    case (Cons k ks)
    have g: "get_policy V s i t version =
      (if t' = None \<and> v' = None then
         if ks = [] then registered_class s k
         else if versions_parse V (k # ks) then registered_class s (py_max (sv_less V) (version_of V) k ks)
         else Err PolicyConfigurationError
       else if \<exists>m \<in> set ?ks. dict_get (rp_registry s) m = None then Err PyKeyError
       else case ?ks of
           [] \<Rightarrow> Err PolicyRegistryError
         | m # ms \<Rightarrow>
             if v' = None \<and> ms \<noteq> [] then
               if versions_parse V ?ks then registered_class s (hd (sort_descending (sv_less V) (version_of V) ?ks))
               else Err PolicyConfigurationError
             else registered_class s m)"
      unfolding get_policy_def tt vv sum.case Cons list.case Let_def ..
    have known: "\<not> (\<exists>m \<in> set ?ks. dict_get (rp_registry s) m = None)" using facts(3) by auto
    show ?thesis
    proof (cases "t' = None \<and> v' = None")
      case True
      then have all: "?ks = k # ks" using Cons by (simp add: key_matches_def)
      define m where "m = (if ks = [] then k else py_max (sv_less V) (version_of V) k ks)"
      have m: "m \<in> set (k # ks)" "\<forall>y \<in> set (k # ks). \<not> sv_less V (version_of V m) (version_of V y)"
        using py_max_spec [OF laws, of "version_of V" k ks] irr by (auto simp: m_def)
      then obtain cls where "dict_get (rp_registry s) m = Some cls" "registered_class s m = Ok cls"
        using found [of m] Cons by auto
      moreover have "get_policy V s i t version = registered_class s m"
        unfolding g using True Cons parse [of "k # ks"] by (simp add: m_def)
      ultimately show ?thesis using m unfolding all by auto
    next
      case False
      show ?thesis
      proof (cases ?ks)
        case Nil
        have "get_policy V s i t version = Err PolicyRegistryError"
          unfolding g if_not_P [OF False] Nil by simp
        with Nil show ?thesis by blast
      next
        case ms: (Cons m ms)
        define x where "x = (if v' = None \<and> ms \<noteq> [] then hd (sort_descending (sv_less V) (version_of V) ?ks) else m)"
        have same: "version_of V y = version_of V m" if "v' \<noteq> None" "y \<in> set ?ks" for y
        proof -
          have "m \<in> set ?ks" using ms by simp
          with that have "pk_version y = pk_version m" by (auto simp: key_matches_def)
          then show ?thesis by (simp add: version_of_def)
        qed
        have ne: "?ks \<noteq> []" using ms by simp
        have x: "x \<in> set ?ks \<and> (\<forall>y \<in> set ?ks. \<not> sv_less V (version_of V x) (version_of V y))"
        proof (cases "v' = None \<and> ms \<noteq> []")
          case True
          show ?thesis
            unfolding x_def if_P [OF True] by (rule sort_descending_hd [OF laws ne])
        next
          case False
          then have "x = m" unfolding x_def by (rule if_not_P)
          moreover have "m \<in> set ?ks" unfolding ms by simp
          moreover have "\<not> sv_less V (version_of V m) (version_of V y)" if y: "y \<in> set ?ks" for y
          proof (cases "v' = None")
            case True
            with False have "?ks = [m]" using ms by simp
            with y show ?thesis using irr by simp
          next
            case False
            from same [OF False y] show ?thesis using irr by simp
          qed
          ultimately show ?thesis by blast
        qed
        have "x \<in> set (index_of s i)" using x by simp
        then obtain cls where cls: "dict_get (rp_registry s) x = Some cls" "registered_class s x = Ok cls"
          using found by blast
        have "versions_parse V ?ks" by (rule parse) auto
        then have vp: "versions_parse V (m # ms)" unfolding ms .
        have kn: "\<not> (\<exists>a \<in> set (m # ms). dict_get (rp_registry s) a = None)" using known unfolding ms .
        have "get_policy V s i t version = registered_class s x"
          unfolding g if_not_P [OF False] ms if_not_P [OF kn] x_def list.case using vp by (simp only: if_True split: if_split) blast
        with cls x show ?thesis by (intro disjI2 bexI [of _ x] exI [of _ cls]) simp_all
      qed
    qed
  qed
qed

lemma get_policy_errors:
  assumes "semver_laws V" "registry_ok V s"
  shows "get_policy V s i t version \<noteq> Err PyKeyError"
proof (cases "(case t of None \<Rightarrow> True | Some x \<Rightarrow> validate_policy_type_value x \<noteq> None) \<and>
    (case version of None \<Rightarrow> True | Some x \<Rightarrow> normalize_version V x \<noteq> None)")
  case True
  define t' where "t' = (case t of None \<Rightarrow> None | Some x \<Rightarrow> validate_policy_type_value x)"
  define v' where "v' = (case version of None \<Rightarrow> None | Some x \<Rightarrow> normalize_version V x)"
  from get_policy_resolved [OF assms, where t = t and t' = t' and version = version and v' = v' and i = i] True show ?thesis
    by (auto simp: t'_def v'_def split: option.splits)
next
  case False
  then show ?thesis
    by (auto simp: get_policy_def normalize_policy_type_def normalize_version_or_raise_def split: option.splits)
qed

section \<open>A version library and a registry for the witnesses\<close>

definition demo_parse :: "string \<Rightarrow> (nat \<times> nat \<times> nat) option" where
  "demo_parse s = (case py_split CHR ''.'' (fst (split_first CHR ''-'' s)) of
     [a, b, c] \<Rightarrow> if \<forall>p \<in> {a, b, c}. p \<noteq> [] \<and> list_all is_dec_digit p
                 then Some (dec_value a, dec_value b, dec_value c) else None
   | _ \<Rightarrow> None)"

definition demo_semver :: "(nat \<times> nat \<times> nat) semver" where
  "demo_semver = \<lparr>sv_parse = demo_parse, sv_to_string = (\<lambda>(a, b, c). version_text a b c), sv_less = (<)\<rparr>"

lemma demo_parse_text: "demo_parse (version_text a b c) = Some (a, b, c)"
  using split_first_miss [OF version_text_facts(4) [of a b c]]
  by (auto simp: demo_parse_def version_text_split list_all_iff dest: dec_digits_digits)

lemma demo_laws: "semver_laws demo_semver"
  unfolding semver_laws_def
proof (intro conjI allI impI)
  fix s v assume "sv_parse demo_semver s = Some v"
  show "sv_parse demo_semver (sv_to_string demo_semver v) = Some v"
    by (cases v) (simp add: demo_semver_def demo_parse_text)
  show "\<exists>a b c. sv_to_string demo_semver v = version_text a b c"
    by (cases v) (auto simp: demo_semver_def)
qed (auto simp: demo_semver_def)

lemma demo_normalize:
  "normalize_version demo_semver (version_text a b c) = Some (version_text a b c)"
  using normalize_version_text [OF demo_laws, of "version_text a b c" "(a, b, c)"]
  by (simp add: demo_semver_def demo_parse_text)

definition demo_policy :: "string \<Rightarrow> policy_class" where
  "demo_policy name = \<lparr>pc_name = name, pc_policy_id = AttrProperty, pc_policy_type = AttrProperty,
     pc_reduce = MethodMissing, pc_decide = MethodMissing, pc_evaluate = SyncMethod\<rparr>"

definition demo_registration :: "string \<Rightarrow> string \<Rightarrow> nat \<Rightarrow> policy_registration" where
  "demo_registration i name major = \<lparr>pg_policy_id = i, pg_policy_class = demo_policy name,
     pg_policy_type = POLICY_REDUCER, pg_version = version_text major 0 0, pg_allow_async = False\<rparr>"

lemma demo_registers:
  assumes "py_strip i \<noteq> []"
  shows "register_policy_class demo_semver (demo_registration i name major) s =
    (Ok (), after_register demo_semver (demo_registration i name major) s)"
proof -
  have p: "sv_parse demo_semver (version_text major 0 0) = Some (major, 0, 0)"
    "sv_to_string demo_semver (major, 0, 0) = version_text major 0 0"
    by (simp_all add: demo_semver_def demo_parse_text)
  note n = demo_normalize [of major 0 0]
    normalize_version_text [OF demo_laws p(1), of "version_text major 0 0", unfolded p(2)]
  show ?thesis
    using assms n p
    by (simp add: register_policy_class_def demo_registration_def demo_policy_def validate_protocol_implementation_def
        validate_policy_id_param_def validate_sync_enforcement_def normalize_policy_type_def
        normalize_version_or_raise_def parse_semver_def mk_policy_key_def after_register_def registered_key_def
        Let_def)
qed

lemma demo_reach:
  assumes "strip_whitespace i = i" "py_strip i \<noteq> []" "reach first_policies (policy_step demo_semver) s"
  shows "reach first_policies (policy_step demo_semver) (after_register demo_semver (demo_registration i name major) s)"
  using assms(3)
  by (rule reach_step) (rule policy_step.intros(1) [OF _ demo_registers [OF assms(2)]], simp add: demo_registration_def assms(1))

definition two_policies :: policy_registry where
  "two_policies = after_register demo_semver (demo_registration ''p'' ''new'' 10)
     (after_register demo_semver (demo_registration ''p'' ''old'' 9) empty_policy_registry)"

lemma plain_identifier: "strip_whitespace ''p'' = ''p''" "py_strip ''p'' \<noteq> []"
  by (simp_all add: strip_whitespace_def is_white_space_def py_strip_def is_py_space_def)

lemma reach_two_policies: "reach first_policies (policy_step demo_semver) two_policies"
  unfolding two_policies_def
  by (rule demo_reach [OF plain_identifier], rule demo_reach [OF plain_identifier], rule reach_init)
    (simp add: first_policies_def)

section \<open>Properties\<close>







end
