(* ===== verification/MessageTypes.thy ===== *)
theory MessageTypes
  imports MessageDispatch "HOL-Library.List_Lexorder" "HOL-Library.Char_ord"
begin

text \<open>
  The registry of message types: \<^verbatim>\<open>runtime/registry/registry_message_type.py\<close> with its mixins for
  registration and queries, and the models of \<^verbatim>\<open>models/registry\<close>. It says which handlers a message type
  has, in which categories it may appear, and from which domains it may be consumed.

  The category of a topic belongs to the core library and is an argument. Patterns are modelled on ASCII
  texts. The lock makes a registration atomic; after \<open>freeze\<close> the registry is read without it. An error
  message is represented by the check that failed.
\<close>

section \<open>Entries\<close>

datatype refusal =
    NoCategory | NoDomain | UnknownType | TypeDisabled | WrongCategory | WrongDomain
  | CategoryMismatch | ConstraintMismatch

text \<open>\<^verbatim>\<open>ModelValidationOutcome\<close>: \<open>None\<close> is the success.\<close>

type_synonym outcome = "refusal option"

datatype mt_error = MtCore core_code | MessageTypeRegistryError refusal | MtValidationError | MtKeyError

record domain_constraint =
  dc_owning_domain :: string
  dc_allowed_cross_domains :: "string set"
  dc_allow_all_domains :: bool
  dc_require_explicit_opt_in :: bool

definition mk_domain_constraint :: "domain_constraint \<Rightarrow> mt_error + domain_constraint" where
  "mk_domain_constraint d =
     (if 1 \<le> length (dc_owning_domain d) \<and> length (dc_owning_domain d) \<le> 100 then Ok d else Err MtValidationError)"

definition can_consume_from :: "domain_constraint \<Rightarrow> string \<Rightarrow> bool" where
  "can_consume_from d topic_domain \<longleftrightarrow>
     (if dc_allow_all_domains d then True
      else if topic_domain = dc_owning_domain d then True
      else topic_domain \<in> dc_allowed_cross_domains d)"

definition validate_consumption :: "domain_constraint \<Rightarrow> string \<Rightarrow> outcome" where
  "validate_consumption d topic_domain = (if can_consume_from d topic_domain then None else Some WrongDomain)"

record message_type_entry =
  me_message_type :: string
  me_handler_ids :: "string list"
  me_allowed_categories :: "message_category set"
  me_domain_constraint :: domain_constraint
  me_description :: "string option"
  me_enabled :: bool
  me_registered_at :: timestamp

definition mk_message_type_entry :: "message_type_entry \<Rightarrow> mt_error + message_type_entry" where
  "mk_message_type_entry e =
     (if 1 \<le> length (me_message_type e) \<and> length (me_message_type e) \<le> 200 \<and> 1 \<le> length (me_handler_ids e) \<and>
         me_allowed_categories e \<noteq> {} \<and> (case me_description e of None \<Rightarrow> True | Some t \<Rightarrow> length t \<le> 500)
      then Ok e else Err MtValidationError)"

definition validate_category :: "message_type_entry \<Rightarrow> message_category \<Rightarrow> outcome" where
  "validate_category e c = (if c \<in> me_allowed_categories e then None else Some WrongCategory)"

definition with_additional_handler :: "string \<Rightarrow> message_type_entry \<Rightarrow> message_type_entry" where
  "with_additional_handler h e =
     (if h \<in> set (me_handler_ids e) then e else e\<lparr>me_handler_ids := me_handler_ids e @ [h]\<rparr>)"

definition with_enabled :: "bool \<Rightarrow> message_type_entry \<Rightarrow> message_type_entry" where
  "with_enabled b e = e\<lparr>me_enabled := b\<rparr>"

section \<open>Registration\<close>

text \<open>The indexes are dictionaries with the empty list as their default.\<close>

record mt_registry =
  mr_entries :: "(string, message_type_entry) py_dict"
  mr_domains :: "string set"
  mr_handler_references :: "string set"
  mr_category_index :: "message_category \<Rightarrow> string list"
  mr_domain_index :: "string \<Rightarrow> string list"
  mr_frozen :: bool

definition init_registration_state :: mt_registry where
  "init_registration_state = \<lparr>mr_entries = [], mr_domains = {}, mr_handler_references = {},
     mr_category_index = (\<lambda>c. []), mr_domain_index = (\<lambda>d. []), mr_frozen = False\<rparr>"

text \<open>One iteration of the merge: the existing entry and the registry.\<close>

definition merge_handler :: "string \<Rightarrow> string \<Rightarrow> message_type_entry \<times> mt_registry \<Rightarrow> message_type_entry \<times> mt_registry" where
  "merge_handler mt h = (\<lambda>(existing, s).
     if h \<in> set (me_handler_ids existing) then (existing, s)
     else let e = with_additional_handler h existing in
       (e, s\<lparr>mr_entries := dict_put mt e (mr_entries s),
             mr_handler_references := insert h (mr_handler_references s)\<rparr>))"

definition first_registration :: "message_type_entry \<Rightarrow> mt_registry \<Rightarrow> mt_registry" where
  "first_registration e s =
     (let mt = me_message_type e; d = me_domain_constraint e in
      s\<lparr>mr_entries := dict_put mt e (mr_entries s),
        mr_domains := insert (dc_owning_domain d) (mr_domains s) \<union> {x \<in> dc_allowed_cross_domains d. x \<noteq> []},
        mr_handler_references := mr_handler_references s \<union> set (me_handler_ids e),
        mr_category_index := (\<lambda>c. if c \<in> me_allowed_categories e then mr_category_index s c @ [mt]
                                  else mr_category_index s c),
        mr_domain_index := (mr_domain_index s)(dc_owning_domain d := mr_domain_index s (dc_owning_domain d) @ [mt])\<rparr>)"

definition register_message_type ::
  "message_type_entry option \<Rightarrow> mt_registry \<Rightarrow> (mt_error + unit) \<times> mt_registry" where
  "register_message_type entry s =
     (case entry of
        None \<Rightarrow> (Err (MtCore INVALID_PARAMETER), s)
      | Some e \<Rightarrow>
          if mr_frozen s then (Err (MtCore INVALID_STATE), s)
          else case dict_get (mr_entries s) (me_message_type e) of
            Some existing \<Rightarrow>
              if me_allowed_categories existing \<noteq> me_allowed_categories e
              then (Err (MessageTypeRegistryError CategoryMismatch), s)
              else if me_domain_constraint existing \<noteq> me_domain_constraint e
              then (Err (MessageTypeRegistryError ConstraintMismatch), s)
              else (Ok (), snd (fold (merge_handler (me_message_type e)) (me_handler_ids e) (existing, s)))
          | None \<Rightarrow> (Ok (), first_registration e s))"

definition register_simple ::
  "string \<Rightarrow> string \<Rightarrow> message_category \<Rightarrow> string \<Rightarrow> string option \<Rightarrow> string set option \<Rightarrow> timestamp \<Rightarrow> mt_registry \<Rightarrow>
   (mt_error + unit) \<times> mt_registry" where
  "register_simple mt h c domain description allow_cross_domains now s =
     (case mk_domain_constraint \<lparr>dc_owning_domain = domain,
             dc_allowed_cross_domains = or_else allow_cross_domains {}, dc_allow_all_domains = False,
             dc_require_explicit_opt_in = True\<rparr> of
        Err e \<Rightarrow> (Err e, s)
      | Ok d \<Rightarrow>
     (case mk_message_type_entry \<lparr>me_message_type = mt, me_handler_ids = [h], me_allowed_categories = {c},
             me_domain_constraint = d, me_description = description, me_enabled = True, me_registered_at = now\<rparr> of
        Err e \<Rightarrow> (Err e, s)
      | Ok e \<Rightarrow> register_message_type (Some e) s))"

definition freeze_types :: "mt_registry \<Rightarrow> mt_registry" where
  "freeze_types s = s\<lparr>mr_frozen := True\<rparr>"

section \<open>Queries\<close>

definition require_frozen :: "mt_registry \<Rightarrow> (mt_error + 'a) \<Rightarrow> mt_error + 'a" where
  "require_frozen s x = (if mr_frozen s then x else Err (MtCore INVALID_STATE))"

definition get_type_handlers ::
  "mt_registry \<Rightarrow> string \<Rightarrow> message_category \<Rightarrow> string \<Rightarrow> mt_error + string list" where
  "get_type_handlers s mt c domain = require_frozen s
     (case dict_get (mr_entries s) mt of
        None \<Rightarrow> Err (MessageTypeRegistryError UnknownType)
      | Some e \<Rightarrow>
          if \<not> me_enabled e then Err (MessageTypeRegistryError TypeDisabled)
          else case validate_category e c of
            Some r \<Rightarrow> Err (MessageTypeRegistryError r)
          | None \<Rightarrow>
              (case validate_consumption (me_domain_constraint e) domain of
                 Some r \<Rightarrow> Err (MessageTypeRegistryError r)
               | None \<Rightarrow> Ok (me_handler_ids e)))"

definition get_handlers_unchecked :: "mt_registry \<Rightarrow> string \<Rightarrow> mt_error + string list option" where
  "get_handlers_unchecked s mt = require_frozen s
     (case dict_get (mr_entries s) mt of
        None \<Rightarrow> Ok None
      | Some e \<Rightarrow> if \<not> me_enabled e then Ok None else Ok (Some (me_handler_ids e)))"

definition get_type_entry :: "mt_registry \<Rightarrow> string \<Rightarrow> mt_error + message_type_entry option" where
  "get_type_entry s mt = require_frozen s (Ok (dict_get (mr_entries s) mt))"

definition has_message_type :: "mt_registry \<Rightarrow> string \<Rightarrow> mt_error + bool" where
  "has_message_type s mt = require_frozen s
     (Ok (case dict_get (mr_entries s) mt of None \<Rightarrow> False | Some e \<Rightarrow> me_enabled e))"

definition list_message_types ::
  "mt_registry \<Rightarrow> message_category option \<Rightarrow> string option \<Rightarrow> mt_error + string list" where
  "list_message_types s category domain = require_frozen s
     (let result =
        (case (category, domain) of
           (Some c, Some d) \<Rightarrow> set (mr_category_index s c) \<inter> set (mr_domain_index s d)
         | (Some c, None) \<Rightarrow> set (mr_category_index s c)
         | (None, Some d) \<Rightarrow> set (mr_domain_index s d)
         | (None, None) \<Rightarrow> set (map fst (mr_entries s)))
      in if \<exists>mt \<in> result. dict_get (mr_entries s) mt = None then Err MtKeyError
         else Ok (sorted_list_of_set {mt \<in> result. me_enabled (the (dict_get (mr_entries s) mt))}))"

definition list_type_domains :: "mt_registry \<Rightarrow> mt_error + string list" where
  "list_type_domains s = require_frozen s (Ok (sorted_list_of_set (mr_domains s)))"

definition list_type_handlers :: "mt_registry \<Rightarrow> mt_error + string list" where
  "list_type_handlers s = require_frozen s (Ok (sorted_list_of_set (mr_handler_references s)))"

definition type_count :: "mt_registry \<Rightarrow> nat" where
  "type_count s = length (mr_entries s)"

definition contains_type :: "mt_registry \<Rightarrow> string \<Rightarrow> mt_error + bool" where
  "contains_type s mt = (if \<not> mr_frozen s then Ok (dict_get (mr_entries s) mt \<noteq> None) else has_message_type s mt)"

section \<open>Validation\<close>

datatype startup_problem =
    MissingHandler string "string list" | NoHandlers string | EmptyDomain string

definition validate_startup :: "mt_registry \<Rightarrow> string set option \<Rightarrow> mt_error + startup_problem list" where
  "validate_startup s available = require_frozen s
     (Ok ((case available of
             None \<Rightarrow> []
           | Some known \<Rightarrow>
               map (\<lambda>h. MissingHandler h
                      (map fst (filter (\<lambda>(mt, e). h \<in> set (me_handler_ids e)) (mr_entries s))))
                 (sorted_list_of_set (mr_handler_references s - known))) @
          map (\<lambda>(mt, e). NoHandlers mt) (filter (\<lambda>(mt, e). me_enabled e \<and> me_handler_ids e = []) (mr_entries s)) @
          map (\<lambda>(mt, e). EmptyDomain mt)
            (filter (\<lambda>(mt, e). dc_owning_domain (me_domain_constraint e) = []) (mr_entries s))))"

text \<open>The character class \<^verbatim>\<open>[a-zA-Z0-9_-]\<close> and a match of \<^verbatim>\<open>(class)+\.\<close> at the start of a text.\<close>

definition domain_char :: "char \<Rightarrow> bool" where
  "domain_char c \<longleftrightarrow> 97 \<le> (of_char (ascii_lower c) :: nat) \<and> (of_char (ascii_lower c) :: nat) \<le> 122 \<or>
     is_dec_digit c \<or> c = CHR ''_'' \<or> c = CHR ''-''"

definition match_segment :: "string \<Rightarrow> (string \<times> string) option" where
  "match_segment s =
     (case dropWhile domain_char s of
        [] \<Rightarrow> None
      | c # rest \<Rightarrow> if c = CHR ''.'' \<and> takeWhile domain_char s \<noteq> [] then Some (takeWhile domain_char s, rest) else None)"

definition match_onex_topic :: "string \<Rightarrow> string option" where
  "match_onex_topic s =
     (if map ascii_lower (take 5 s) = ''onex.'' then map_option fst (match_segment (drop 5 s)) else None)"

definition match_env_topic :: "string \<Rightarrow> string option" where
  "match_env_topic s =
     (case match_segment s of None \<Rightarrow> None | Some (env, rest) \<Rightarrow> map_option fst (match_segment rest))"

definition extract_domain_from_topic :: "string option \<Rightarrow> string option" where
  "extract_domain_from_topic topic =
     (case topic of
        None \<Rightarrow> None
      | Some t \<Rightarrow>
          let s = py_strip t in
          if s = [] then None
          else case match_onex_topic s of
            Some d \<Rightarrow> Some d
          | None \<Rightarrow>
              (case match_env_topic s of
                 Some d \<Rightarrow> Some d
               | None \<Rightarrow>
                   let parts = py_split CHR ''.'' s in if 2 \<le> length parts then Some (parts ! 1) else None))"

definition validate_topic_message_type ::
  "(string \<Rightarrow> message_category option) \<Rightarrow> mt_registry \<Rightarrow> string \<Rightarrow> string \<Rightarrow> mt_error + outcome" where
  "validate_topic_message_type category_of s topic mt = require_frozen s
     (case category_of topic of
        None \<Rightarrow> Ok (Some NoCategory)
      | Some c \<Rightarrow>
     (case extract_domain_from_topic (Some topic) of
        None \<Rightarrow> Ok (Some NoDomain)
      | Some domain \<Rightarrow>
     (case dict_get (mr_entries s) mt of
        None \<Rightarrow> Ok (Some UnknownType)
      | Some e \<Rightarrow>
          if \<not> me_enabled e then Ok (Some TypeDisabled)
          else case validate_category e c of
            Some r \<Rightarrow> Ok (Some r)
          | None \<Rightarrow> Ok (validate_consumption (me_domain_constraint e) domain))))"

end
