(* ===== verification/MessageTypesProps.thy ===== *)
theory MessageTypesProps imports MessageTypes begin

text \<open>
  What the registry of message types guarantees: its indexes agree with its entries, repeated registrations
  merge their handlers and nothing else, and the check of a topic is the check of the handlers.
\<close>

section \<open>Merging\<close>

definition add_handler :: "string \<Rightarrow> string list \<Rightarrow> string list" where
  "add_handler h hs = (if h \<in> set hs then hs else hs @ [h])"

lemma add_handlers_set [simp]: "set (fold add_handler hs xs) = set xs \<union> set hs"
  by (induction hs arbitrary: xs) (auto simp: add_handler_def)

lemma dict_put_same: "dict_get d k = Some v \<Longrightarrow> dict_put k v d = d"
  by (induction d) (auto split: if_splits)

lemma dict_put_twice: "dict_put k v (dict_put k w d) = dict_put k v d"
  by (induction d) auto

lemma merge_handlers:
  assumes "dict_get (mr_entries s) mt = Some e" "set (me_handler_ids e) \<subseteq> mr_handler_references s"
  shows "fold (merge_handler mt) hs (e, s) =
    (e\<lparr>me_handler_ids := fold add_handler hs (me_handler_ids e)\<rparr>,
     s\<lparr>mr_entries := dict_put mt (e\<lparr>me_handler_ids := fold add_handler hs (me_handler_ids e)\<rparr>) (mr_entries s),
       mr_handler_references := mr_handler_references s \<union> set hs\<rparr>)"
  using assms
proof (induction hs arbitrary: e s)
  case Nil
  then show ?case by (simp add: dict_put_same)
next
  case (Cons h hs)
  show ?case
  proof (cases "h \<in> set (me_handler_ids e)")
    case True
    then have "mr_handler_references s \<union> insert h (set hs) = mr_handler_references s \<union> set hs"
      using Cons.prems(2) by blast
    with True Cons.IH [OF Cons.prems] show ?thesis by (simp add: merge_handler_def add_handler_def)
  next
    case False
    define e1 where "e1 = e\<lparr>me_handler_ids := me_handler_ids e @ [h]\<rparr>"
    define s1 where "s1 = s\<lparr>mr_entries := dict_put mt e1 (mr_entries s),
      mr_handler_references := insert h (mr_handler_references s)\<rparr>"
    have step: "merge_handler mt h (e, s) = (e1, s1)"
      using False by (simp add: merge_handler_def with_additional_handler_def Let_def e1_def s1_def)
    have "fold (merge_handler mt) hs (e1, s1) =
      (e1\<lparr>me_handler_ids := fold add_handler hs (me_handler_ids e1)\<rparr>,
       s1\<lparr>mr_entries := dict_put mt (e1\<lparr>me_handler_ids := fold add_handler hs (me_handler_ids e1)\<rparr>) (mr_entries s1),
          mr_handler_references := mr_handler_references s1 \<union> set hs\<rparr>)"
      by (rule Cons.IH) (use Cons.prems(2) in \<open>auto simp: s1_def e1_def dict_get_put\<close>)
    with step False show ?thesis
      by (simp add: e1_def s1_def add_handler_def [of h] dict_put_twice)
  qed
qed

section \<open>The invariant\<close>

text \<open>An entry as its model builds it; a frozenset is finite.\<close>

definition valid_entry :: "message_type_entry \<Rightarrow> bool" where
  "valid_entry e \<longleftrightarrow> mk_message_type_entry e = Ok e \<and> mk_domain_constraint (me_domain_constraint e) = Ok (me_domain_constraint e) \<and>
     finite (dc_allowed_cross_domains (me_domain_constraint e))"

definition domains_of :: "message_type_entry \<Rightarrow> string set" where
  "domains_of e = insert (dc_owning_domain (me_domain_constraint e))
     {x \<in> dc_allowed_cross_domains (me_domain_constraint e). x \<noteq> []}"

definition types_ok :: "mt_registry \<Rightarrow> bool" where
  "types_ok s \<longleftrightarrow> wf_dict (mr_entries s) \<and>
     (\<forall>mt e. dict_get (mr_entries s) mt = Some e \<longrightarrow> me_message_type e = mt \<and> valid_entry e) \<and>
     (\<forall>c mt. mt \<in> set (mr_category_index s c) \<longleftrightarrow>
        (\<exists>e. dict_get (mr_entries s) mt = Some e \<and> c \<in> me_allowed_categories e)) \<and>
     (\<forall>d mt. mt \<in> set (mr_domain_index s d) \<longleftrightarrow>
        (\<exists>e. dict_get (mr_entries s) mt = Some e \<and> dc_owning_domain (me_domain_constraint e) = d)) \<and>
     (\<forall>h. h \<in> mr_handler_references s \<longleftrightarrow>
        (\<exists>mt e. dict_get (mr_entries s) mt = Some e \<and> h \<in> set (me_handler_ids e))) \<and>
     (\<forall>d. d \<in> mr_domains s \<longleftrightarrow> (\<exists>mt e. dict_get (mr_entries s) mt = Some e \<and> d \<in> domains_of e))"

definition same_rules :: "message_type_entry \<Rightarrow> message_type_entry \<Rightarrow> bool" where
  "same_rules a b \<longleftrightarrow> me_allowed_categories a = me_allowed_categories b \<and>
     me_domain_constraint a = me_domain_constraint b"

definition after_merge :: "message_type_entry \<Rightarrow> message_type_entry \<Rightarrow> message_type_entry" where
  "after_merge old e = old\<lparr>me_handler_ids := fold add_handler (me_handler_ids e) (me_handler_ids old)\<rparr>"

lemma registered_handlers:
  "types_ok s \<Longrightarrow> dict_get (mr_entries s) mt = Some e \<Longrightarrow> set (me_handler_ids e) \<subseteq> mr_handler_references s"
  by (auto simp: types_ok_def)

lemma register_effect:
  assumes "types_ok s" "\<not> mr_frozen s"
  shows "register_message_type (Some e) s =
    (case dict_get (mr_entries s) (me_message_type e) of
       None \<Rightarrow> (Ok (), first_registration e s)
     | Some old \<Rightarrow>
         if same_rules old e
         then (Ok (), s\<lparr>mr_entries := dict_put (me_message_type e) (after_merge old e) (mr_entries s),
                        mr_handler_references := mr_handler_references s \<union> set (me_handler_ids e)\<rparr>)
         else (Err (MessageTypeRegistryError (if me_allowed_categories old \<noteq> me_allowed_categories e
                 then CategoryMismatch else ConstraintMismatch)), s))"
  using assms(2) merge_handlers [OF _ registered_handlers [OF assms(1)]]
  by (auto simp: register_message_type_def same_rules_def after_merge_def split: option.split)

lemma types_ok_init: "types_ok init_registration_state"
  by (simp add: types_ok_def init_registration_state_def)

lemma types_ok_first:
  assumes "types_ok s" "valid_entry e" "dict_get (mr_entries s) (me_message_type e) = None"
  shows "types_ok (first_registration e s)"
proof -
  have "mt \<noteq> me_message_type e" if "dict_get (mr_entries s) mt = Some x" for mt x
    using that assms(3) by auto
  then show ?thesis
    using assms unfolding types_ok_def first_registration_def Let_def
    by (auto simp: dict_get_put domains_of_def)
qed

lemma types_ok_merge:
  assumes "types_ok s" "valid_entry e" "dict_get (mr_entries s) (me_message_type e) = Some old" "same_rules old e"
  shows "types_ok (s\<lparr>mr_entries := dict_put (me_message_type e) (after_merge old e) (mr_entries s),
    mr_handler_references := mr_handler_references s \<union> set (me_handler_ids e)\<rparr>)"
proof -
  have old: "me_message_type old = me_message_type e" "valid_entry old"
    using assms(1,3) by (auto simp: types_ok_def)
  have "set (me_handler_ids (after_merge old e)) \<noteq> {}"
    using old(2) by (auto simp: valid_entry_def mk_message_type_entry_def after_merge_def split: if_splits)
  then have "me_handler_ids (after_merge old e) \<noteq> []" by auto
  then have "valid_entry (after_merge old e)"
    using old(2) by (auto simp: valid_entry_def mk_message_type_entry_def after_merge_def Suc_le_eq split: if_splits)
  moreover have "me_message_type (after_merge old e) = me_message_type e"
    "me_allowed_categories (after_merge old e) = me_allowed_categories old"
    "me_domain_constraint (after_merge old e) = me_domain_constraint old"
    "domains_of (after_merge old e) = domains_of old"
    "set (me_handler_ids (after_merge old e)) = set (me_handler_ids old) \<union> set (me_handler_ids e)"
    using old(1) by (simp_all add: after_merge_def domains_of_def)
  ultimately show ?thesis
    using assms(1,3) unfolding types_ok_def by (auto simp: dict_get_put; metis option.inject)
qed

section \<open>Reachable registries\<close>

datatype types_op = TRegister message_type_entry | TSimple string | TFreeze

inductive types_step :: "types_op \<Rightarrow> mt_registry \<Rightarrow> mt_registry \<Rightarrow> bool" where
  "valid_entry e \<Longrightarrow> register_message_type (Some e) s = (res, s') \<Longrightarrow> types_step (TRegister e) s s'"
| "(\<forall>x. xs = Some x \<longrightarrow> finite x) \<Longrightarrow> register_simple mt h c d descr xs now s = (res, s') \<Longrightarrow> types_step (TSimple mt) s s'"
| "types_step TFreeze s (freeze_types s)"

definition first_types :: "mt_registry \<Rightarrow> bool" where
  "first_types s \<longleftrightarrow> s = init_registration_state"

lemma types_ok_register:
  assumes "types_ok s" "valid_entry e" "register_message_type (Some e) s = (res, s')"
  shows "types_ok s'"
proof (cases "mr_frozen s")
  case True
  with assms(1,3) show ?thesis by (simp add: register_message_type_def)
next
  case False
  show ?thesis
  proof (cases "dict_get (mr_entries s) (me_message_type e)")
    case None
    with assms(3) register_effect [OF assms(1) False, of e] types_ok_first [OF assms(1,2) None] show ?thesis by simp
  next
    case (Some old)
    with assms(3) register_effect [OF assms(1) False, of e] types_ok_merge [OF assms(1,2) Some] assms(1)
    show ?thesis by (auto split: if_splits)
  qed
qed

lemma valid_built:
  assumes "mk_domain_constraint d = Ok d'" "mk_message_type_entry e = Ok e'" "me_domain_constraint e = d'"
    "finite (dc_allowed_cross_domains d)"
  shows "valid_entry e'"
proof -
  have "d' = d" "e' = e"
    using assms(1,2) by (simp_all add: mk_domain_constraint_def mk_message_type_entry_def split: if_splits)
  with assms show ?thesis by (simp add: valid_entry_def)
qed

lemma types_ok_simple:
  assumes "types_ok s" "register_simple mt h c d descr xs now s = (res, s')" "\<forall>x. xs = Some x \<longrightarrow> finite x"
  shows "types_ok s'"
proof -
  let ?d = "\<lparr>dc_owning_domain = d, dc_allowed_cross_domains = or_else xs {}, dc_allow_all_domains = False,
    dc_require_explicit_opt_in = True\<rparr>"
  have fin: "finite (dc_allowed_cross_domains ?d)" using assms(3) by (cases xs) auto
  show ?thesis
  proof (cases "mk_domain_constraint ?d")
    case (Inl e)
    with assms(1,2) show ?thesis by (simp add: register_simple_def)
  next
    case d': (Inr d')
    let ?e = "\<lparr>me_message_type = mt, me_handler_ids = [h], me_allowed_categories = {c},
      me_domain_constraint = d', me_description = descr, me_enabled = True, me_registered_at = now\<rparr>"
    show ?thesis
    proof (cases "mk_message_type_entry ?e")
      case (Inl e)
      with assms(1,2) d' show ?thesis by (simp add: register_simple_def)
    next
      case (Inr e')
      have "valid_entry e'" by (rule valid_built [OF d' Inr _ fin]) simp
      moreover have "register_message_type (Some e') s = (res, s')"
        using assms(2) d' Inr by (simp add: register_simple_def)
      ultimately show ?thesis by (rule types_ok_register [OF assms(1)])
    qed
  qed
qed

lemma types_ok_step:
  assumes "types_step a s s'" "types_ok s"
  shows "types_ok s'"
  using assms(1)
proof cases
  case (1 e res)
  with types_ok_register [OF assms(2)] show ?thesis by blast
next
  case (2 xs mt h c d descr now res)
  with types_ok_simple [OF assms(2)] show ?thesis by blast
next
  case 3
  with assms(2) show ?thesis by (simp add: freeze_types_def types_ok_def)
qed

interpretation types_machine: invariant_machine first_types types_step types_ok
  by unfold_locales (auto simp: first_types_def types_ok_init intro: types_ok_step)

section \<open>The merged entries\<close>

definition entries_for :: "string \<Rightarrow> message_type_entry list \<Rightarrow> message_type_entry list" where
  "entries_for mt es = filter (\<lambda>e. me_message_type e = mt) es"

text \<open>
  The reference: the first registration of a type fixes everything but the handlers; the later ones with the
  same rules add theirs, each once.
\<close>

definition merged :: "string \<Rightarrow> message_type_entry list \<Rightarrow> message_type_entry option" where
  "merged mt es =
     (case entries_for mt es of
        [] \<Rightarrow> None
      | e # later \<Rightarrow>
          Some (e\<lparr>me_handler_ids :=
            fold add_handler (concat (map me_handler_ids (filter (same_rules e) later))) (me_handler_ids e)\<rparr>))"

definition register_all :: "message_type_entry list \<Rightarrow> mt_registry" where
  "register_all es = fold (\<lambda>e s. snd (register_message_type (Some e) s)) es init_registration_state"

lemma merged_rules:
  assumes "merged mt es = Some e"
  shows "\<exists>x later. entries_for mt es = x # later \<and> (\<forall>y. same_rules e y = same_rules x y)"
proof (cases "entries_for mt es")
  case Nil
  with assms show ?thesis by (simp add: merged_def)
next
  case (Cons x later)
  then have "me_allowed_categories e = me_allowed_categories x" "me_domain_constraint e = me_domain_constraint x"
    using assms by (auto simp: merged_def)
  then show ?thesis using Cons by (simp add: same_rules_def)
qed

lemma merged_snoc:
  "merged mt (es @ [x]) =
     (if me_message_type x \<noteq> mt then merged mt es
      else case merged mt es of
        None \<Rightarrow> Some x
      | Some e \<Rightarrow> if same_rules e x then Some (after_merge e x) else Some e)"
proof (cases "entries_for mt es")
  case Nil
  then show ?thesis by (auto simp: merged_def entries_for_def)
next
  case (Cons e later)
  then show ?thesis
    by (auto simp: merged_def entries_for_def after_merge_def same_rules_def split: list.splits)
qed

lemma register_all_snoc:
  "register_all (es @ [x]) = snd (register_message_type (Some x) (register_all es))"
  by (simp add: register_all_def)

lemma register_all_entries:
  assumes "\<forall>e \<in> set es. valid_entry e"
  shows "types_ok (register_all es) \<and> \<not> mr_frozen (register_all es) \<and>
    (\<forall>mt. dict_get (mr_entries (register_all es)) mt = merged mt es)"
  using assms
proof (induction es rule: rev_induct)
  case Nil
  then show ?case
    using types_ok_init by (simp add: register_all_def init_registration_state_def merged_def entries_for_def)
next
  case (snoc x es)
  then have ok: "types_ok (register_all es)" "\<not> mr_frozen (register_all es)"
    and entries: "\<And>mt. dict_get (mr_entries (register_all es)) mt = merged mt es" by auto
  note eff = register_effect [OF ok, of x, unfolded entries]
  have "types_ok (register_all (es @ [x]))"
    unfolding register_all_snoc using types_ok_register [OF ok(1)] snoc.prems by (metis in_set_conv_decomp prod.collapse)
  moreover have "\<not> mr_frozen (register_all (es @ [x]))"
    unfolding register_all_snoc eff using ok(2)
    by (auto simp: first_registration_def Let_def split: option.split)
  moreover have "dict_get (mr_entries (register_all (es @ [x]))) mt = merged mt (es @ [x])" for mt
    unfolding register_all_snoc eff merged_snoc
    by (auto simp: first_registration_def Let_def dict_get_put entries split: option.split)
  ultimately show ?case by blast
qed

section \<open>Domains of topics\<close>

lemma ascii_lower_dot: "ascii_lower c = CHR ''.'' \<longleftrightarrow> c = CHR ''.''"
proof -
  have "ascii_lower c \<noteq> CHR ''.''" if "65 \<le> (of_char c :: nat)" "(of_char c :: nat) \<le> 90"
  proof
    assume "ascii_lower c = CHR ''.''"
    then have "(of_char (ascii_lower c) :: nat) = 46" by simp
    with that show False by (simp add: ascii_lower_def Let_def)
  qed
  then show ?thesis by (auto simp: ascii_lower_def Let_def)
qed

lemma domain_char_dot: "\<not> domain_char CHR ''.''"
  by (simp add: domain_char_def ascii_lower_def is_dec_digit_def)

lemma match_segment_split:
  assumes "match_segment s = Some (d, rest)"
  shows "py_split CHR ''.'' s = d # py_split CHR ''.'' rest"
proof -
  have d: "d = takeWhile domain_char s" "dropWhile domain_char s = CHR ''.'' # rest"
    using assms by (auto simp: match_segment_def split: list.splits if_splits)
  then have "s = d @ CHR ''.'' # rest" by (metis takeWhile_dropWhile_id)
  moreover have "CHR ''.'' \<notin> set d" unfolding d(1) using domain_char_dot by (metis set_takeWhileD)
  ultimately show ?thesis by (simp add: py_split_append)
qed

lemma match_onex_split:
  assumes "match_onex_topic s = Some d"
  shows "\<exists>p rest. py_split CHR ''.'' s = p # d # rest"
proof -
  obtain rest where lower: "map ascii_lower (take 5 s) = ''onex.''" and seg: "match_segment (drop 5 s) = Some (d, rest)"
    using assms by (auto simp: match_onex_topic_def split: if_splits)
  then obtain a b c e f where s: "take 5 s = [a, b, c, e, f]"
    by (auto simp: map_eq_Cons_conv)
  with lower have "ascii_lower f = CHR ''.''" and
    low: "ascii_lower a = CHR ''o''" "ascii_lower b = CHR ''n''" "ascii_lower c = CHR ''e''" "ascii_lower e = CHR ''x''" by auto
  then have f: "f = CHR ''.''" by (simp add: ascii_lower_dot)
  have "CHR ''.'' \<notin> set [a, b, c, e]"
    using low ascii_lower_dot [of "CHR ''.''"] by auto
  moreover have "s = [a, b, c, e] @ CHR ''.'' # drop 5 s"
    using append_take_drop_id [of 5 s] s f by simp
  ultimately have "py_split CHR ''.'' s = [a, b, c, e] # py_split CHR ''.'' (drop 5 s)"
    by (metis py_split_append)
  with match_segment_split [OF seg] show ?thesis by simp
qed

lemma match_env_split:
  assumes "match_env_topic s = Some d"
  shows "\<exists>p rest. py_split CHR ''.'' s = p # d # rest"
  using assms match_segment_split by (fastforce simp: match_env_topic_def split: option.splits)

text \<open>The patterns make no difference: the domain is the second segment of the topic.\<close>

definition second_segment :: "string \<Rightarrow> string option" where
  "second_segment t = (case py_split CHR ''.'' (py_strip t) of p # d # rest \<Rightarrow> Some d | _ \<Rightarrow> None)"

lemma extract_domain: "extract_domain_from_topic (Some t) = second_segment t"
proof (cases "py_strip t = []")
  case True
  then show ?thesis by (simp add: extract_domain_from_topic_def second_segment_def)
next
  case False
  show ?thesis
  proof (cases "\<exists>d. match_onex_topic (py_strip t) = Some d \<or> match_onex_topic (py_strip t) = None \<and> match_env_topic (py_strip t) = Some d")
    case True
    then obtain d where d: "match_onex_topic (py_strip t) = Some d \<or>
      match_onex_topic (py_strip t) = None \<and> match_env_topic (py_strip t) = Some d" by blast
    then obtain p rest where "py_split CHR ''.'' (py_strip t) = p # d # rest"
      using match_onex_split match_env_split by blast
    with d False show ?thesis by (auto simp: extract_domain_from_topic_def second_segment_def)
  next
    case none: False
    have onex: "match_onex_topic (py_strip t) = None" using none by (cases "match_onex_topic (py_strip t)") auto
    moreover have "match_env_topic (py_strip t) = None"
      using none onex by (cases "match_env_topic (py_strip t)") auto
    ultimately show ?thesis using False
      by (simp add: extract_domain_from_topic_def second_segment_def Let_def split: list.split)
  qed
qed

section \<open>Facts about a registry in order\<close>

lemma types_ok_finite: "types_ok s \<Longrightarrow> finite (mr_handler_references s)"
proof -
  assume ok: "types_ok s"
  have "mr_handler_references s \<subseteq> (\<Union>(mt, e) \<in> set (mr_entries s). set (me_handler_ids e))"
    using ok by (fastforce simp: types_ok_def dest: map_of_SomeD)
  then show ?thesis by (rule finite_subset) auto
qed

lemma types_ok_entry:
  assumes "types_ok s" "(mt, e) \<in> set (mr_entries s)"
  shows "me_handler_ids e \<noteq> []" "dc_owning_domain (me_domain_constraint e) \<noteq> []"
proof -
  have "valid_entry e" using assms dict_in [of "mr_entries s" mt e] by (auto simp: types_ok_def)
  then show "me_handler_ids e \<noteq> []" "dc_owning_domain (me_domain_constraint e) \<noteq> []"
    by (auto simp: valid_entry_def mk_message_type_entry_def mk_domain_constraint_def split: if_splits)
qed

lemma startup_problems:
  assumes "types_ok s" "mr_frozen s"
  shows "\<exists>problems. validate_startup s available = Ok problems \<and>
      (problems = [] \<longleftrightarrow> (\<forall>known mt e. available = Some known \<longrightarrow> dict_get (mr_entries s) mt = Some e \<longrightarrow>
         set (me_handler_ids e) \<subseteq> known))"
proof -
  have empty: "filter (\<lambda>(mt, e). me_enabled e \<and> me_handler_ids e = []) (mr_entries s) = []"
    "filter (\<lambda>(mt, e). dc_owning_domain (me_domain_constraint e) = []) (mr_entries s) = []"
    using types_ok_entry [OF assms(1)] by (auto simp: filter_empty_conv)
  have "mr_handler_references s - known = {} \<longleftrightarrow>
      (\<forall>mt e. dict_get (mr_entries s) mt = Some e \<longrightarrow> set (me_handler_ids e) \<subseteq> known)" for known
    using assms(1) unfolding types_ok_def by blast
  then show ?thesis
    using assms(2) types_ok_finite [OF assms(1)]
    by (cases available) (simp_all add: validate_startup_def require_frozen_def empty)
qed

lemma listed_types:
  assumes "types_ok s" "mr_frozen s"
  shows "list_message_types s category domain = Ok (sorted_list_of_set {mt. \<exists>e. dict_get (mr_entries s) mt = Some e \<and>
      me_enabled e \<and> (\<forall>c. category = Some c \<longrightarrow> c \<in> me_allowed_categories e) \<and>
      (\<forall>d. domain = Some d \<longrightarrow> dc_owning_domain (me_domain_constraint e) = d)})"
proof -
  define result where "result = (case (category, domain) of
           (Some c, Some d) \<Rightarrow> set (mr_category_index s c) \<inter> set (mr_domain_index s d)
         | (Some c, None) \<Rightarrow> set (mr_category_index s c)
         | (None, Some d) \<Rightarrow> set (mr_domain_index s d)
         | (None, None) \<Rightarrow> set (map fst (mr_entries s)))"
  have keys: "mt \<in> set (map fst (mr_entries s)) \<longleftrightarrow> (\<exists>e. dict_get (mr_entries s) mt = Some e)" for mt
    by (metis map_of_eq_None_iff not_None_eq list.set_map)
  have cats: "mt \<in> set (mr_category_index s c) \<longleftrightarrow> (\<exists>e. dict_get (mr_entries s) mt = Some e \<and> c \<in> me_allowed_categories e)"
    and doms: "mt \<in> set (mr_domain_index s d) \<longleftrightarrow>
      (\<exists>e. dict_get (mr_entries s) mt = Some e \<and> dc_owning_domain (me_domain_constraint e) = d)" for mt c d
    using assms(1) by (simp_all add: types_ok_def)
  have mem: "mt \<in> result \<longleftrightarrow> (\<exists>e. dict_get (mr_entries s) mt = Some e \<and>
      (\<forall>c. category = Some c \<longrightarrow> c \<in> me_allowed_categories e) \<and>
      (\<forall>d. domain = Some d \<longrightarrow> dc_owning_domain (me_domain_constraint e) = d))" for mt
    unfolding result_def by (cases category; cases domain) (auto simp: cats doms keys simp del: set_map)
  then have "\<not> (\<exists>mt \<in> result. dict_get (mr_entries s) mt = None)" by auto
  moreover have "{mt \<in> result. me_enabled (the (dict_get (mr_entries s) mt))} = {mt. \<exists>e. dict_get (mr_entries s) mt = Some e \<and>
      me_enabled e \<and> (\<forall>c. category = Some c \<longrightarrow> c \<in> me_allowed_categories e) \<and>
      (\<forall>d. domain = Some d \<longrightarrow> dc_owning_domain (me_domain_constraint e) = d)}"
    unfolding mem by auto
  ultimately show ?thesis
    using assms(2) unfolding list_message_types_def require_frozen_def result_def [symmetric] Let_def by simp
qed

definition demo_entry_of :: "string \<Rightarrow> string \<Rightarrow> bool \<Rightarrow> message_type_entry" where
  "demo_entry_of mt h enabled = \<lparr>me_message_type = mt, me_handler_ids = [h], me_allowed_categories = {EVENT},
     me_domain_constraint = \<lparr>dc_owning_domain = ''user'', dc_allowed_cross_domains = {}, dc_allow_all_domains = False,
       dc_require_explicit_opt_in = True\<rparr>,
     me_description = None, me_enabled = enabled, me_registered_at = 0\<rparr>"

definition demo_types :: mt_registry where
  "demo_types = freeze_types (first_registration (demo_entry_of ''Created'' ''h'' True) init_registration_state)"

lemma reach_demo_types: "reach first_types types_step demo_types"
proof -
  let ?e = "demo_entry_of ''Created'' ''h'' True"
  have "valid_entry ?e"
    by (simp add: valid_entry_def mk_message_type_entry_def mk_domain_constraint_def demo_entry_of_def)
  moreover have "register_message_type (Some ?e) init_registration_state = (Ok (), first_registration ?e init_registration_state)"
    by (simp add: register_message_type_def init_registration_state_def)
  ultimately have "types_step (TRegister ?e) init_registration_state (first_registration ?e init_registration_state)"
    by (rule types_step.intros(1))
  moreover have "reach first_types types_step init_registration_state"
    by (rule reach_init) (simp add: first_types_def)
  ultimately have "reach first_types types_step (first_registration ?e init_registration_state)" by (rule reach_step [rotated])
  then show ?thesis unfolding demo_types_def by (rule reach_step) (rule types_step.intros(3))
qed

section \<open>Properties\<close>



text \<open>
  C27: Registrations merge. After any registrations a frozen registry answers as the reference does: the
  first registration of a type fixes its rules, later ones with the same rules add their handlers, each once
  and in order, later ones with other rules are refused and leave no trace; handlers are given only for an
  enabled type in an allowed category and domain. The enabled flag of a later registration is ignored.
\<close>
theorem registrations_merge:
  assumes "\<forall>e \<in> set es. valid_entry e"
  shows "get_type_handlers (freeze_types (register_all es)) mt c domain =
      (case merged mt es of
         None \<Rightarrow> Err (MessageTypeRegistryError UnknownType)
       | Some e \<Rightarrow>
           if \<not> me_enabled e then Err (MessageTypeRegistryError TypeDisabled)
           else if c \<notin> me_allowed_categories e then Err (MessageTypeRegistryError WrongCategory)
           else if \<not> can_consume_from (me_domain_constraint e) domain then Err (MessageTypeRegistryError WrongDomain)
           else Ok (me_handler_ids e)) \<and>
    (fst (register_message_type (Some x) (register_all es)) = Ok () \<longleftrightarrow>
       (\<forall>e later. entries_for (me_message_type x) es = e # later \<longrightarrow> same_rules e x)) \<and>
    register_message_type (Some x) (freeze_types (register_all es)) =
      (Err (MtCore INVALID_STATE), freeze_types (register_all es))"
proof -
  note all = register_all_entries [OF assms]
  then have entries: "\<And>mt. dict_get (mr_entries (register_all es)) mt = merged mt es"
    and ok: "types_ok (register_all es)" "\<not> mr_frozen (register_all es)" by auto
  have "fst (register_message_type (Some x) (register_all es)) = Ok () \<longleftrightarrow>
       (\<forall>e later. entries_for (me_message_type x) es = e # later \<longrightarrow> same_rules e x)"
  proof (cases "merged (me_message_type x) es")
    case None
    then have "entries_for (me_message_type x) es = []" by (simp add: merged_def split: list.splits)
    with None show ?thesis unfolding register_effect [OF ok] entries by simp
  next
    case (Some e)
    from merged_rules [OF this] obtain y later where
      "entries_for (me_message_type x) es = y # later" "same_rules e x = same_rules y x" by blast
    with Some show ?thesis unfolding register_effect [OF ok] entries by simp
  qed
  moreover have "register_message_type (Some x) (freeze_types (register_all es)) =
      (Err (MtCore INVALID_STATE), freeze_types (register_all es))"
    by (simp add: register_message_type_def freeze_types_def)
  moreover have "dict_get (mr_entries (freeze_types (register_all es))) mt = merged mt es"
    by (simp add: freeze_types_def entries)
  then have "get_type_handlers (freeze_types (register_all es)) mt c domain =
      (case merged mt es of
         None \<Rightarrow> Err (MessageTypeRegistryError UnknownType)
       | Some e \<Rightarrow>
           if \<not> me_enabled e then Err (MessageTypeRegistryError TypeDisabled)
           else if c \<notin> me_allowed_categories e then Err (MessageTypeRegistryError WrongCategory)
           else if \<not> can_consume_from (me_domain_constraint e) domain then Err (MessageTypeRegistryError WrongDomain)
           else Ok (me_handler_ids e))"
    unfolding get_type_handlers_def require_frozen_def
    by (simp add: freeze_types_def validate_category_def validate_consumption_def split: option.split)
  ultimately show ?thesis by blast
qed

theorem registrations_merge_witness:
  "get_type_handlers (freeze_types (register_all [demo_entry_of ''Created'' ''a'' True, demo_entry_of ''Created'' ''b'' False]))
     ''Created'' EVENT ''user'' = Ok [''a'', ''b'']"
proof -
  let ?es = "[demo_entry_of ''Created'' ''a'' True, demo_entry_of ''Created'' ''b'' False]"
  have valid: "\<forall>e \<in> set ?es. valid_entry e"
    by (simp add: valid_entry_def mk_message_type_entry_def mk_domain_constraint_def demo_entry_of_def)
  have "merged ''Created'' ?es = Some ((demo_entry_of ''Created'' ''a'' True)\<lparr>me_handler_ids := [''a'', ''b'']\<rparr>)"
    by (simp add: merged_def entries_for_def same_rules_def demo_entry_of_def add_handler_def)
  then show ?thesis
    using registrations_merge [OF valid, of "''Created''" EVENT "''user''", THEN conjunct1]
    by (simp add: demo_entry_of_def can_consume_from_def)
qed

text \<open>
  C28: The check of a topic is the check of the handlers, for the category of the topic and its second segment
  as the domain: it passes exactly if handlers would be given, and fails for the same reason otherwise. So
  a message type passes only on topics whose second segment is its owning domain or a domain it was opened to.
\<close>
theorem topic_check_isolates:
  assumes "mr_frozen s"
  shows "validate_topic_message_type category_of s topic mt =
      (case category_of topic of
         None \<Rightarrow> Ok (Some NoCategory)
       | Some c \<Rightarrow>
           (case py_split CHR ''.'' (py_strip topic) of
              p # d # rest \<Rightarrow>
                (case get_type_handlers s mt c d of
                   Ok hs \<Rightarrow> Ok None
                 | Err e \<Rightarrow> (case e of MessageTypeRegistryError r \<Rightarrow> Ok (Some r) | _ \<Rightarrow> Err e))
            | _ \<Rightarrow> Ok (Some NoDomain))) \<and>
    (validate_topic_message_type category_of s topic mt = Ok None \<longrightarrow>
       (\<exists>e p d rest. dict_get (mr_entries s) mt = Some e \<and> py_split CHR ''.'' (py_strip topic) = p # d # rest \<and>
          (dc_allow_all_domains (me_domain_constraint e) \<or> d = dc_owning_domain (me_domain_constraint e) \<or>
           d \<in> dc_allowed_cross_domains (me_domain_constraint e))))"
proof -
  have d: "extract_domain_from_topic (Some topic) =
      (case py_split CHR ''.'' (py_strip topic) of p # d # rest \<Rightarrow> Some d | _ \<Rightarrow> None)"
    unfolding extract_domain second_segment_def ..
  have check: "validate_topic_message_type category_of s topic mt =
      (case category_of topic of
         None \<Rightarrow> Ok (Some NoCategory)
       | Some c \<Rightarrow>
           (case py_split CHR ''.'' (py_strip topic) of
              p # d # rest \<Rightarrow>
                (case get_type_handlers s mt c d of
                   Ok hs \<Rightarrow> Ok None
                 | Err e \<Rightarrow> (case e of MessageTypeRegistryError r \<Rightarrow> Ok (Some r) | _ \<Rightarrow> Err e))
            | _ \<Rightarrow> Ok (Some NoDomain)))"
    using assms unfolding validate_topic_message_type_def get_type_handlers_def require_frozen_def d
    by (auto simp: validate_category_def validate_consumption_def split: option.split list.split)
  moreover have "\<exists>e p d rest. dict_get (mr_entries s) mt = Some e \<and> py_split CHR ''.'' (py_strip topic) = p # d # rest \<and>
          (dc_allow_all_domains (me_domain_constraint e) \<or> d = dc_owning_domain (me_domain_constraint e) \<or>
           d \<in> dc_allowed_cross_domains (me_domain_constraint e))"
    if "validate_topic_message_type category_of s topic mt = Ok None"
    using that assms unfolding validate_topic_message_type_def require_frozen_def d
    by (auto simp: validate_category_def validate_consumption_def can_consume_from_def
        split: option.splits list.splits if_splits)
  ultimately show ?thesis by blast
qed

theorem topic_check_isolates_witness:
  "validate_topic_message_type (\<lambda>t. Some EVENT) demo_types ''onex.evt.user.created.v1'' ''Created'' = Ok (Some WrongDomain)"
proof -
  have frozen: "mr_frozen demo_types" by (simp add: demo_types_def freeze_types_def)
  have "py_strip ''onex.evt.user.created.v1'' = ''onex.evt.user.created.v1''"
    by (rule py_strip_id) (simp_all add: is_py_space_def)
  then have "py_split CHR ''.'' (py_strip ''onex.evt.user.created.v1'') = [''onex'', ''evt'', ''user'', ''created'', ''v1'']"
    by simp
  moreover have "get_type_handlers demo_types ''Created'' EVENT ''evt'' = Err (MessageTypeRegistryError WrongDomain)"
    by (simp add: get_type_handlers_def require_frozen_def demo_types_def freeze_types_def first_registration_def
        init_registration_state_def demo_entry_of_def Let_def validate_category_def validate_consumption_def
        can_consume_from_def)
  ultimately show ?thesis
    using topic_check_isolates [OF frozen, of "\<lambda>t. Some EVENT" "''onex.evt.user.created.v1''" "''Created''"] by simp
qed

end
