(* ===== verification/OptimisticRetry.thy ===== *)
theory OptimisticRetry imports Infra_Prelude begin

text \<open>
  The retry of optimistic conflicts of \<^verbatim>\<open>utils/util_retry_optimistic.py\<close>: an operation is repeated with
  exponential backoff and jitter while its result says that another writer came first.

  Arguments of the model: what the \<open>i\<close>-th call of the operation does (\<open>Inl\<close>: it raises; a result may be
  Python's \<^verbatim>\<open>None\<close>), the test for a conflict, and the draws of the random generator.
\<close>

datatype ('e, 'r) conflict_outcome =
    Returned "'r option"
  | OperationRaised 'e
  | OptimisticConflictError int "'r option"
  | AssertionFailed

record retry_settings =
  os_max_retries :: int
  os_initial_backoff :: seconds
  os_max_backoff :: seconds
  os_backoff_multiplier :: real
  os_jitter :: bool

text \<open>The defaults of the parameters.\<close>

definition default_settings :: retry_settings where
  "default_settings = \<lparr>os_max_retries = 3, os_initial_backoff = 1 / 10, os_max_backoff = 5,
     os_backoff_multiplier = 2, os_jitter = True\<rparr>"

definition conflict_delay :: "retry_settings \<Rightarrow> real \<Rightarrow> seconds \<Rightarrow> seconds" where
  "conflict_delay c draw backoff =
     (let delay = min backoff (os_max_backoff c) in if os_jitter c then delay * (1 / 2 + draw) else delay)"

text \<open>After the loop: the check of \<^verbatim>\<open>last_result\<close>, which is \<^verbatim>\<open>None\<close> before the first result.\<close>

definition conflict_exhausted :: "retry_settings \<Rightarrow> 'r option \<Rightarrow> ('e, 'r) conflict_outcome" where
  "conflict_exhausted c last_result =
     (if last_result = None then AssertionFailed
      else OptimisticConflictError (os_max_retries c + 1) last_result)"

text \<open>
  The loop over \<^verbatim>\<open>range\<close>, with the number of iterations left. The result is the outcome, the number of
  calls and the sleeps.
\<close>

fun conflict_loop ::
  "retry_settings \<Rightarrow> ('r option \<Rightarrow> bool) \<Rightarrow> (nat \<Rightarrow> 'e + 'r option) \<Rightarrow> (nat \<Rightarrow> real) \<Rightarrow> nat \<Rightarrow> nat \<Rightarrow> seconds \<Rightarrow>
   'r option \<Rightarrow> ('e, 'r) conflict_outcome \<times> nat \<times> seconds list" where
  "conflict_loop c conflict run draw attempt 0 backoff last_result = (conflict_exhausted c last_result, attempt, [])"
| "conflict_loop c conflict run draw attempt (Suc n) backoff last_result =
     (case run attempt of
        Err e \<Rightarrow> (OperationRaised e, Suc attempt, [])
      | Ok result \<Rightarrow>
          if \<not> conflict result then (Returned result, Suc attempt, [])
          else if int attempt = os_max_retries c then (conflict_exhausted c result, Suc attempt, [])
          else
            let delay = conflict_delay c (draw attempt) backoff;
                (res, calls, sleeps) =
                  conflict_loop c conflict run draw (Suc attempt) n (backoff * os_backoff_multiplier c) result in
            (res, calls, delay # sleeps))"

definition retry_on_optimistic_conflict ::
  "retry_settings \<Rightarrow> ('r option \<Rightarrow> bool) \<Rightarrow> (nat \<Rightarrow> 'e + 'r option) \<Rightarrow> (nat \<Rightarrow> real) \<Rightarrow>
   ('e, 'r) conflict_outcome \<times> nat \<times> seconds list" where
  "retry_on_optimistic_conflict c conflict run draw =
     conflict_loop c conflict run draw 0 (nat (os_max_retries c + 1)) (os_initial_backoff c) None"

section \<open>The reference\<close>

text \<open>The first call that raises or whose result is no conflict.\<close>

definition decides :: "('r option \<Rightarrow> bool) \<Rightarrow> 'e + 'r option \<Rightarrow> bool" where
  "decides conflict x \<longleftrightarrow> (case x of Err e \<Rightarrow> True | Ok r \<Rightarrow> \<not> conflict r)"

definition scheduled_delay :: "retry_settings \<Rightarrow> (nat \<Rightarrow> real) \<Rightarrow> nat \<Rightarrow> seconds" where
  "scheduled_delay c draw i = conflict_delay c (draw i) (os_initial_backoff c * os_backoff_multiplier c ^ i)"

lemma loop_decides:
  assumes "\<And>i. attempt \<le> i \<Longrightarrow> i < k \<Longrightarrow> \<not> decides conflict (run i)" "decides conflict (run k)" "attempt \<le> k"
    and "k < attempt + n" "int (attempt + n) = os_max_retries c + 1"
    and "backoff = os_initial_backoff c * os_backoff_multiplier c ^ attempt"
  shows "conflict_loop c conflict run draw attempt n backoff l =
    (case run k of Err e \<Rightarrow> OperationRaised e | Ok r \<Rightarrow> Returned r, Suc k, map (scheduled_delay c draw) [attempt..<k])"
  using assms
proof (induction n arbitrary: attempt backoff l)
  case (Suc n)
  show ?case
  proof (cases "attempt = k")
    case True
    with Suc.prems(2) show ?thesis by (auto simp: decides_def split: sum.split)
  next
    case False
    with Suc.prems(3) have "attempt < k" by simp
    with Suc.prems(1) have "\<not> decides conflict (run attempt)" by simp
    then obtain r where r: "run attempt = Ok r" "conflict r" by (auto simp: decides_def split: sum.splits)
    have "int attempt \<noteq> os_max_retries c" using Suc.prems(4,5) \<open>attempt < k\<close> by simp
    moreover have "conflict_loop c conflict run draw (Suc attempt) n (backoff * os_backoff_multiplier c) r =
        (case run k of Err e \<Rightarrow> OperationRaised e | Ok r \<Rightarrow> Returned r, Suc k, map (scheduled_delay c draw) [Suc attempt..<k])"
      by (rule Suc.IH) (use Suc.prems \<open>attempt < k\<close> in auto)
    moreover have "[attempt..<k] = attempt # [Suc attempt..<k]" using \<open>attempt < k\<close> by (rule upt_conv_Cons)
    ultimately show ?thesis using r Suc.prems(6) by (simp add: scheduled_delay_def)
  qed
qed simp

lemma loop_exhausts:
  assumes "\<And>i. attempt \<le> i \<Longrightarrow> i < attempt + Suc n \<Longrightarrow> \<not> decides conflict (run i)"
    and "int (attempt + n) = os_max_retries c"
    and "backoff = os_initial_backoff c * os_backoff_multiplier c ^ attempt"
  shows "conflict_loop c conflict run draw attempt (Suc n) backoff l =
    (conflict_exhausted c (projr (run (attempt + n))), Suc (attempt + n),
     map (scheduled_delay c draw) [attempt..<attempt + n])"
  using assms
proof (induction n arbitrary: attempt backoff l)
  case 0
  then have "\<not> decides conflict (run attempt)" by simp
  then obtain r where "run attempt = Ok r" "conflict r" by (auto simp: decides_def split: sum.splits)
  with 0(2) show ?case by simp
next
  case (Suc n)
  have "\<not> decides conflict (run attempt)" using Suc.prems(1) by simp
  then obtain r where r: "run attempt = Ok r" "conflict r" by (auto simp: decides_def split: sum.splits)
  have "conflict_loop c conflict run draw (Suc attempt) (Suc n) (backoff * os_backoff_multiplier c) r =
    (conflict_exhausted c (projr (run (Suc attempt + n))), Suc (Suc attempt + n),
     map (scheduled_delay c draw) [Suc attempt..<Suc attempt + n])"
    by (rule Suc.IH) (use Suc.prems in auto)
  moreover have "[attempt..<attempt + Suc n] = attempt # [Suc attempt..<Suc attempt + n]"
    by (simp add: upt_conv_Cons)
  ultimately show ?case
    using r Suc.prems(2,3) unfolding conflict_loop.simps(2) by (simp add: scheduled_delay_def)
qed

lemma scheduled_delay_bounds:
  assumes "0 \<le> os_initial_backoff c" "1 \<le> os_backoff_multiplier c" "0 \<le> os_max_backoff c" "0 \<le> draw i" "draw i < 1"
  shows "0 \<le> scheduled_delay c draw i" "scheduled_delay c draw i \<le> os_max_backoff c * (3 / 2)"
    "\<not> os_jitter c \<Longrightarrow> scheduled_delay c draw i \<le> os_max_backoff c"
proof -
  let ?d = "min (os_initial_backoff c * os_backoff_multiplier c ^ i) (os_max_backoff c)"
  have d: "0 \<le> ?d" "?d \<le> os_max_backoff c" using assms(1-3) by auto
  then show "0 \<le> scheduled_delay c draw i" using assms(4) by (simp add: scheduled_delay_def conflict_delay_def Let_def)
  show "\<not> os_jitter c \<Longrightarrow> scheduled_delay c draw i \<le> os_max_backoff c"
    by (simp add: scheduled_delay_def conflict_delay_def Let_def)
  have "?d * (1 / 2 + draw i) \<le> os_max_backoff c * (3 / 2)"
    by (rule mult_mono) (use d assms in auto)
  moreover have "os_max_backoff c \<le> os_max_backoff c * (3 / 2)" using assms(3) by simp
  ultimately show "scheduled_delay c draw i \<le> os_max_backoff c * (3 / 2)"
    using d(2) by (simp only: scheduled_delay_def conflict_delay_def Let_def split: if_split) force
qed

text \<open>
  C17: The retry returns the first result without a conflict, or raises what the operation raises, after the
  calls before it and no others; it gives up after \<open>max_retries + 1\<close> conflicts, and then raises the conflict
  error, unless the last result was \<^verbatim>\<open>None\<close>: then an assertion that is meant to be unreachable fails. Between
  the calls it waits the capped exponential backoff; jitter stretches a wait to at most one and a half times
  the cap.
\<close>
theorem optimistic_retry_bounded:
  assumes "0 \<le> os_max_retries c" "0 \<le> os_initial_backoff c" "1 \<le> os_backoff_multiplier c" "0 \<le> os_max_backoff c"
    and "\<And>i. 0 \<le> draw i \<and> draw i < 1"
  shows "\<exists>res calls sleeps. retry_on_optimistic_conflict c conflict run draw = (res, calls, sleeps) \<and>
    0 < calls \<and> int calls \<le> os_max_retries c + 1 \<and>
    (\<forall>i < calls - 1. \<not> decides conflict (run i)) \<and>
    (if decides conflict (run (calls - 1))
     then res = (case run (calls - 1) of Err e \<Rightarrow> OperationRaised e | Ok r \<Rightarrow> Returned r)
     else int calls = os_max_retries c + 1 \<and>
       res = (case projr (run (calls - 1)) of None \<Rightarrow> AssertionFailed
              | Some r \<Rightarrow> OptimisticConflictError (os_max_retries c + 1) (Some r))) \<and>
    sleeps = map (scheduled_delay c draw) [0..<calls - 1] \<and>
    (\<forall>d \<in> set sleeps. 0 \<le> d \<and> d \<le> os_max_backoff c * (3 / 2))"
proof -
  obtain m where m: "os_max_retries c = int m" using assms(1) nonneg_int_cases by blast
  have b: "\<forall>d \<in> set (map (scheduled_delay c draw) [0..<k]). 0 \<le> d \<and> d \<le> os_max_backoff c * (3 / 2)" for k
    using scheduled_delay_bounds(1,2) [of c draw] assms(2-5) by auto
  show ?thesis
  proof (cases "\<exists>k \<le> m. decides conflict (run k)")
    case True
    define k where "k = (LEAST k. decides conflict (run k))"
    from True obtain n where n: "n \<le> m" "decides conflict (run n)" by blast
    have k: "decides conflict (run k)" "k \<le> m" "\<And>i. i < k \<Longrightarrow> \<not> decides conflict (run i)"
      using n unfolding k_def by (auto intro: LeastI dest: Least_le not_less_Least order_trans)
    have "retry_on_optimistic_conflict c conflict run draw =
      (case run k of Err e \<Rightarrow> OperationRaised e | Ok r \<Rightarrow> Returned r, Suc k, map (scheduled_delay c draw) [0..<k])"
      unfolding retry_on_optimistic_conflict_def
      by (rule loop_decides) (use k m in \<open>auto simp: nat_add_distrib\<close>)
    then show ?thesis using k m b [of k] by (intro exI conjI) (assumption, auto)
  next
    case False
    then have "\<not> decides conflict (run i)" if "i \<le> m" for i using that by blast
    moreover have n: "nat (int m + 1) = Suc m" by simp
    moreover from calculation(1) have "retry_on_optimistic_conflict c conflict run draw =
      (conflict_exhausted c (projr (run (0 + m))), Suc (0 + m), map (scheduled_delay c draw) [0..<0 + m])"
      unfolding retry_on_optimistic_conflict_def m
      unfolding n by (rule loop_exhausts) (use m in auto)
    ultimately show ?thesis
      using m b [of m] by (intro exI conjI) (assumption, auto simp: conflict_exhausted_def split: option.split)
  qed
qed

theorem optimistic_retry_bounded_witness:
  "fst (retry_on_optimistic_conflict default_settings (\<lambda>r. r = None) (\<lambda>i. Ok None :: nat + nat option) (\<lambda>i. 0)) =
     AssertionFailed"
proof -
  have "\<not> decides (\<lambda>r. r = None) (Ok None :: nat + nat option)" by (simp add: decides_def)
  then show ?thesis
    using optimistic_retry_bounded [of default_settings "\<lambda>i. 0" "\<lambda>r. r = None" "\<lambda>i. Ok None :: nat + nat option"]
    by (auto simp: default_settings_def)
qed

end
