(* ===== verification/Spec2Isabelle.thy ===== *)
theory Spec2Isabelle
  imports BreakerProps EnvParsing LlmOutage ContractRegistry SessionState IdempotencyStore Chunking
    RegistrationOrchestrator SnapshotProps OutboxProcessor SchedulerProps DispatchInputs GatewayProps
    RetryWorkerProps PolicyProps MessageTypesProps OptimisticRetry
begin

text \<open>
  Verification library for the resilience, registration and messaging core of
  \<^verbatim>\<open>src/omnibase_infra\<close> (paths below are relative to it).

  \<^bold>\<open>The program.\<close> omnibase_infra is the runtime of a system of nodes that talk through Kafka. A
  message reaches the dispatch engine, which chooses the dispatchers registered for its topic, category
  and type, prepares their inputs and runs them. Dispatchers lead to reducers (pure functions from a state
  and an event to a new state and intents), to orchestrators (which read projections and decide), and to
  effects (which execute intents against PostgreSQL, Kafka and HTTP services). Messages may be delivered
  more than once, so reducers and stores recognise repetitions; services may be down, so effects go
  through circuit breakers and retries; a notification has to survive a crash, so it passes through an
  outbox; nodes may die silently, so a scheduler emits ticks and a tick looks for missed deadlines.

  \<^bold>\<open>Theories.\<close> Each models the code of the files it names and keeps the names of the source; a record
  field, constructor or function corresponds to the attribute, enumeration member or method of that name.

  \<^item> \<open>Infra_Prelude\<close>: values every component uses (UUIDs as 128-bit words, times, floats, JSON,
    ordered dictionaries, the result type of a call that may raise) and lemmas on them.
  \<^item> \<open>Interfaces\<close>: the shared contracts as locales: a step relation with an invariant
    (\<open>invariant_machine\<close>), and reducers over an at-least-once log (\<open>redelivery_safe\<close>,
    \<open>log_reducer\<close>).
  \<^item> \<open>InfraErrors\<close>: \<^verbatim>\<open>errors/error_infra.py\<close> and the transport enumeration as values.
  \<^item> \<open>CircuitBreaker\<close>, \<open>BreakerProps\<close>: \<^verbatim>\<open>mixins/mixin_async_circuit_breaker.py\<close> and its
    configuration model. The record \<open>breaker\<close> holds the attributes of the mixin, the pending recovery
    tasks and the log of transition callbacks. The methods run under the breaker's lock and are one
    function each.
  \<^item> \<open>EnvParsing\<close>: \<^verbatim>\<open>utils/util_env_parsing.py\<close>, with Python's \<^verbatim>\<open>int()\<close> and
    \<^verbatim>\<open>float()\<close> on texts.
  \<^item> \<open>RetryExecution\<close>: \<^verbatim>\<open>mixins/mixin_retry_execution.py\<close> and its models; it sees the breaker
    through the locale \<open>breaker_protocol\<close>, interpreted on the model of the mixin.
  \<^item> \<open>EndpointAllowlist\<close>, \<open>LlmTransport\<close>, \<open>LlmProps\<close>, \<open>LlmOutage\<close>:
    \<^verbatim>\<open>mixins/mixin_llm_http_transport.py\<close>: the allowlists, one attempt (\<open>llm_attempt\<close>), the
    retry loop (\<open>llm_loop\<close>) and the call (\<open>execute_llm_http_call\<close>) over the real breaker.
  \<^item> \<open>RegistrationReducer\<close>: \<^verbatim>\<open>nodes/node_registration_reducer\<close>.
  \<^item> \<open>RegistrationDecision\<close>, \<open>ProjectionTable\<close>, \<open>RegistrationOrchestrator\<close>:
    \<^verbatim>\<open>nodes/node_registration_orchestrator\<close>, the projection table with the intent effects and queries
    it relies on (\<^verbatim>\<open>runtime/intent_effects\<close>, \<^verbatim>\<open>projectors\<close>), and the timeouts
    (\<^verbatim>\<open>services/service_timeout_scanner.py\<close>, \<^verbatim>\<open>service_timeout_emitter.py\<close>).
  \<^item> \<open>ContractRegistry\<close>: \<^verbatim>\<open>nodes/node_contract_registry_reducer\<close>.
  \<^item> \<open>SessionState\<close>: \<^verbatim>\<open>nodes/node_session_state_effect/models\<close> and the automaton of
    \<^verbatim>\<open>nodes/node_session_lifecycle_reducer\<close>.
  \<^item> \<open>IdempotencyStore\<close>: \<^verbatim>\<open>idempotency/store_inmemory.py\<close>, behind the locales
    \<open>idempotency_store\<close> and \<open>expiring_store\<close>.
  \<^item> \<open>Chunking\<close>: \<^verbatim>\<open>gateways/chunking\<close>.
  \<^item> \<open>SnapshotStore\<close>, \<open>SnapshotProps\<close>: \<^verbatim>\<open>services/snapshot\<close> with \<^verbatim>\<open>models/snapshot\<close>;
    the service uses its store through the locale \<open>snapshot_backend\<close>.
  \<^item> \<open>NotificationOutbox\<close>, \<open>OutboxProps\<close>, \<open>OutboxProcessor\<close>:
    \<^verbatim>\<open>runtime/transition_notification_outbox.py\<close>: the table and one batch inside its transaction, the
    delivery guarantees, and the life of the processor task.
  \<^item> \<open>RuntimeScheduler\<close>, \<open>SchedulerProps\<close>: \<^verbatim>\<open>runtime/runtime_scheduler.py\<close> with its
    models; it runs each publish through the breaker of \<open>CircuitBreaker\<close>.
  \<^item> \<open>BindingResolver\<close>, \<open>BindingProps\<close>: \<^verbatim>\<open>runtime/binding_resolver.py\<close> and
    \<^verbatim>\<open>models/bindings\<close>.
  \<^item> \<open>DlqTopics\<close>: \<^verbatim>\<open>event_bus/topic_constants.py\<close>.
  \<^item> \<open>MessageDispatch\<close>, \<open>DispatchProps\<close>, \<open>DispatchRuns\<close>, \<open>DispatchInputs\<close>:
    \<^verbatim>\<open>runtime/message_dispatch_engine.py\<close> and \<^verbatim>\<open>dispatch_context_enforcer.py\<close>; a dispatch resolves
    its bindings by \<open>BindingResolver\<close> and names its dead letter topic by \<open>DlqTopics\<close>.
  \<^item> \<open>InferenceGateway\<close>, \<open>GatewayProps\<close>:
    \<^verbatim>\<open>nodes/node_llm_inference_effect/handlers/bifrost\<close>: routing, failover and one circuit per backend.
    The circuits are a dictionary of their own, not the mixin; what other requests do to it while one waits
    is an argument.
  \<^item> \<open>RetryWorker\<close>, \<open>RetryWorkerProps\<close>: \<^verbatim>\<open>services/retry_worker\<close>: the table of deliveries,
    one polling round and the loop, with the database behind the breaker of \<open>CircuitBreaker\<close>.
  \<^item> \<open>PolicyRegistry\<close>, \<open>PolicyProps\<close>: \<^verbatim>\<open>runtime/registry_policy.py\<close> with its mixins and
    models: the dictionary of policies and its index by identifier.
  \<^item> \<open>MessageTypes\<close>, \<open>MessageTypesProps\<close>: \<^verbatim>\<open>runtime/registry/registry_message_type.py\<close> with
    its mixins and \<^verbatim>\<open>models/registry\<close>: entries, their indexes, and the domains of topics.
  \<^item> \<open>OptimisticRetry\<close>: \<^verbatim>\<open>utils/util_retry_optimistic.py\<close>.

  \<^bold>\<open>What the theorems show.\<close>

  \<^item> \<^emph>\<open>State.\<close> Invariants of every reachable state: breaker, dispatch engine, snapshots, outbox
    processor, session index, policy registry, message types; refinement of the breaker by a three-state automaton, and of the
    idempotency store by exactly-once processing.
  \<^item> \<^emph>\<open>Delivery.\<close> Redelivered events change nothing in the two reducers; chunks reassemble in any
    order; heartbeats converge in any order; a committed notification is never lost, and a healthy
    processor empties the outbox; every failed delivery is settled, and each call of the delivery function
    is accounted for; tick numbers increase through restarts.
  \<^item> \<^emph>\<open>Failure.\<close> What an outage costs a caller and when it ends; a failing dispatcher leaves the
    others alone; a scope confines a dispatch; the endpoint check fails closed; the gateway calls
    backends in order, within its limit, and probes an open circuit once per window.
  \<^item> \<^emph>\<open>Meaning.\<close> Dispatch, bindings, retention, snapshots and backoff against reference definitions;
    a policy lookup finds the newest match; registrations of a message type merge; round trips of binding expressions and dead letter topics.
  \<^item> \<^emph>\<open>Limits.\<close> Where the code falls short of its documentation the theorem says exactly what
    happens: expiries reported once per row, an aborted batch published again, exhausted rows that block
    the outbox, the clock that reaches reducers, decisions that bypass the state machine, bad requests that open
    circuits, an unreadable row that stops the retry worker, identifiers that split the policy registry.

  \<^bold>\<open>Effects and concurrency.\<close> State is passed explicitly. What the world does (a response, the result
  of a statement, the clock, what other tasks do while one waits) is an argument, and the theorems hold
  for all of them unless a hypothesis says otherwise. An operation under a lock is one step; where the code
  waits without one, the model has separate steps or an argument for the interference. Exceptions are
  values of the sum type \<open>result\<close>; where the kind of an exception matters it is a constructor.

  \<^bold>\<open>Loops and bounds.\<close> Every loop is a terminating function: over the list the code iterates, or with
  the measure of its counter (the retry loop of a call is bounded by \<open>max_retries\<close>, and
  \<open>llm_call_budget\<close> counts its attempts). Background loops, which never end by themselves, are modelled
  by their rounds, and the theorems speak of any number of them. No function takes fuel. Python's integers
  are \<^verbatim>\<open>int\<close>; the limit of 4300 digits on \<^verbatim>\<open>int(text)\<close> is \<open>int_digit_limit\<close>. IPv4 addresses
  and UUIDs are words of their width.

  \<^bold>\<open>Not modelled.\<close>

  \<^item> The rounding of floats (a float is an exact real or one of the special values), the wording of
    messages, logging, tracing and timing metrics.
  \<^item> Code outside the repository: the core library, asyncio, pydantic beyond the declared constraints,
    aiokafka, asyncpg, httpx. What the code needs of it is an argument or is written out where its
    documentation fixes it (insertion order of dictionaries, the transaction rules of PostgreSQL).
  \<^item> The Kafka event bus, the process start-up and wiring code, plugin loaders, configuration and secret
    resolvers, SQL-backed stores, adapters of external services, HTTP views, health checks, observability
    consumers, validators, the remaining registries, command line tools and the application nodes. They are
    I/O, reflection or glue, or applications beside the runtime; the manifest lists each with its reason.
\<close>

end
